(* ===== verification/Prelude.thy ===== *)
theory Prelude
  imports Main "HOL-Library.Char_ord" "HOL-Library.List_Lexorder" "HOL-Library.Signed_Division"
    "HOL-Library.Word"
begin

text \<open>
  What every other theory of the development uses: the rule collections, the sum over a finite
  map (\<open>msum\<close>) with its one update law, and two interfaces stated as locales.
  \<open>scan_best\<close> is the loop \<open>for _, w := range m { if better(w, best) { best = w } }\<close> of the
  worker registry, \<open>scan_total\<close> the same loop over an order that is total on the
  identifiers, where the result no longer depends on Go's random iteration order.
  \<open>transition_system\<close> is reachability and the invariant rule, proved once for every step
  relation of the development.
\<close>

named_theorems go_int \<open>wrap-around arithmetic on 64-bit integers\<close>
named_theorems svc_defs \<open>definitions of the entry service unfolded together\<close>
named_theorems wf_intros \<open>preservation of well-formedness by an operation\<close>

subsection \<open>Sums over finite maps\<close>

definition msum :: "('v \<Rightarrow> int) \<Rightarrow> ('k \<rightharpoonup> 'v) \<Rightarrow> int" where
  "msum f m = (\<Sum>k\<in>dom m. f (the (m k)))"

definition at_key :: "('v \<Rightarrow> int) \<Rightarrow> 'v option \<Rightarrow> int" where
  "at_key f v = (case v of None \<Rightarrow> 0 | Some x \<Rightarrow> f x)"

lemma at_key_simps [simp]: "at_key f None = 0" "at_key f (Some v) = f v"
  by (simp_all add: at_key_def)

lemma msum_empty [simp]: "msum f Map.empty = 0"
  by (simp add: msum_def)

lemma msum_upd:
  assumes "finite (dom m)"
  shows "msum f (m(k \<mapsto> v)) = msum f m - at_key f (m k) + f v"
proof (cases "m k")
  case None
  then have "k \<notin> dom m" by auto
  then have "(\<Sum>x\<in>dom m. f (the ((m(k \<mapsto> v)) x))) = (\<Sum>x\<in>dom m. f (the (m x)))"
    by (intro sum.cong) auto
  with None assms \<open>k \<notin> dom m\<close> show ?thesis
    by (simp add: msum_def)
next
  case (Some u)
  then have k: "k \<in> dom m" by auto
  then have eq: "insert k (dom m) = insert k (dom m - {k})" by auto
  have "(\<Sum>x\<in>dom m - {k}. f (the ((m(k \<mapsto> v)) x))) = (\<Sum>x\<in>dom m - {k}. f (the (m x)))"
    by (intro sum.cong) auto
  with assms have "msum f (m(k \<mapsto> v)) = f v + (\<Sum>x\<in>dom m - {k}. f (the (m x)))"
    by (simp add: msum_def eq del: insert_Diff_single)
  moreover have "msum f m = f (the (m k)) + (\<Sum>x\<in>dom m - {k}. f (the (m x)))"
    unfolding msum_def using assms k by (rule sum.remove)
  ultimately show ?thesis using Some by simp
qed

lemma msum_fresh: "finite (dom m) \<Longrightarrow> m k = None \<Longrightarrow> msum f (m(k \<mapsto> v)) = msum f m + f v"
  by (simp add: msum_upd)

lemma msum_same: "finite (dom m) \<Longrightarrow> m k = Some u \<Longrightarrow> f u = f v \<Longrightarrow> msum f (m(k \<mapsto> v)) = msum f m"
  by (simp add: msum_upd)

lemma msum_nonneg: "(\<And>v. 0 \<le> f v) \<Longrightarrow> 0 \<le> msum f m"
  by (simp add: msum_def sum_nonneg)

lemma msum_ge_entry:
  assumes "finite (dom m)" "m k = Some v" "\<And>v. 0 \<le> f v"
  shows "f v \<le> msum f m"
  unfolding msum_def using assms member_le_sum [of k "dom m" "\<lambda>k. f (the (m k))"]
  by (auto simp: dom_def)

lemma msum_le_card:
  assumes "finite (dom m)" "\<And>v. f v \<le> 1"
  shows "msum f m \<le> int (card (dom m))"
  unfolding msum_def using sum_bounded_above [of "dom m" "\<lambda>k. f (the (m k))" 1] assms by simp

lemma msum_cong_None: "(\<And>k v. m k = Some v \<Longrightarrow> f v = g v) \<Longrightarrow> msum f m = msum g m"
  unfolding msum_def by (intro sum.cong) auto

subsection \<open>Lists and maps\<close>

lemma map_filter_set: "x \<in> set (List.map_filter m ks) \<longleftrightarrow> (\<exists>k \<in> set ks. m k = Some x)"
  by (force simp: map_filter_def)

lemma map_filter_Cons_simps [simp]:
  "List.map_filter m [] = []"
  "List.map_filter m (k # ks) = (case m k of None \<Rightarrow> List.map_filter m ks | Some v \<Rightarrow> v # List.map_filter m ks)"
  by (simp_all add: map_filter_simps)

text \<open>\<open>enumerates m ks\<close>: one iteration order of Go's \<open>range\<close> over a map.\<close>

definition enumerates :: "('k \<rightharpoonup> 'v) \<Rightarrow> 'k list \<Rightarrow> bool" where
  "enumerates m ks \<longleftrightarrow> distinct ks \<and> set ks = dom m"

lemma enumerates_finite: "enumerates m ks \<Longrightarrow> finite (dom m)"
  by (metis enumerates_def finite_set)

lemma enumerates_values:
  "enumerates m ks \<Longrightarrow> v \<in> set (List.map_filter m ks) \<longleftrightarrow> v \<in> ran m"
  by (auto simp: enumerates_def map_filter_set ran_def)

lemma enumerates_exists: "finite (dom m) \<Longrightarrow> \<exists>ks. enumerates m ks"
  by (metis enumerates_def finite_distinct_list)

subsection \<open>The scanning loop\<close>

text \<open>One pass over the candidates that keeps the best one seen; the first candidate is kept
  until a strictly better one comes.\<close>

fun scan_step :: "('a \<Rightarrow> bool) \<Rightarrow> ('a \<Rightarrow> 'a \<Rightarrow> bool) \<Rightarrow> 'a \<Rightarrow> 'a option \<Rightarrow> 'a option" where
  "scan_step eligible better x None = (if eligible x then Some x else None)"
| "scan_step eligible better x (Some b) = (if eligible x \<and> better x b then Some x else Some b)"

definition scan :: "('a \<Rightarrow> bool) \<Rightarrow> ('a \<Rightarrow> 'a \<Rightarrow> bool) \<Rightarrow> 'a list \<Rightarrow> 'a option" where
  "scan eligible better xs = fold (scan_step eligible better) xs None"

locale scan_best =
  fixes eligible :: "'a \<Rightarrow> bool"
    and better :: "'a \<Rightarrow> 'a \<Rightarrow> bool"
  assumes better_irrefl: "\<not> better x x"
    and better_trans: "better x y \<Longrightarrow> better y z \<Longrightarrow> better x z"
begin

lemma better_asym: "better x y \<Longrightarrow> \<not> better y x"
  using better_irrefl better_trans by blast

lemma scan_fold_Some:
  assumes "eligible b"
  shows "\<exists>c. fold (scan_step eligible better) xs (Some b) = Some c \<and> eligible c
    \<and> (c = b \<or> c \<in> set xs \<and> better c b) \<and> (\<forall>x\<in>set xs. eligible x \<longrightarrow> \<not> better x c)"
  using assms
proof (induction xs arbitrary: b)
  case Nil
  then show ?case by simp
next
  case (Cons x xs)
  show ?case
  proof (cases "eligible x \<and> better x b")
    case True
    with Cons.IH [of x] obtain c where
      c: "fold (scan_step eligible better) xs (Some x) = Some c" "eligible c"
        "c = x \<or> c \<in> set xs \<and> better c x" "\<forall>y\<in>set xs. eligible y \<longrightarrow> \<not> better y c"
      by blast
    from c(3) have "\<not> better x c" by (auto simp: better_irrefl dest: better_asym)
    moreover from c(3) True have "better c b" by (auto intro: better_trans)
    moreover have "c \<in> set (x # xs)" using c(3) by auto
    ultimately show ?thesis using True c by auto
  next
    case False
    with Cons.IH [OF Cons.prems] obtain c where
      c: "fold (scan_step eligible better) xs (Some b) = Some c" "eligible c"
        "c = b \<or> c \<in> set xs \<and> better c b" "\<forall>y\<in>set xs. eligible y \<longrightarrow> \<not> better y c"
      by blast
    from c(3) False have "eligible x \<longrightarrow> \<not> better x c" by (auto intro: better_trans)
    with False c show ?thesis by auto
  qed
qed

lemma scan_fold_None:
  "case fold (scan_step eligible better) xs None of
      None \<Rightarrow> \<forall>x\<in>set xs. \<not> eligible x
    | Some c \<Rightarrow> eligible c \<and> c \<in> set xs \<and> (\<forall>x\<in>set xs. eligible x \<longrightarrow> \<not> better x c)"
proof (induction xs)
  case Nil
  then show ?case by simp
next
  case (Cons x xs)
  show ?case
  proof (cases "eligible x")
    case True
    from scan_fold_Some [OF True, of xs] obtain c where
      "fold (scan_step eligible better) xs (Some x) = Some c" "eligible c"
      "c = x \<or> c \<in> set xs \<and> better c x" "\<forall>y\<in>set xs. eligible y \<longrightarrow> \<not> better y c"
      by blast
    then show ?thesis using True by (auto simp: better_irrefl dest: better_asym)
  next
    case False
    with Cons.IH show ?thesis by (auto split: option.splits)
  qed
qed

lemma scan_None: "scan eligible better xs = None \<longleftrightarrow> (\<forall>x\<in>set xs. \<not> eligible x)"
  using scan_fold_None [of xs] by (auto simp: scan_def split: option.splits)

lemma scan_Some:
  assumes "scan eligible better xs = Some b"
  shows "eligible b" and "b \<in> set xs" and "\<And>x. x \<in> set xs \<Longrightarrow> eligible x \<Longrightarrow> \<not> better x b"
  using scan_fold_None [of xs] assms by (auto simp: scan_def)

end

locale scan_total = scan_best eligible better
  for eligible :: "'a \<Rightarrow> bool" and better :: "'a \<Rightarrow> 'a \<Rightarrow> bool" +
  fixes ident :: "'a \<Rightarrow> 'k"
  assumes better_total: "eligible x \<Longrightarrow> eligible y \<Longrightarrow> ident x \<noteq> ident y \<Longrightarrow> better x y \<or> better y x"
begin

lemma scan_unique:
  assumes "inj_on ident (set xs)" and "b \<in> set xs" and "eligible b"
    and "\<And>x. x \<in> set xs \<Longrightarrow> eligible x \<Longrightarrow> ident x \<noteq> ident b \<Longrightarrow> better b x"
  shows "scan eligible better xs = Some b"
proof (cases "scan eligible better xs")
  case None
  with assms(2,3) show ?thesis by (simp add: scan_None)
next
  case (Some c)
  note c = scan_Some [OF Some]
  have "ident c = ident b"
    using assms(4) [OF c(2) c(1)] c(3) [OF assms(2,3)] by blast
  with assms(1,2) c(2) Some show ?thesis by (auto dest: inj_onD)
qed

lemma scan_Some_best:
  assumes "scan eligible better xs = Some b" and "x \<in> set xs" and "eligible x"
    and "ident x \<noteq> ident b"
  shows "better b x"
  using scan_Some [OF assms(1)] assms(2-4) better_total by blast

lemma scan_order_irrelevant:
  assumes "set xs = set ys" and "inj_on ident (set xs)"
  shows "scan eligible better xs = scan eligible better ys"
proof (cases "scan eligible better xs")
  case None
  with assms(1) have "scan eligible better ys = None" by (simp add: scan_None)
  with None show ?thesis by simp
next
  case (Some b)
  have "scan eligible better ys = Some b"
  proof (rule scan_unique)
    show "inj_on ident (set ys)" and "b \<in> set ys" and "eligible b"
      using assms scan_Some [OF Some] by auto
    show "better b x" if "x \<in> set ys" "eligible x" "ident x \<noteq> ident b" for x
      using scan_Some_best [OF Some] that assms(1) by blast
  qed
  with Some show ?thesis by simp
qed

end

subsection \<open>Transition systems\<close>

inductive reachable_from :: "'s \<Rightarrow> ('s \<Rightarrow> 's \<Rightarrow> bool) \<Rightarrow> 's \<Rightarrow> bool" for s0 step where
  reach_init: "reachable_from s0 step s0"
| reach_step: "reachable_from s0 step s \<Longrightarrow> step s t \<Longrightarrow> reachable_from s0 step t"

lemma reachable_from_path: "step\<^sup>*\<^sup>* s0 s \<Longrightarrow> reachable_from s0 step s"
  by (induction rule: rtranclp.induct) (auto intro: reachable_from.intros)

locale transition_system =
  fixes s0 :: 's and step :: "'s \<Rightarrow> 's \<Rightarrow> bool" and inv :: "'s \<Rightarrow> bool"
  assumes inv_init: "inv s0"
    and inv_step: "inv s \<Longrightarrow> step s t \<Longrightarrow> inv t"
begin

lemma reachable_inv: "reachable_from s0 step s \<Longrightarrow> inv s"
  by (induction rule: reachable_from.induct) (auto intro: inv_init inv_step)

lemma path_inv: "step\<^sup>*\<^sup>* s t \<Longrightarrow> inv s \<Longrightarrow> inv t"
  by (induction rule: rtranclp.induct) (auto intro: inv_step)

end

end
