(* ===== verification/Go_Std.thy ===== *)
theory Go_Std
  imports Prelude
begin

text \<open>
  What the program uses of Go itself: 64-bit signed integers (\<open>int\<close> and \<open>int64\<close> on the
  program's 64-bit targets) with wrap-around, \<open>encoding/hex.EncodeToString\<close>,
  \<open>net.SplitHostPort\<close> and \<open>net.JoinHostPort\<close>, \<open>strconv.Itoa\<close> and \<open>strconv.Atoi\<close>,
  and one draw of \<open>crypto/rand.Read\<close> into an 8-byte buffer (\<open>draw\<close>: the bytes, or
  \<open>None\<close> for its error). A Go string is the list of its bytes.
\<close>

subsection \<open>64-bit integers\<close>

definition wrap64 :: "int \<Rightarrow> int" where
  "wrap64 x = (x + 2 ^ 63) mod 2 ^ 64 - 2 ^ 63"

definition in64 :: "int \<Rightarrow> bool" where
  "in64 x \<longleftrightarrow> - (2 ^ 63) \<le> x \<and> x < 2 ^ 63"

definition add64 :: "int \<Rightarrow> int \<Rightarrow> int" where "add64 a b = wrap64 (a + b)"
definition sub64 :: "int \<Rightarrow> int \<Rightarrow> int" where "sub64 a b = wrap64 (a - b)"
definition mul64 :: "int \<Rightarrow> int \<Rightarrow> int" where "mul64 a b = wrap64 (a * b)"

text \<open>Go's integer division truncates towards zero.\<close>

definition quot64 :: "int \<Rightarrow> int \<Rightarrow> int" where "quot64 a b = wrap64 (a sdiv b)"

lemma wrap64_id: "in64 x \<Longrightarrow> wrap64 x = x"
  by (simp add: wrap64_def in64_def)

lemma wrap64_in64: "in64 (wrap64 x)"
proof -
  have "0 \<le> (x + 2 ^ 63) mod 2 ^ 64" and "(x + 2 ^ 63) mod 2 ^ 64 < 2 ^ 64" by simp_all
  then show ?thesis unfolding wrap64_def in64_def by simp
qed

lemma in64_results [simp, intro]:
  "in64 (add64 a b)" "in64 (sub64 a b)" "in64 (mul64 a b)" "in64 (quot64 a b)"
  by (simp_all add: add64_def sub64_def mul64_def quot64_def wrap64_in64)

lemma add64_eq [go_int]: "in64 (a + b) \<Longrightarrow> add64 a b = a + b"
  and sub64_eq [go_int]: "in64 (a - b) \<Longrightarrow> sub64 a b = a - b"
  and mul64_eq [go_int]: "in64 (a * b) \<Longrightarrow> mul64 a b = a * b"
  by (simp_all add: add64_def sub64_def mul64_def wrap64_id)

lemma in64_0 [simp]: "in64 0" and in64_1 [simp]: "in64 1"
  by (simp_all add: in64_def)

text \<open>The wrap-around is the one of two's complement machine words.\<close>

lemma wrap64_sint: "wrap64 x = sint (word_of_int x :: 64 word)"
  by (simp add: wrap64_def sint_sbintrunc' signed_take_bit_eq_take_bit_shift take_bit_eq_mod)

lemma add64_word: "add64 (sint a) (sint b) = sint (a + b :: 64 word)"
  by (simp add: add64_def wrap64_sint)

lemma sub64_word: "sub64 (sint a) (sint b) = sint (a - b :: 64 word)"
  by (simp add: sub64_def wrap64_sint)

lemma mul64_word: "mul64 (sint a) (sint b) = sint (a * b :: 64 word)"
  by (simp add: mul64_def wrap64_sint)

text \<open>A wrapped operand may be replaced by the unwrapped one.\<close>

lemma wrap64_wrap64 [simp]: "wrap64 (wrap64 x) = wrap64 x"
  by (simp add: wrap64_id wrap64_in64)

lemma wrap64_cong: "(2 ^ 64) dvd (x - y) \<Longrightarrow> wrap64 x = wrap64 y"
proof -
  assume "(2 ^ 64) dvd (x - y)"
  then have "(2 ^ 64) dvd ((x + 2 ^ 63) - (y + 2 ^ 63))" by simp
  then have "(x + 2 ^ 63) mod 2 ^ 64 = (y + 2 ^ 63) mod 2 ^ 64" by (simp add: mod_eq_dvd_iff)
  then show ?thesis by (simp only: wrap64_def)
qed

lemma wrap64_dvd: "(2 ^ 64) dvd (wrap64 x - x)"
proof -
  have "(2 ^ 64) dvd ((x + 2 ^ 63) mod 2 ^ 64 - (x + 2 ^ 63))"
    by (metis dvd_minus_mod dvd_diff_commute)
  moreover have "wrap64 x - x = (x + 2 ^ 63) mod 2 ^ 64 - (x + 2 ^ 63)" by (simp add: wrap64_def)
  ultimately show ?thesis by (simp only:)
qed

lemma wrap64_absorb [simp]:
  "wrap64 (wrap64 a + b) = wrap64 (a + b)" "wrap64 (b + wrap64 a) = wrap64 (b + a)"
  "wrap64 (wrap64 a - b) = wrap64 (a - b)" "wrap64 (b - wrap64 a) = wrap64 (b - a)"
proof -
  have d: "(2 ^ 64) dvd (wrap64 a - a)" by (rule wrap64_dvd)
  then have d': "(2 ^ 64) dvd (a - wrap64 a)" by (simp only: dvd_diff_commute)
  show "wrap64 (wrap64 a + b) = wrap64 (a + b)" by (rule wrap64_cong) (use d in \<open>simp add: algebra_simps\<close>)
  show "wrap64 (b + wrap64 a) = wrap64 (b + a)" by (rule wrap64_cong) (use d in \<open>simp add: algebra_simps\<close>)
  show "wrap64 (wrap64 a - b) = wrap64 (a - b)" by (rule wrap64_cong) (use d in \<open>simp add: algebra_simps\<close>)
  show "wrap64 (b - wrap64 a) = wrap64 (b - a)" by (rule wrap64_cong) (use d' in \<open>simp add: algebra_simps\<close>)
qed

text \<open>\<open>now.Sub(t)\<close> saturates at the bounds of an \<open>int64\<close> duration.\<close>

definition time_sub :: "int \<Rightarrow> int \<Rightarrow> int" where
  "time_sub a b = max (- (2 ^ 63)) (min (2 ^ 63 - 1) (a - b))"

subsection \<open>Hexadecimal encoding\<close>

type_synonym byte = "8 word"
type_synonym draw = "byte list option"

definition hextable :: string where
  "hextable = ''0123456789abcdef''"

definition hex_byte :: "byte \<Rightarrow> string" where
  "hex_byte b = [hextable ! (unat b div 16), hextable ! (unat b mod 16)]"

definition EncodeToString :: "byte list \<Rightarrow> string" where
  "EncodeToString bs = concat (map hex_byte bs)"

lemma length_hextable [simp]: "length hextable = 16"
  by (simp add: hextable_def)

lemma distinct_hextable: "distinct hextable"
  by (simp add: hextable_def)

lemma hex_byte_inj: "hex_byte a = hex_byte b \<Longrightarrow> a = b"
proof -
  assume eq: "hex_byte a = hex_byte b"
  have lt: "unat x div 16 < 16" for x :: byte
    using unsigned_less [of x, where ?'a = nat] by simp
  from eq have "hextable ! (unat a div 16) = hextable ! (unat b div 16)"
    and "hextable ! (unat a mod 16) = hextable ! (unat b mod 16)"
    by (simp_all add: hex_byte_def)
  then have "unat a div 16 = unat b div 16" and "unat a mod 16 = unat b mod 16"
    using lt by (simp_all add: nth_eq_iff_index_eq distinct_hextable)
  then have "unat a = unat b" by (metis div_mult_mod_eq)
  then show ?thesis by (rule unsigned_word_eqI)
qed

lemma length_hex_byte [simp]: "length (hex_byte b) = 2"
  by (simp add: hex_byte_def)

lemma EncodeToString_inj: "EncodeToString as = EncodeToString bs \<Longrightarrow> as = bs"
proof (induction as arbitrary: bs)
  case Nil
  then show ?case by (cases bs) (simp_all add: EncodeToString_def hex_byte_def)
next
  case (Cons a as)
  then obtain b bs' where bs: "bs = b # bs'"
    by (cases bs) (simp_all add: EncodeToString_def hex_byte_def)
  with Cons.prems have "hex_byte a @ EncodeToString as = hex_byte b @ EncodeToString bs'"
    by (simp add: EncodeToString_def)
  then have "hex_byte a = hex_byte b" and "EncodeToString as = EncodeToString bs'"
    by (simp_all add: append_eq_append_conv)
  with Cons.IH bs show ?case by (auto dest: hex_byte_inj)
qed

subsection \<open>Host and port\<close>

definition index_byte :: "char \<Rightarrow> string \<Rightarrow> nat option" where
  "index_byte c s = (if c \<in> set s then Some (length (takeWhile (\<lambda>x. x \<noteq> c) s)) else None)"

definition last_index_byte :: "char \<Rightarrow> string \<Rightarrow> nat option" where
  "last_index_byte c s =
     (if c \<in> set s then Some (length s - Suc (length (takeWhile (\<lambda>x. x \<noteq> c) (rev s)))) else None)"

text \<open>\<open>net.SplitHostPort\<close>: \<open>None\<close> for each of its errors (the callers only test for one).\<close>

definition SplitHostPort :: "string \<Rightarrow> (string \<times> string) option" where
  "SplitHostPort hostport =
     (case last_index_byte CHR '':'' hostport of
        None \<Rightarrow> None
      | Some i \<Rightarrow>
          if hd hostport = CHR ''['' then
            (case index_byte CHR '']'' hostport of
               None \<Rightarrow> None
             | Some e \<Rightarrow>
                 if Suc e \<noteq> i then None
                 else if CHR ''['' \<in> set (drop 1 hostport) then None
                 else if CHR '']'' \<in> set (drop (Suc e) hostport) then None
                 else Some (take (e - 1) (drop 1 hostport), drop (Suc i) hostport))
          else if CHR '':'' \<in> set (take i hostport) then None
          else if CHR ''['' \<in> set hostport \<or> CHR '']'' \<in> set hostport then None
          else Some (take i hostport, drop (Suc i) hostport))"

definition JoinHostPort :: "string \<Rightarrow> string \<Rightarrow> string" where
  "JoinHostPort host port =
     (if CHR '':'' \<in> set host then ''['' @ host @ '']:'' @ port else host @ '':'' @ port)"

lemma index_byte_append:
  "c \<notin> set xs \<Longrightarrow> index_byte c (xs @ c # ys) = Some (length xs)"
proof -
  assume c: "c \<notin> set xs"
  have "takeWhile (\<lambda>x. x \<noteq> c) (xs @ c # ys) = xs"
    by (subst takeWhile_append2) (use c in auto)
  then show ?thesis by (simp add: index_byte_def)
qed

lemma last_index_byte_append:
  "c \<notin> set ys \<Longrightarrow> last_index_byte c (xs @ c # ys) = Some (length xs)"
proof -
  assume c: "c \<notin> set ys"
  have "takeWhile (\<lambda>x. x \<noteq> c) (rev ys @ c # rev xs) = rev ys"
    by (subst takeWhile_append2) (use c in auto)
  then show ?thesis by (simp add: last_index_byte_def)
qed

lemma SplitHostPort_JoinHostPort:
  assumes "CHR ''['' \<notin> set host" "CHR '']'' \<notin> set host"
    and "CHR '':'' \<notin> set port" "CHR ''['' \<notin> set port" "CHR '']'' \<notin> set port"
  shows "SplitHostPort (JoinHostPort host port) = Some (host, port)"
proof (cases "CHR '':'' \<in> set host")
  case True
  have i: "last_index_byte CHR '':'' (CHR ''['' # host @ CHR '']'' # CHR '':'' # port)
      = Some (Suc (Suc (length host)))"
    using last_index_byte_append [OF assms(3), of "CHR ''['' # host @ [CHR '']'']"] by simp
  have e: "index_byte CHR '']'' (CHR ''['' # host @ CHR '']'' # CHR '':'' # port)
      = Some (Suc (length host))"
    using index_byte_append [of "CHR '']''" "CHR ''['' # host"] assms(2) by simp
  from True i e assms show ?thesis
    by (simp add: SplitHostPort_def JoinHostPort_def)
next
  case False
  have i: "last_index_byte CHR '':'' (host @ CHR '':'' # port) = Some (length host)"
    using last_index_byte_append [OF assms(3), of host] .
  have hd: "hd (host @ CHR '':'' # port) \<noteq> CHR ''[''"
    using assms(1) by (cases host) auto
  from False i hd assms show ?thesis
    by (simp add: SplitHostPort_def JoinHostPort_def)
qed

subsection \<open>Decimal numbers\<close>

definition digit_char :: "nat \<Rightarrow> char" where
  "digit_char d = char_of (48 + d)"

fun nat_digits :: "nat \<Rightarrow> string" where
  "nat_digits n = (if n < 10 then [digit_char n] else nat_digits (n div 10) @ [digit_char (n mod 10)])"

declare nat_digits.simps [simp del]

definition Itoa :: "int \<Rightarrow> string" where
  "Itoa n = (if n < 0 then CHR ''-'' # nat_digits (nat (- n)) else nat_digits (nat n))"

definition is_digit :: "char \<Rightarrow> bool" where
  "is_digit c \<longleftrightarrow> 48 \<le> (of_char c :: nat) \<and> (of_char c :: nat) \<le> 57"

definition digits_value :: "string \<Rightarrow> nat" where
  "digits_value s = fold (\<lambda>c acc. acc * 10 + (of_char c - 48)) s 0"

text \<open>\<open>strconv.Atoi\<close> and \<open>strconv.ParseInt(s, 10, 64)\<close>: an optional sign, at least one
  digit, digits only, and a value that fits 64 bits.\<close>

definition Atoi :: "string \<Rightarrow> int option" where
  "Atoi s =
     (let neg = (s \<noteq> [] \<and> hd s = CHR ''-'');
          body = (if s \<noteq> [] \<and> (hd s = CHR ''-'' \<or> hd s = CHR ''+'') then tl s else s)
      in if body = [] \<or> \<not> list_all is_digit body then None
         else let v = (if neg then - int (digits_value body) else int (digits_value body))
              in if in64 v then Some v else None)"

lemma of_char_digit_char: "d < 10 \<Longrightarrow> (of_char (digit_char d) :: nat) = 48 + d"
  by (simp add: digit_char_def)

lemma nat_digits_digits: "list_all is_digit (nat_digits n)"
proof (induction n rule: nat_digits.induct)
  case (1 n)
  then show ?case
    by (subst nat_digits.simps) (auto simp: is_digit_def [of "digit_char _"] of_char_digit_char)
qed

lemma nat_digits_nonempty: "nat_digits n \<noteq> []"
  by (subst nat_digits.simps) simp

lemma digits_value_snoc: "digits_value (s @ [c]) = digits_value s * 10 + (of_char c - 48)"
  by (simp add: digits_value_def)

lemma digits_value_nat_digits: "digits_value (nat_digits n) = n"
proof (induction n rule: nat_digits.induct)
  case (1 n)
  show ?case
  proof (cases "n < 10")
    case True
    then show ?thesis
      by (subst nat_digits.simps) (simp add: digits_value_def of_char_digit_char)
  next
    case False
    with 1 have "digits_value (nat_digits (n div 10)) = n div 10" by simp
    with False show ?thesis
      by (subst nat_digits.simps) (simp add: digits_value_snoc of_char_digit_char)
  qed
qed

lemma digit_not_sign: "is_digit c \<Longrightarrow> c \<noteq> CHR ''-'' \<and> c \<noteq> CHR ''+''"
  by (auto simp: is_digit_def)

lemma nat_digits_hd: "hd (nat_digits n) \<noteq> CHR ''-'' \<and> hd (nat_digits n) \<noteq> CHR ''+''"
  using nat_digits_digits [of n] nat_digits_nonempty [of n] digit_not_sign
  by (cases "nat_digits n") auto

lemma Atoi_Itoa: "in64 n \<Longrightarrow> Atoi (Itoa n) = Some n"
  using nat_digits_hd [of "nat n"]
  by (simp add: Atoi_def Itoa_def Let_def nat_digits_nonempty nat_digits_digits digits_value_nat_digits)

lemma digit_chars_safe:
  assumes "list_all is_digit s"
  shows "CHR '':'' \<notin> set s" "CHR ''['' \<notin> set s" "CHR '']'' \<notin> set s"
  using assms by (auto simp: list_all_iff is_digit_def)

end
