(* ===== verification/Protocol.thy ===== *)
theory Protocol
  imports Go_Std
begin

text \<open>
  \<open>pkg/protocol\<close>: the messages Entry and the workers exchange. Every Go struct is a record;
  its fields carry the struct's initials as a prefix (records of one theory share one name
  space), in the order of the struct. A Go string enumeration read from the wire is a datatype
  with one constructor per constant and one, \<open>...Other\<close>, for every other string (also the
  empty one, Go's zero value). The \<open>bind_...\<close> predicates state the fields' \<open>binding\<close> tags,
  with the meaning the validator documents: \<open>required\<close> is "not the zero value", \<open>min\<close> bounds
  a number or a length; the handlers reject a body that does not satisfy them.
\<close>

subsection \<open>Task types, processing modes and their wire names\<close>

datatype TaskType = TaskTypeProcessSegment | TaskTypeAssembleGIF | TaskTypeOther string

fun IsSupportedTaskType :: "TaskType \<Rightarrow> bool" where
  "IsSupportedTaskType TaskTypeProcessSegment = True"
| "IsSupportedTaskType TaskTypeAssembleGIF = True"
| "IsSupportedTaskType (TaskTypeOther s) = False"

fun task_type_name :: "TaskType \<Rightarrow> string" where
  "task_type_name TaskTypeProcessSegment = ''process_segment''"
| "task_type_name TaskTypeAssembleGIF = ''assemble_gif''"
| "task_type_name (TaskTypeOther s) = s"

definition task_type_of :: "string \<Rightarrow> TaskType" where
  "task_type_of s =
     (if s = ''process_segment'' then TaskTypeProcessSegment
      else if s = ''assemble_gif'' then TaskTypeAssembleGIF
      else TaskTypeOther s)"

datatype TaskProcessingMode =
  TaskProcessingModeInternal | TaskProcessingModeExternal | TaskProcessingModeOther string

type_synonym JobMode = TaskProcessingMode

abbreviation JobModeInternal :: JobMode where "JobModeInternal \<equiv> TaskProcessingModeInternal"
abbreviation JobModeExternal :: JobMode where "JobModeExternal \<equiv> TaskProcessingModeExternal"

fun mode_name :: "TaskProcessingMode \<Rightarrow> string" where
  "mode_name TaskProcessingModeInternal = ''internal''"
| "mode_name TaskProcessingModeExternal = ''external''"
| "mode_name (TaskProcessingModeOther s) = s"

definition mode_of :: "string \<Rightarrow> TaskProcessingMode" where
  "mode_of s =
     (if s = ''internal'' then TaskProcessingModeInternal
      else if s = ''external'' then TaskProcessingModeExternal
      else TaskProcessingModeOther s)"

datatype JobStatus =
    JobStatusSegmentAssigned | JobStatusSegmentRunning | JobStatusSegmentCompleted
  | JobStatusAssembleAssigned | JobStatusAssembleRunning | JobStatusCompleted | JobStatusFailed
  | JobStatusOther string

fun job_status_name :: "JobStatus \<Rightarrow> string" where
  "job_status_name JobStatusSegmentAssigned = ''segment_assigned''"
| "job_status_name JobStatusSegmentRunning = ''segment_running''"
| "job_status_name JobStatusSegmentCompleted = ''segment_completed''"
| "job_status_name JobStatusAssembleAssigned = ''assemble_assigned''"
| "job_status_name JobStatusAssembleRunning = ''assemble_running''"
| "job_status_name JobStatusCompleted = ''completed''"
| "job_status_name JobStatusFailed = ''failed''"
| "job_status_name (JobStatusOther s) = s"

datatype JobResultStatus = JobResultStatusSuccess | JobResultStatusFailed | JobResultStatusOther string

definition job_result_status_of :: "string \<Rightarrow> JobResultStatus" where
  "job_result_status_of s =
     (if s = ''success'' then JobResultStatusSuccess
      else if s = ''failed'' then JobResultStatusFailed
      else JobResultStatusOther s)"

fun job_result_status_name :: "JobResultStatus \<Rightarrow> string" where
  "job_result_status_name JobResultStatusSuccess = ''success''"
| "job_result_status_name JobResultStatusFailed = ''failed''"
| "job_result_status_name (JobResultStatusOther s) = s"

lemma task_type_name_of [simp]: "task_type_name (task_type_of s) = s"
  and mode_name_of [simp]: "mode_name (mode_of s) = s"
  and job_result_status_name_of [simp]: "job_result_status_name (job_result_status_of s) = s"
  by (simp_all add: task_type_of_def mode_of_def job_result_status_of_def)

lemma task_type_of_name: "IsSupportedTaskType t \<Longrightarrow> task_type_of (task_type_name t) = t"
  by (cases t) (simp_all add: task_type_of_def)

lemma IsSupportedTaskType_iff:
  "IsSupportedTaskType t \<longleftrightarrow> t = TaskTypeProcessSegment \<or> t = TaskTypeAssembleGIF"
  by (cases t) simp_all

subsection \<open>Statuses of the replies\<close>

datatype CreateJobStatus =
    CreateJobStatusSuccess | CreateJobStatusAlreadyExists | CreateJobStatusInsufficientResources
  | CreateJobStatusFailed | CreateJobStatusNotFound | CreateJobStatusOther string

datatype JobResultUpdateStatus =
    JobResultUpdateStatusSuccess | JobResultUpdateStatusFailed | JobResultUpdateStatusNotFound
  | JobResultUpdateStatusWorkerMismatch | JobResultUpdateStatusInvalidState
  | JobResultUpdateStatusOther string

datatype JobResultNotifyStatus =
  JobResultNotifyStatusSuccess | JobResultNotifyStatusFailed | JobResultNotifyStatusOther string

datatype QueryJobResultStatus =
  QueryJobResultStatusSuccess | QueryJobResultStatusNotFound | QueryJobResultStatusFailed

datatype TaskUpdateStatus =
    TaskUpdateStatusSuccess | TaskUpdateStatusFailed | TaskUpdateStatusNotFound
  | TaskUpdateStatusWorkerMismatch | TaskUpdateStatusInvalidState | TaskUpdateStatusOther string

datatype StartAssembleGIFStatus =
    StartAssembleGIFStatusSuccess | StartAssembleGIFStatusFailed
  | StartAssembleGIFStatusInsufficientStorage | StartAssembleGIFStatusInvalidRequest
  | StartAssembleGIFStatusOther string

fun start_assemble_status_name :: "StartAssembleGIFStatus \<Rightarrow> string" where
  "start_assemble_status_name StartAssembleGIFStatusSuccess = ''success''"
| "start_assemble_status_name StartAssembleGIFStatusFailed = ''failed''"
| "start_assemble_status_name StartAssembleGIFStatusInsufficientStorage = ''insufficient_storage''"
| "start_assemble_status_name StartAssembleGIFStatusInvalidRequest = ''invalid_request''"
| "start_assemble_status_name (StartAssembleGIFStatusOther s) = s"

datatype RegisterWorkerStatus =
  RegisterWorkerStatusSuccess | RegisterWorkerStatusFailed | RegisterWorkerStatusExists
  | RegisterWorkerStatusOther string

datatype HeartbeatWorkerStatus =
  HeartbeatWorkerStatusSuccess | HeartbeatWorkerStatusFailed | HeartbeatWorkerStatusNotFound
  | HeartbeatWorkerStatusOther string

datatype SegmentUploadStatus =
  SegmentUploadStatusSuccess | SegmentUploadStatusFailed | SegmentUploadStatusOther string

record SegmentUploadResponse =
  sur_Status :: SegmentUploadStatus
  sur_Reason :: string

subsection \<open>Workers: registration and heartbeat\<close>

record RegisterWorkerRequest =
  rwr_Address :: string
  rwr_TotalSlots :: int
  rwr_SupportedTasks :: "TaskType list"
  rwr_DiskTotalBytes :: int
  rwr_DiskFreeBytes :: int

definition bind_RegisterWorkerRequest :: "RegisterWorkerRequest \<Rightarrow> bool" where
  "bind_RegisterWorkerRequest r \<longleftrightarrow>
     rwr_Address r \<noteq> [] \<and> 1 \<le> rwr_TotalSlots r \<and> 1 \<le> length (rwr_SupportedTasks r)
     \<and> rwr_DiskTotalBytes r \<noteq> 0 \<and> 0 \<le> rwr_DiskTotalBytes r
     \<and> rwr_DiskFreeBytes r \<noteq> 0 \<and> 0 \<le> rwr_DiskFreeBytes r
     \<and> in64 (rwr_TotalSlots r) \<and> in64 (rwr_DiskTotalBytes r) \<and> in64 (rwr_DiskFreeBytes r)"

record SplitPolicy =
  sp_TargetSegmentSizeBytes :: int
  sp_TargetSegmentDurationMS :: int
  sp_MaxSegments :: int

record RegisterWorkerResponse =
  rwp_Status :: RegisterWorkerStatus
  rwp_WorkerID :: string
  rwp_SplitPolicy :: SplitPolicy

record RunningTask =
  rt_TaskID :: string
  rt_TaskType :: TaskType

record TaskRunMetric =
  trm_CompletedCount :: int
  trm_TotalDurationMS :: int

record HeartbeatWorkerRequest =
  hwr_WorkerID :: string
  hwr_TotalSlots :: int
  hwr_RunningProcessSegment :: int
  hwr_RunningAssembleGIF :: int
  hwr_RunningTasks :: "RunningTask list"
  hwr_DiskTotalBytes :: int
  hwr_DiskFreeBytes :: int
  hwr_Metrics :: "(TaskType \<times> TaskRunMetric) list"

definition bind_HeartbeatWorkerRequest :: "HeartbeatWorkerRequest \<Rightarrow> bool" where
  "bind_HeartbeatWorkerRequest r \<longleftrightarrow>
     hwr_WorkerID r \<noteq> [] \<and> 1 \<le> hwr_TotalSlots r
     \<and> 0 \<le> hwr_RunningProcessSegment r \<and> 0 \<le> hwr_RunningAssembleGIF r
     \<and> hwr_DiskTotalBytes r \<noteq> 0 \<and> 0 \<le> hwr_DiskTotalBytes r
     \<and> hwr_DiskFreeBytes r \<noteq> 0 \<and> 0 \<le> hwr_DiskFreeBytes r
     \<and> in64 (hwr_TotalSlots r) \<and> in64 (hwr_DiskTotalBytes r) \<and> in64 (hwr_DiskFreeBytes r)"

record BackpressureStatus =
  bp_Active :: bool
  bp_Reason :: string
  bp_BusyThresholdMultiplier :: int
  bp_ObservedWorkerCount :: int

record HeartbeatWorkerResponse =
  hwp_Status :: HeartbeatWorkerStatus
  hwp_GlobalBackpressure :: BackpressureStatus

text \<open>Go's zero values, where the code returns a struct literal that leaves fields out.\<close>

definition zero_BackpressureStatus :: BackpressureStatus where
  "zero_BackpressureStatus =
     \<lparr>bp_Active = False, bp_Reason = [], bp_BusyThresholdMultiplier = 0, bp_ObservedWorkerCount = 0\<rparr>"

definition zero_SplitPolicy :: SplitPolicy where
  "zero_SplitPolicy =
     \<lparr>sp_TargetSegmentSizeBytes = 0, sp_TargetSegmentDurationMS = 0, sp_MaxSegments = 0\<rparr>"

subsection \<open>Tasks\<close>

record TaskAcceptedRequest =
  tar_WorkerID :: string

record TaskCompletedRequest =
  tcr_WorkerID :: string
  tcr_Checksum :: string
  tcr_FrameCount :: int
  tcr_DurationMS :: int
  tcr_OutputSizeBytes :: int

definition bind_TaskCompletedRequest :: "TaskCompletedRequest \<Rightarrow> bool" where
  "bind_TaskCompletedRequest r \<longleftrightarrow>
     tcr_WorkerID r \<noteq> [] \<and> 0 \<le> tcr_FrameCount r \<and> 0 \<le> tcr_DurationMS r
     \<and> 0 \<le> tcr_OutputSizeBytes r
     \<and> in64 (tcr_FrameCount r) \<and> in64 (tcr_DurationMS r) \<and> in64 (tcr_OutputSizeBytes r)"

record TaskFailedRequest =
  tfr_WorkerID :: string
  tfr_Reason :: string
  tfr_Retryable :: bool

record TaskUpdateResponse =
  tur_Status :: TaskUpdateStatus

subsection \<open>Jobs\<close>

record CreateJobTaskRequest =
  cjt_SegmentIndex :: int
  cjt_Mode :: TaskProcessingMode

record CreateJobRequest =
  cjr_WorkerID :: string
  cjr_VideoName :: string
  cjr_SegmentCount :: int
  cjr_TotalSizeBytes :: int
  cjr_Mode :: JobMode
  cjr_Tasks :: "CreateJobTaskRequest list"

text \<open>An empty list of tasks stands for the absent one. (A body with \<open>"tasks": []\<close>, which the validator
  refuses, is one that does not bind, like any other the decoder or a tag refuses.)\<close>

definition bind_CreateJobRequest :: "CreateJobRequest \<Rightarrow> bool" where
  "bind_CreateJobRequest r \<longleftrightarrow>
     cjr_WorkerID r \<noteq> [] \<and> cjr_VideoName r \<noteq> []
     \<and> (cjr_SegmentCount r = 0 \<or> 1 \<le> cjr_SegmentCount r)
     \<and> cjr_TotalSizeBytes r \<noteq> 0 \<and> 0 \<le> cjr_TotalSizeBytes r
     \<and> in64 (cjr_SegmentCount r) \<and> in64 (cjr_TotalSizeBytes r)"

record TaskAssignment =
  ta_SegmentIndex :: int
  ta_TaskID :: string
  ta_WorkerID :: string
  ta_Address :: string
  ta_Mode :: TaskProcessingMode

record CreateJobResponse =
  cjp_Status :: CreateJobStatus
  cjp_JobID :: string
  cjp_JobStatus :: JobStatus
  cjp_AlreadyExists :: bool
  cjp_RequiredSlots :: int
  cjp_AvailableSlots :: int
  cjp_Assignments :: "TaskAssignment list"

record JobAssembledRequest =
  jar_WorkerID :: string
  jar_Status :: JobResultStatus
  jar_ResultName :: string
  jar_Checksum :: string
  jar_DurationMS :: int
  jar_OutputSizeBytes :: int
  jar_Reason :: string
  jar_Retryable :: bool

record JobAssembledResponse =
  jap_Status :: JobResultUpdateStatus

record JobResultNotificationRequest =
  jrn_JobID :: string
  jrn_VideoName :: string
  jrn_Status :: JobResultStatus
  jrn_ResultWorkerID :: string
  jrn_ResultWorkerAddress :: string
  jrn_ResultName :: string
  jrn_ResultURI :: string
  jrn_Checksum :: string
  jrn_OutputSizeBytes :: int
  jrn_Reason :: string
  jrn_Retryable :: bool

record JobResultNotificationResponse =
  jrp_Status :: JobResultNotifyStatus

record JobResultInfo =
  jri_WorkerID :: string
  jri_WorkerAddress :: string
  jri_Name :: string
  jri_URI :: string
  jri_Checksum :: string
  jri_OutputSizeBytes :: int

record JobFailureInfo =
  jfi_Reason :: string
  jfi_Retryable :: bool

record QueryJobResultResponse =
  qjr_Status :: QueryJobResultStatus
  qjr_JobID :: string
  qjr_JobStatus :: JobStatus
  qjr_VideoName :: string
  qjr_Mode :: JobMode
  qjr_Result :: "JobResultInfo option"
  qjr_Failure :: "JobFailureInfo option"

subsection \<open>Assembly\<close>

record AssembleVideoInfo =
  avi_Name :: string
  avi_SourceWorkerID :: string
  avi_SourceWorkerAddress :: string
  avi_TotalSizeBytes :: int

record AssembleSegmentRef =
  asr_SegmentIndex :: int
  asr_TaskID :: string
  asr_WorkerID :: string
  asr_WorkerAddress :: string
  asr_Checksum :: string
  asr_FrameCount :: int
  asr_OutputSizeBytes :: int

record StartAssembleGIFRequest =
  sar_JobID :: string
  sar_AssembleTaskID :: string
  sar_Video :: AssembleVideoInfo
  sar_Segments :: "AssembleSegmentRef list"

record StartAssembleGIFResponse =
  sap_Status :: StartAssembleGIFStatus
  sap_DiskFreeBytes :: int

subsection \<open>HTTP\<close>

text \<open>
  A POST is a parameter of the callers: transport failure (its error text), or a status code
  and the body, which decodes or not.
\<close>

datatype 'a HttpResult = HttpErr string | HttpResp int "string + 'a"

abbreviation StatusOK :: int where "StatusOK \<equiv> 200"
abbreviation StatusBadRequest :: int where "StatusBadRequest \<equiv> 400"
abbreviation StatusNotFound :: int where "StatusNotFound \<equiv> 404"
abbreviation StatusConflict :: int where "StatusConflict \<equiv> 409"
abbreviation StatusInternalServerError :: int where "StatusInternalServerError \<equiv> 500"
abbreviation StatusServiceUnavailable :: int where "StatusServiceUnavailable \<equiv> 503"

end
