(* ===== verification/Entry_Model.thy ===== *)
theory Entry_Model
  imports Protocol
begin

text \<open>
  \<open>entry-server/internal/model\<close>: what Entry keeps about a job, a task and a worker. A
  \<open>time.Time\<close> is the number of nanoseconds of its instant (\<open>int\<close>), a \<open>*time.Time\<close> an
  option. The model's own \<open>TaskStatus\<close> never leaves Entry. The model's \<open>JobStatus\<close> has the
  same seven strings as the protocol's and is cast to it; both are \<open>Protocol.JobStatus\<close>.
  \<open>ServiceError\<close> lists the sentinel errors of \<open>service\<close>; \<open>ErrRand\<close> is a failed draw,
  \<open>ErrText\<close> any other error by its text, and \<open>PanicNil\<close> the panic of a nil dereference.
\<close>

datatype TaskStatus = TaskStatusAssigned | TaskStatusRunning | TaskStatusCompleted | TaskStatusFailed

record Job =
  j_ID :: string
  j_SourceWorkerID :: string
  j_SourceWorkerAddress :: string
  j_VideoName :: string
  j_SegmentCount :: int
  j_TotalSizeBytes :: int
  j_Mode :: JobMode
  j_IdentityKey :: string
  j_Status :: JobStatus
  j_TaskIDs :: "string list"
  j_ResultWorkerID :: string
  j_ResultWorkerAddress :: string
  j_ResultName :: string
  j_ResultURI :: string
  j_Checksum :: string
  j_DurationMS :: int
  j_OutputSizeBytes :: int
  j_FailureReason :: string
  j_Retryable :: bool
  j_CreatedAt :: int
  j_UpdatedAt :: int
  j_CompletedAt :: "int option"
  j_FailedAt :: "int option"

record Task =
  t_ID :: string
  t_JobID :: string
  t_Type :: TaskType
  t_SegmentIndex :: int
  t_ProcessingMode :: TaskProcessingMode
  t_AssignedWorkerID :: string
  t_AssignedWorkerAddress :: string
  t_Status :: TaskStatus
  t_RequiredDiskBytes :: int
  t_Checksum :: string
  t_FrameCount :: int
  t_DurationMS :: int
  t_OutputSizeBytes :: int
  t_FailureReason :: string
  t_Retryable :: bool
  t_CreatedAt :: int
  t_UpdatedAt :: int
  t_AcceptedAt :: "int option"
  t_CompletedAt :: "int option"
  t_FailedAt :: "int option"

record Worker =
  w_ID :: string
  w_Address :: string
  w_TotalSlots :: int
  w_SupportedTasks :: "TaskType list"
  w_ReportedTotalSlots :: int
  w_DiskTotalBytes :: int
  w_DiskFreeBytes :: int
  w_FreeSlots :: int
  w_Online :: bool
  w_RunningProcessSegment :: int
  w_RunningAssembleGIF :: int
  w_RunningTasks :: "RunningTask list"
  w_Metrics :: "(TaskType \<times> TaskRunMetric) list"
  w_ReservedSlots :: int
  w_ReservedDiskBytes :: int
  w_RegisteredAt :: int
  w_LastHeartbeatAt :: int
  w_UpdatedAt :: int

fun Supports_loop :: "TaskType list \<Rightarrow> TaskType \<Rightarrow> bool" where
  "Supports_loop [] taskType = False"
| "Supports_loop (supported # rest) taskType =
     (if supported = taskType then True else Supports_loop rest taskType)"

definition Supports :: "Worker \<Rightarrow> TaskType \<Rightarrow> bool" where
  "Supports w taskType = Supports_loop (w_SupportedTasks w) taskType"

lemma Supports_iff [simp]: "Supports w t \<longleftrightarrow> t \<in> set (w_SupportedTasks w)"
proof -
  have "Supports_loop ts t \<longleftrightarrow> t \<in> set ts" for ts by (induction ts) auto
  then show ?thesis by (simp add: Supports_def)
qed

datatype ServiceError =
    ErrInsufficientResources | ErrTaskNotFound | ErrTaskWorkerMismatch | ErrTaskInvalidState
  | ErrInvalidWorkerAddress | ErrInvalidWorkerTask | ErrWorkerNotFound
  | ErrRand | ErrText string | PanicNil

end
