(* ===== verification/Worker_Registry.thy ===== *)
theory Worker_Registry
  imports Entry_Model
begin

text \<open>
  \<open>entry-server/internal/service/worker_registry.go\<close>. Every method of the registry runs under
  its lock, so each is one function from the registry to its result and the new registry. A
  \<open>range\<close> over the map \<open>byID\<close> takes the iteration order as an argument (\<open>ord\<close>: Go picks one
  at random); the clock reading (\<open>now\<close>) and the random draws are arguments too. A method that
  returns a pointer or a clone of a worker returns the worker's record.
\<close>

record WorkerRegistry =
  wr_byID :: "string \<rightharpoonup> Worker"
  wr_idByAddr :: "string \<rightharpoonup> string"
  wr_addrByID :: "string \<rightharpoonup> string"
  wr_backpressure :: BackpressureStatus

definition backpressureBusyThresholdMultiplier :: int where
  "backpressureBusyThresholdMultiplier = 3"

definition NewWorkerRegistry :: WorkerRegistry where
  "NewWorkerRegistry =
     \<lparr>wr_byID = Map.empty, wr_idByAddr = Map.empty, wr_addrByID = Map.empty,
      wr_backpressure =
        \<lparr>bp_Active = False, bp_Reason = [],
         bp_BusyThresholdMultiplier = backpressureBusyThresholdMultiplier,
         bp_ObservedWorkerCount = 0\<rparr>\<rparr>"

definition calculateFreeSlots :: "int \<Rightarrow> int \<Rightarrow> int" where
  "calculateFreeSlots totalSlots reservedSlots = sub64 totalSlots reservedSlots"

definition set_worker :: "WorkerRegistry \<Rightarrow> string \<Rightarrow> Worker \<Rightarrow> WorkerRegistry" where
  "set_worker r k w = r\<lparr>wr_byID := (wr_byID r)(k \<mapsto> w)\<rparr>"

text \<open>\<open>worker, ok := r.byID[k]; if ok { *worker = f(*worker) }\<close>.\<close>

definition with_worker :: "string \<Rightarrow> (Worker \<Rightarrow> Worker) \<Rightarrow> WorkerRegistry \<Rightarrow> WorkerRegistry" where
  "with_worker k f r = (case wr_byID r k of None \<Rightarrow> r | Some worker \<Rightarrow> set_worker r k (f worker))"

subsection \<open>Registration\<close>

fun validate_tasks :: "TaskType list \<Rightarrow> ServiceError option" where
  "validate_tasks [] = None"
| "validate_tasks (t # ts) = (if \<not> IsSupportedTaskType t then Some ErrInvalidWorkerTask else validate_tasks ts)"

definition validateRegisterWorkerRequest :: "RegisterWorkerRequest \<Rightarrow> ServiceError option" where
  "validateRegisterWorkerRequest req =
     (case SplitHostPort (rwr_Address req) of
        None \<Rightarrow> Some ErrInvalidWorkerAddress
      | Some _ \<Rightarrow> validate_tasks (rwr_SupportedTasks req))"

definition validateHeartbeatWorkerRequest :: "HeartbeatWorkerRequest \<Rightarrow> ServiceError option" where
  "validateHeartbeatWorkerRequest req =
     (case validate_tasks (map fst (hwr_Metrics req)) of
        Some e \<Rightarrow> Some e
      | None \<Rightarrow> validate_tasks (map rt_TaskType (hwr_RunningTasks req)))"

text \<open>The loop draws until an unused identifier comes. \<open>None\<close>: the draws given ran out
  before the loop returned.\<close>

fun nextWorkerIDLocked :: "WorkerRegistry \<Rightarrow> draw list \<Rightarrow> (ServiceError + string) option" where
  "nextWorkerIDLocked r [] = None"
| "nextWorkerIDLocked r (None # ds) = Some (Inl ErrRand)"
| "nextWorkerIDLocked r (Some buf # ds) =
     (let k = ''wrk_'' @ EncodeToString buf
      in if wr_byID r k = None then Some (Inr k) else nextWorkerIDLocked r ds)"

definition RegisterWorker ::
  "RegisterWorkerRequest \<Rightarrow> int \<Rightarrow> draw list \<Rightarrow> WorkerRegistry
     \<Rightarrow> ((ServiceError + Worker \<times> bool) \<times> WorkerRegistry) option" where
  "RegisterWorker req now draws r =
     (case validateRegisterWorkerRequest req of
        Some e \<Rightarrow> Some (Inl e, r)
      | None \<Rightarrow>
          (case wr_idByAddr r (rwr_Address req) of
             Some k \<Rightarrow>
               (case wr_byID r k of
                  None \<Rightarrow> Some (Inl PanicNil, r)
                | Some worker \<Rightarrow>
                    let worker' = worker
                      \<lparr>w_TotalSlots := rwr_TotalSlots req,
                       w_SupportedTasks := rwr_SupportedTasks req,
                       w_DiskTotalBytes := rwr_DiskTotalBytes req,
                       w_DiskFreeBytes := rwr_DiskFreeBytes req,
                       w_FreeSlots := calculateFreeSlots (rwr_TotalSlots req) (w_ReservedSlots worker),
                       w_Online := True,
                       w_LastHeartbeatAt := now,
                       w_UpdatedAt := now\<rparr>
                    in Some (Inr (worker', True), set_worker r k worker'))
           | None \<Rightarrow>
               (case nextWorkerIDLocked r draws of
                  None \<Rightarrow> None
                | Some (Inl e) \<Rightarrow> Some (Inl e, r)
                | Some (Inr k) \<Rightarrow>
                    let worker =
                      \<lparr>w_ID = k,
                       w_Address = rwr_Address req,
                       w_TotalSlots = rwr_TotalSlots req,
                       w_SupportedTasks = rwr_SupportedTasks req,
                       w_ReportedTotalSlots = rwr_TotalSlots req,
                       w_DiskTotalBytes = rwr_DiskTotalBytes req,
                       w_DiskFreeBytes = rwr_DiskFreeBytes req,
                       w_FreeSlots = rwr_TotalSlots req,
                       w_Online = True,
                       w_RunningProcessSegment = 0,
                       w_RunningAssembleGIF = 0,
                       w_RunningTasks = [],
                       w_Metrics = [],
                       w_ReservedSlots = 0,
                       w_ReservedDiskBytes = 0,
                       w_RegisteredAt = now,
                       w_LastHeartbeatAt = now,
                       w_UpdatedAt = now\<rparr>
                    in Some (Inr (worker, False),
                         r\<lparr>wr_byID := (wr_byID r)(k \<mapsto> worker),
                           wr_idByAddr := (wr_idByAddr r)(rwr_Address req \<mapsto> k),
                           wr_addrByID := (wr_addrByID r)(k \<mapsto> rwr_Address req)\<rparr>))))"

subsection \<open>Heartbeat, expiry, backpressure\<close>

definition HeartbeatWorker ::
  "HeartbeatWorkerRequest \<Rightarrow> int \<Rightarrow> WorkerRegistry \<Rightarrow> ServiceError option \<times> WorkerRegistry" where
  "HeartbeatWorker req now r =
     (case validateHeartbeatWorkerRequest req of
        Some e \<Rightarrow> (Some e, r)
      | None \<Rightarrow>
          (case wr_byID r (hwr_WorkerID req) of
             None \<Rightarrow> (Some ErrWorkerNotFound, r)
           | Some worker \<Rightarrow>
               (None, set_worker r (hwr_WorkerID req)
                  (worker\<lparr>w_ReportedTotalSlots := hwr_TotalSlots req,
                          w_RunningProcessSegment := hwr_RunningProcessSegment req,
                          w_RunningAssembleGIF := hwr_RunningAssembleGIF req,
                          w_RunningTasks := hwr_RunningTasks req,
                          w_FreeSlots := calculateFreeSlots (w_TotalSlots worker) (w_ReservedSlots worker),
                          w_DiskTotalBytes := hwr_DiskTotalBytes req,
                          w_DiskFreeBytes := hwr_DiskFreeBytes req,
                          w_Metrics := hwr_Metrics req,
                          w_Online := True,
                          w_LastHeartbeatAt := now,
                          w_UpdatedAt := now\<rparr>))))"

definition worker_expired :: "int \<Rightarrow> int \<Rightarrow> Worker \<Rightarrow> bool" where
  "worker_expired now timeout w \<longleftrightarrow> w_Online w \<and> timeout < time_sub now (w_LastHeartbeatAt w)"

fun mark_expired_loop :: "int \<Rightarrow> int \<Rightarrow> string list \<Rightarrow> int \<times> WorkerRegistry \<Rightarrow> int \<times> WorkerRegistry" where
  "mark_expired_loop now timeout [] acc = acc"
| "mark_expired_loop now timeout (k # ks) (expired, r) =
     (case wr_byID r k of
        None \<Rightarrow> mark_expired_loop now timeout ks (expired, r)
      | Some worker \<Rightarrow>
          if worker_expired now timeout worker
          then mark_expired_loop now timeout ks
                 (add64 expired 1,
                  set_worker r k (worker\<lparr>w_Online := False, w_FreeSlots := 0, w_UpdatedAt := now\<rparr>))
          else mark_expired_loop now timeout ks (expired, r))"

definition MarkExpiredWorkers :: "int \<Rightarrow> string list \<Rightarrow> int \<Rightarrow> WorkerRegistry \<Rightarrow> int \<times> WorkerRegistry" where
  "MarkExpiredWorkers timeout ord now r = mark_expired_loop now timeout ord (0, r)"

definition worker_threshold :: "Worker \<Rightarrow> int" where
  "worker_threshold w = mul64 (w_TotalSlots w) backpressureBusyThresholdMultiplier"

fun backpressure_loop :: "Worker list \<Rightarrow> int \<times> bool \<Rightarrow> int \<times> bool" where
  "backpressure_loop [] acc = acc"
| "backpressure_loop (worker # ws) (observed, allOverThreshold) =
     (if \<not> w_Online worker then backpressure_loop ws (observed, allOverThreshold)
      else if worker_threshold worker \<le> 0 \<or> w_ReservedSlots worker < worker_threshold worker
      then backpressure_loop ws (add64 observed 1, False)
      else backpressure_loop ws (add64 observed 1, allOverThreshold))"

definition RefreshBackpressureStatus ::
  "string list \<Rightarrow> WorkerRegistry \<Rightarrow> BackpressureStatus \<times> WorkerRegistry" where
  "RefreshBackpressureStatus ord r =
     (let (observed, allOver) = backpressure_loop (List.map_filter (wr_byID r) ord) (0, True);
          active = (0 < observed \<and> allOver);
          status = \<lparr>bp_Active = active,
                    bp_Reason = (if active then ''all_workers_over_busy_threshold'' else []),
                    bp_BusyThresholdMultiplier = backpressureBusyThresholdMultiplier,
                    bp_ObservedWorkerCount = observed\<rparr>
      in (status, r\<lparr>wr_backpressure := status\<rparr>))"

definition GetBackpressureStatus :: "WorkerRegistry \<Rightarrow> BackpressureStatus" where
  "GetBackpressureStatus r = wr_backpressure r"

definition GetWorker :: "string \<Rightarrow> WorkerRegistry \<Rightarrow> Worker option" where
  "GetWorker k r = wr_byID r k"

subsection \<open>Selection and reservation\<close>

definition pick_best_step :: "TaskType \<Rightarrow> Worker \<Rightarrow> Worker option \<Rightarrow> Worker option" where
  "pick_best_step taskType worker best =
     (if \<not> w_Online worker \<or> \<not> Supports worker taskType then best
      else case best of
             None \<Rightarrow> Some worker
           | Some b \<Rightarrow> if w_FreeSlots b < w_FreeSlots worker then Some worker else best)"

definition PickBestWorker :: "TaskType \<Rightarrow> string list \<Rightarrow> WorkerRegistry \<Rightarrow> Worker option" where
  "PickBestWorker taskType ord r =
     fold (pick_best_step taskType) (List.map_filter (wr_byID r) ord) None"

text \<open>The three writes of a reservation and the one of a release, shared by the methods.\<close>

definition reserve_slots :: "int \<Rightarrow> int \<Rightarrow> Worker \<Rightarrow> Worker" where
  "reserve_slots count now w =
     w\<lparr>w_ReservedSlots := add64 (w_ReservedSlots w) count,
       w_FreeSlots := calculateFreeSlots (w_TotalSlots w) (add64 (w_ReservedSlots w) count),
       w_UpdatedAt := now\<rparr>"

definition pick_free_step :: "TaskType \<Rightarrow> Worker \<Rightarrow> Worker option \<Rightarrow> Worker option" where
  "pick_free_step taskType worker best =
     (if \<not> w_Online worker \<or> w_FreeSlots worker \<le> 0 \<or> \<not> Supports worker taskType then best
      else case best of
             None \<Rightarrow> Some worker
           | Some b \<Rightarrow> if w_FreeSlots b < w_FreeSlots worker then Some worker else best)"

definition unreserve_slot :: "Worker \<Rightarrow> Worker" where
  "unreserve_slot w =
     w\<lparr>w_ReservedSlots := sub64 (w_ReservedSlots w) 1,
       w_FreeSlots := calculateFreeSlots (w_TotalSlots w) (sub64 (w_ReservedSlots w) 1)\<rparr>"

fun rollback_selected :: "string list \<Rightarrow> WorkerRegistry \<Rightarrow> WorkerRegistry" where
  "rollback_selected [] r = r"
| "rollback_selected (k # ks) r = rollback_selected ks (with_worker k unreserve_slot r)"

definition cloneWorkers :: "string list \<Rightarrow> WorkerRegistry \<Rightarrow> Worker list" where
  "cloneWorkers ks r = List.map_filter (wr_byID r) ks"

text \<open>The loop of \<open>PickWorkersForReservation\<close>: \<open>n\<close> workers are still to be selected; the
  iteration order and the clock are those of the pass that selects the next one.\<close>

fun pick_workers_loop ::
  "TaskType \<Rightarrow> nat \<Rightarrow> (nat \<Rightarrow> string list) \<Rightarrow> (nat \<Rightarrow> int) \<Rightarrow> string list \<Rightarrow> WorkerRegistry
     \<Rightarrow> (Worker list \<times> bool) \<times> WorkerRegistry" where
  "pick_workers_loop taskType 0 ord clock selected r = ((cloneWorkers selected r, True), r)"
| "pick_workers_loop taskType (Suc n) ord clock selected r =
     (case fold (pick_free_step taskType) (List.map_filter (wr_byID r) (ord n)) None of
        None \<Rightarrow>
          let r' = rollback_selected selected r in ((cloneWorkers selected r', False), r')
      | Some best \<Rightarrow>
          pick_workers_loop taskType n ord clock (selected @ [w_ID best])
            (set_worker r (w_ID best) (reserve_slots 1 (clock n) best)))"

definition PickWorkersForReservation ::
  "TaskType \<Rightarrow> int \<Rightarrow> (nat \<Rightarrow> string list) \<Rightarrow> (nat \<Rightarrow> int) \<Rightarrow> WorkerRegistry
     \<Rightarrow> (Worker list \<times> bool) \<times> WorkerRegistry" where
  "PickWorkersForReservation taskType count ord clock r =
     (if count \<le> 0 then (([], True), r)
      else pick_workers_loop taskType (nat count) ord clock [] r)"

definition ReserveWorkerSlots ::
  "string \<Rightarrow> TaskType \<Rightarrow> int \<Rightarrow> int \<Rightarrow> WorkerRegistry \<Rightarrow> (Worker list \<times> bool) \<times> WorkerRegistry" where
  "ReserveWorkerSlots workerID taskType count now r =
     (if count \<le> 0 then (([], True), r)
      else
        case wr_byID r workerID of
          None \<Rightarrow> (([], False), r)
        | Some worker \<Rightarrow>
            if \<not> w_Online worker \<or> \<not> Supports worker taskType then (([], False), r)
            else
              let worker' = reserve_slots count now worker
              in ((replicate (nat count) worker', True), set_worker r workerID worker'))"

definition least_busy_step :: "TaskType \<Rightarrow> string \<Rightarrow> Worker \<Rightarrow> Worker option \<Rightarrow> Worker option" where
  "least_busy_step taskType fallbackWorkerID worker best =
     (if \<not> w_Online worker \<or> \<not> Supports worker taskType then best
      else if w_ID worker = fallbackWorkerID \<and> best \<noteq> None then best
      else case best of
             None \<Rightarrow> Some worker
           | Some b \<Rightarrow>
               if (w_ID b = fallbackWorkerID \<and> w_ID worker \<noteq> fallbackWorkerID)
                 \<or> w_ReservedSlots worker < w_ReservedSlots b
                 \<or> (w_ReservedSlots worker = w_ReservedSlots b \<and> w_ID worker < w_ID b)
               then Some worker else best)"

definition select_least_busy :: "TaskType \<Rightarrow> string \<Rightarrow> string list \<Rightarrow> WorkerRegistry \<Rightarrow> Worker option" where
  "select_least_busy taskType fallbackWorkerID ord r =
     (case fold (least_busy_step taskType fallbackWorkerID) (List.map_filter (wr_byID r) ord) None of
        Some b \<Rightarrow> Some b
      | None \<Rightarrow>
          if fallbackWorkerID \<noteq> [] then
            (case wr_byID r fallbackWorkerID of
               None \<Rightarrow> None
             | Some worker \<Rightarrow> if w_Online worker \<and> Supports worker taskType then Some worker else None)
          else None)"

definition ReserveLeastBusyWorker ::
  "TaskType \<Rightarrow> string \<Rightarrow> string list \<Rightarrow> int \<Rightarrow> WorkerRegistry \<Rightarrow> Worker option \<times> WorkerRegistry" where
  "ReserveLeastBusyWorker taskType fallbackWorkerID ord now r =
     (case select_least_busy taskType fallbackWorkerID ord r of
        None \<Rightarrow> (None, r)
      | Some best \<Rightarrow>
          let best' = reserve_slots 1 now best
          in (Some best', set_worker r (w_ID best) best'))"

definition schedulableDisk :: "Worker \<Rightarrow> int" where
  "schedulableDisk w = sub64 (w_DiskFreeBytes w) (w_ReservedDiskBytes w)"

text \<open>The loop keeps \<open>best\<close> and, beside it, \<open>bestSchedulableDisk\<close>, which is always the
  schedulable disk of \<open>best\<close>.\<close>

definition pick_disk_step :: "TaskType \<Rightarrow> int \<Rightarrow> Worker \<Rightarrow> Worker option \<Rightarrow> Worker option" where
  "pick_disk_step taskType requiredDiskBytes worker best =
     (if \<not> w_Online worker \<or> \<not> Supports worker taskType then best
      else if schedulableDisk worker < requiredDiskBytes then best
      else case best of
             None \<Rightarrow> Some worker
           | Some b \<Rightarrow>
               if w_ReservedSlots worker < w_ReservedSlots b
                 \<or> (w_ReservedSlots worker = w_ReservedSlots b
                     \<and> schedulableDisk b < schedulableDisk worker)
                 \<or> (w_ReservedSlots worker = w_ReservedSlots b
                     \<and> schedulableDisk worker = schedulableDisk b \<and> w_ID worker < w_ID b)
               then Some worker else best)"

definition reserve_disk :: "int \<Rightarrow> int \<Rightarrow> Worker \<Rightarrow> Worker" where
  "reserve_disk requiredDiskBytes now w =
     w\<lparr>w_ReservedSlots := add64 (w_ReservedSlots w) 1,
       w_ReservedDiskBytes := add64 (w_ReservedDiskBytes w) requiredDiskBytes,
       w_FreeSlots := calculateFreeSlots (w_TotalSlots w) (add64 (w_ReservedSlots w) 1),
       w_UpdatedAt := now\<rparr>"

definition PickWorkerForDiskReservation ::
  "TaskType \<Rightarrow> int \<Rightarrow> string list \<Rightarrow> int \<Rightarrow> WorkerRegistry \<Rightarrow> Worker option \<times> WorkerRegistry" where
  "PickWorkerForDiskReservation taskType requiredDiskBytes ord now r =
     (case fold (pick_disk_step taskType requiredDiskBytes) (List.map_filter (wr_byID r) ord) None of
        None \<Rightarrow> (None, r)
      | Some best \<Rightarrow>
          let best' = reserve_disk requiredDiskBytes now best
          in (Some best', set_worker r (w_ID best) best'))"

definition release_worker :: "int \<Rightarrow> Worker \<Rightarrow> Worker" where
  "release_worker now w =
     (let n = (if 0 < w_ReservedSlots w then sub64 (w_ReservedSlots w) 1 else w_ReservedSlots w)
      in w\<lparr>w_ReservedSlots := n, w_FreeSlots := calculateFreeSlots (w_TotalSlots w) n,
           w_UpdatedAt := now\<rparr>)"

fun ReleaseReservations :: "string list \<Rightarrow> int \<Rightarrow> WorkerRegistry \<Rightarrow> WorkerRegistry" where
  "ReleaseReservations [] now r = r"
| "ReleaseReservations (workerID # rest) now r =
     ReleaseReservations rest now (with_worker workerID (release_worker now) r)"

definition release_disk :: "int \<Rightarrow> Worker \<Rightarrow> Worker" where
  "release_disk diskBytes w =
     (if 0 < diskBytes then
        let d = sub64 (w_ReservedDiskBytes w) diskBytes
        in w\<lparr>w_ReservedDiskBytes := (if d < 0 then 0 else d)\<rparr>
      else w)"

definition ReleaseReservation :: "string \<Rightarrow> int \<Rightarrow> int \<Rightarrow> WorkerRegistry \<Rightarrow> WorkerRegistry" where
  "ReleaseReservation workerID diskBytes now r =
     with_worker workerID (\<lambda>worker. release_worker now (release_disk diskBytes worker)) r"

definition UpdateWorkerObservedDiskFree :: "string \<Rightarrow> int \<Rightarrow> int \<Rightarrow> WorkerRegistry \<Rightarrow> WorkerRegistry" where
  "UpdateWorkerObservedDiskFree workerID diskFreeBytes now r =
     with_worker workerID (\<lambda>worker. worker\<lparr>w_DiskFreeBytes := diskFreeBytes, w_UpdatedAt := now\<rparr>) r"

definition NormalizeAddress :: "string \<Rightarrow> int \<Rightarrow> string" where
  "NormalizeAddress host port = JoinHostPort host (Itoa port)"

end
