(* ===== verification/Job_Manager.thy ===== *)
theory Job_Manager
  imports Worker_Registry
begin

text \<open>
  \<open>entry-server/internal/service/job_manager.go\<close>: job creation and the segment reports. The
  manager's lock is not held across its calls to the registry, so every operation is written as
  its critical sections (functions on \<open>JobManager\<close> alone, one per lock region) and a
  composition of them with the registry's methods on \<open>Entry\<close>, both together. What a step takes from
  outside (map iteration order, clock, random draw) is an \<open>Env\<close>; an operation with several
  such steps takes a sequence of them.
\<close>

record JobManager =
  jm_jobs :: "string \<rightharpoonup> Job"
  jm_tasks :: "string \<rightharpoonup> Task"
  jm_jobIDByIdentity :: "string \<rightharpoonup> string"

record Entry =
  en_workers :: WorkerRegistry
  en_manager :: JobManager

record Env =
  ev_ord :: "string list"
  ev_now :: int
  ev_draw :: draw

record CreateJobResult =
  cr_JobID :: string
  cr_RequiredSlots :: int
  cr_AvailableSlots :: int
  cr_Assignments :: "TaskAssignment list"
  cr_AlreadyExists :: bool
  cr_JobStatus :: JobStatus

definition zero_CreateJobResult :: CreateJobResult where
  "zero_CreateJobResult =
     \<lparr>cr_JobID = [], cr_RequiredSlots = 0, cr_AvailableSlots = 0, cr_Assignments = [],
      cr_AlreadyExists = False, cr_JobStatus = JobStatusOther []\<rparr>"

definition NewJobManager :: JobManager where
  "NewJobManager =
     \<lparr>jm_jobs = Map.empty, jm_tasks = Map.empty, jm_jobIDByIdentity = Map.empty\<rparr>"

text \<open>A write through the pointer stored in a map.\<close>

definition set_job :: "string \<Rightarrow> Job \<Rightarrow> JobManager \<Rightarrow> JobManager" where
  "set_job k j m = m\<lparr>jm_jobs := (jm_jobs m)(k \<mapsto> j)\<rparr>"

definition set_task :: "string \<Rightarrow> Task \<Rightarrow> JobManager \<Rightarrow> JobManager" where
  "set_task k t m = m\<lparr>jm_tasks := (jm_tasks m)(k \<mapsto> t)\<rparr>"

subsection \<open>Helpers\<close>

definition resultURI :: "string \<Rightarrow> string \<Rightarrow> string" where
  "resultURI address resultName = ''http://'' @ address @ ''/results/'' @ resultName"

definition jobIdentityKey :: "string \<Rightarrow> string \<Rightarrow> string" where
  "jobIdentityKey sourceWorkerAddress videoName = sourceWorkerAddress @ [CHR 0x00] @ videoName"

definition nextID :: "string \<Rightarrow> draw \<Rightarrow> ServiceError + string" where
  "nextID prefix d =
     (case d of None \<Rightarrow> Inl ErrRand | Some buf \<Rightarrow> Inr (prefix @ EncodeToString buf))"

definition estimateAssembleDiskBytes :: "int \<Rightarrow> int \<Rightarrow> bool \<Rightarrow> int" where
  "estimateAssembleDiskBytes totalSizeBytes totalOutputSize allOutputSizesKnown =
     (let base = (if allOutputSizesKnown \<and> 0 < totalOutputSize then mul64 totalOutputSize 2
                  else totalSizeBytes);
          base' = (if base < 1 then 1 else base)
      in quot64 (mul64 base' 12) 10)"

subsection \<open>The task plan\<close>

fun plan_modes_known :: "CreateJobTaskRequest list \<Rightarrow> bool" where
  "plan_modes_known [] = True"
| "plan_modes_known (taskReq # rest) =
     (if cjt_Mode taskReq \<noteq> TaskProcessingModeInternal \<and> cjt_Mode taskReq \<noteq> TaskProcessingModeExternal
      then False else plan_modes_known rest)"

fun plan_loop :: "nat \<Rightarrow> int \<Rightarrow> TaskProcessingMode \<Rightarrow> CreateJobTaskRequest list" where
  "plan_loop 0 segmentIndex mode = []"
| "plan_loop (Suc n) segmentIndex mode =
     \<lparr>cjt_SegmentIndex = segmentIndex, cjt_Mode = mode\<rparr> # plan_loop n (segmentIndex + 1) mode"

definition createJobTaskPlan :: "CreateJobRequest \<Rightarrow> ServiceError + CreateJobTaskRequest list" where
  "createJobTaskPlan req =
     (if 0 < length (cjr_Tasks req) then
        (if plan_modes_known (cjr_Tasks req) then Inr (cjr_Tasks req) else Inl ErrTaskInvalidState)
      else if cjr_SegmentCount req \<le> 0 then Inl ErrTaskInvalidState
      else if cjr_Mode req \<noteq> JobModeInternal \<and> cjr_Mode req \<noteq> JobModeExternal
      then Inl ErrTaskInvalidState
      else Inr (plan_loop (nat (cjr_SegmentCount req)) 0 (cjr_Mode req)))"

fun jobModeFromTaskPlan :: "CreateJobTaskRequest list \<Rightarrow> JobMode" where
  "jobModeFromTaskPlan [] = JobModeInternal"
| "jobModeFromTaskPlan (taskReq # rest) =
     (if cjt_Mode taskReq = TaskProcessingModeExternal then JobModeExternal
      else jobModeFromTaskPlan rest)"

subsection \<open>Creating a job\<close>

definition assignSegmentWorker ::
  "string \<Rightarrow> Env \<Rightarrow> TaskProcessingMode \<Rightarrow> WorkerRegistry \<Rightarrow> Worker option \<times> WorkerRegistry" where
  "assignSegmentWorker sourceID ev mode r =
     (case mode of
        TaskProcessingModeInternal \<Rightarrow>
          (case ReserveWorkerSlots sourceID TaskTypeProcessSegment 1 (ev_now ev) r of
             ((selected, ok), r') \<Rightarrow>
               if \<not> ok then (None, r')
               else case selected of [] \<Rightarrow> (None, r') | w # _ \<Rightarrow> (Some w, r'))
      | TaskProcessingModeExternal \<Rightarrow>
          ReserveLeastBusyWorker TaskTypeProcessSegment sourceID (ev_ord ev) (ev_now ev) r
      | TaskProcessingModeOther _ \<Rightarrow> (None, r))"

text \<open>The locals the task loop fills: \<open>reservedWorkerIDs\<close>, \<open>tasks\<close> and \<open>assignments\<close>
  (\<open>taskIDs\<close> is the identifiers of \<open>tasks\<close>).\<close>

record TaskBatch =
  tb_reserved :: "string list"
  tb_tasks :: "Task list"
  tb_assignments :: "TaskAssignment list"

definition zero_TaskBatch :: TaskBatch where
  "zero_TaskBatch = \<lparr>tb_reserved = [], tb_tasks = [], tb_assignments = []\<rparr>"

definition new_segment_task ::
  "string \<Rightarrow> string \<Rightarrow> CreateJobTaskRequest \<Rightarrow> Worker \<Rightarrow> int \<Rightarrow> Task" where
  "new_segment_task taskID jobID taskReq worker now =
     \<lparr>t_ID = taskID, t_JobID = jobID, t_Type = TaskTypeProcessSegment,
      t_SegmentIndex = cjt_SegmentIndex taskReq, t_ProcessingMode = cjt_Mode taskReq,
      t_AssignedWorkerID = w_ID worker, t_AssignedWorkerAddress = w_Address worker,
      t_Status = TaskStatusAssigned, t_RequiredDiskBytes = 0, t_Checksum = [], t_FrameCount = 0,
      t_DurationMS = 0, t_OutputSizeBytes = 0, t_FailureReason = [], t_Retryable = False,
      t_CreatedAt = now, t_UpdatedAt = now, t_AcceptedAt = None, t_CompletedAt = None,
      t_FailedAt = None\<rparr>"

definition new_assignment :: "string \<Rightarrow> CreateJobTaskRequest \<Rightarrow> Worker \<Rightarrow> TaskAssignment" where
  "new_assignment taskID taskReq worker =
     \<lparr>ta_SegmentIndex = cjt_SegmentIndex taskReq, ta_TaskID = taskID, ta_WorkerID = w_ID worker,
      ta_Address = (if cjt_Mode taskReq = TaskProcessingModeInternal then [] else w_Address worker),
      ta_Mode = cjt_Mode taskReq\<rparr>"

text \<open>The loop over the plan. The registry is used through the two calls the loop makes,
  \<open>assign\<close> and \<open>release\<close>; \<open>required\<close> is the length of the whole plan.\<close>

fun create_tasks ::
  "(Env \<Rightarrow> TaskProcessingMode \<Rightarrow> 'r \<Rightarrow> Worker option \<times> 'r) \<Rightarrow> (string list \<Rightarrow> int \<Rightarrow> 'r \<Rightarrow> 'r)
     \<Rightarrow> string \<Rightarrow> int \<Rightarrow> int \<Rightarrow> (nat \<Rightarrow> Env) \<Rightarrow> CreateJobTaskRequest list \<Rightarrow> TaskBatch \<Rightarrow> 'r
     \<Rightarrow> (CreateJobResult \<times> ServiceError + TaskBatch) \<times> 'r" where
  "create_tasks assign release jobID now required env [] b r = (Inr b, r)"
| "create_tasks assign release jobID now required env (taskReq # rest) b r =
     (case assign (env 0) (cjt_Mode taskReq) r of
        (None, r') \<Rightarrow>
          (Inl (zero_CreateJobResult
                  \<lparr>cr_RequiredSlots := required,
                   cr_AvailableSlots := int (length (tb_assignments b)),
                   cr_Assignments := tb_assignments b\<rparr>,
                ErrInsufficientResources),
           release (tb_reserved b) (ev_now (env 0)) r')
      | (Some worker, r') \<Rightarrow>
          (case nextID ''task_'' (ev_draw (env 0)) of
             Inl e \<Rightarrow>
               (Inl (zero_CreateJobResult, e),
                release (tb_reserved b @ [w_ID worker]) (ev_now (env 0)) r')
           | Inr taskID \<Rightarrow>
               create_tasks assign release jobID now required (\<lambda>n. env (Suc n)) rest
                 \<lparr>tb_reserved = tb_reserved b @ [w_ID worker],
                  tb_tasks = tb_tasks b @ [new_segment_task taskID jobID taskReq worker now],
                  tb_assignments = tb_assignments b @ [new_assignment taskID taskReq worker]\<rparr>
                 r'))"

definition new_job ::
  "string \<Rightarrow> CreateJobRequest \<Rightarrow> Worker \<Rightarrow> string \<Rightarrow> CreateJobTaskRequest list \<Rightarrow> Task list \<Rightarrow> int \<Rightarrow> Job"
where
  "new_job jobID req sourceWorker identityKey taskPlan tasks now =
     \<lparr>j_ID = jobID, j_SourceWorkerID = cjr_WorkerID req, j_SourceWorkerAddress = w_Address sourceWorker,
      j_VideoName = cjr_VideoName req, j_SegmentCount = int (length taskPlan),
      j_TotalSizeBytes = cjr_TotalSizeBytes req, j_Mode = jobModeFromTaskPlan taskPlan,
      j_IdentityKey = identityKey, j_Status = JobStatusSegmentAssigned, j_TaskIDs = map t_ID tasks,
      j_ResultWorkerID = [], j_ResultWorkerAddress = [], j_ResultName = [], j_ResultURI = [],
      j_Checksum = [], j_DurationMS = 0, j_OutputSizeBytes = 0, j_FailureReason = [],
      j_Retryable = False, j_CreatedAt = now, j_UpdatedAt = now, j_CompletedAt = None,
      j_FailedAt = None\<rparr>"

fun add_tasks :: "Task list \<Rightarrow> (string \<rightharpoonup> Task) \<Rightarrow> (string \<rightharpoonup> Task)" where
  "add_tasks [] ts = ts"
| "add_tasks (task # rest) ts = add_tasks rest (ts(t_ID task \<mapsto> task))"

text \<open>The critical section that stores the job: \<open>Some\<close> the job found under the identity
  (\<open>Some None\<close> a dangling index entry), \<open>None\<close> when the new job was stored.\<close>

definition commit_job :: "string \<Rightarrow> Job \<Rightarrow> Task list \<Rightarrow> JobManager \<Rightarrow> Job option option \<times> JobManager" where
  "commit_job identityKey job tasks m =
     (case jm_jobIDByIdentity m identityKey of
        Some existingJobID \<Rightarrow> (Some (jm_jobs m existingJobID), m)
      | None \<Rightarrow>
          (None, m\<lparr>jm_jobs := (jm_jobs m)(j_ID job \<mapsto> job),
                  jm_jobIDByIdentity := (jm_jobIDByIdentity m)(identityKey \<mapsto> j_ID job),
                  jm_tasks := add_tasks tasks (jm_tasks m)\<rparr>))"

definition already_exists :: "int \<Rightarrow> Job \<Rightarrow> CreateJobResult" where
  "already_exists required existing =
     zero_CreateJobResult
       \<lparr>cr_JobID := j_ID existing, cr_RequiredSlots := required, cr_AlreadyExists := True,
        cr_JobStatus := j_Status existing\<rparr>"

definition created :: "Job \<Rightarrow> int \<Rightarrow> TaskBatch \<Rightarrow> CreateJobResult" where
  "created job required b =
     \<lparr>cr_JobID = j_ID job, cr_RequiredSlots = required,
      cr_AvailableSlots = int (length (tb_assignments b)), cr_Assignments = tb_assignments b,
      cr_AlreadyExists = False, cr_JobStatus = j_Status job\<rparr>"

definition createJobWithTaskPlan ::
  "CreateJobRequest \<Rightarrow> Worker \<Rightarrow> string \<Rightarrow> CreateJobTaskRequest list \<Rightarrow> (nat \<Rightarrow> Env) \<Rightarrow> Entry
     \<Rightarrow> (CreateJobResult \<times> ServiceError option) \<times> Entry" where
  "createJobWithTaskPlan req sourceWorker identityKey taskPlan env E =
     (let now = ev_now (env 0); required = int (length taskPlan) in
      case nextID ''job_'' (ev_draw (env 0)) of
        Inl e \<Rightarrow> ((zero_CreateJobResult, Some e), E)
      | Inr jobID \<Rightarrow>
          (case create_tasks (assignSegmentWorker (w_ID sourceWorker)) ReleaseReservations jobID now
                  required (\<lambda>n. env (Suc n)) taskPlan zero_TaskBatch (en_workers E) of
             (Inl (res, e), r) \<Rightarrow> ((res, Some e), E\<lparr>en_workers := r\<rparr>)
           | (Inr b, r) \<Rightarrow>
               let job = new_job jobID req sourceWorker identityKey taskPlan (tb_tasks b) now in
               (case commit_job identityKey job (tb_tasks b) (en_manager E) of
                  (Some existing, m) \<Rightarrow>
                    ((case existing of
                        None \<Rightarrow> (zero_CreateJobResult, Some PanicNil)
                      | Some existing \<Rightarrow> (already_exists required existing, None)),
                     \<lparr>en_workers = ReleaseReservations (tb_reserved b)
                        (ev_now (env (Suc (length taskPlan)))) r,
                      en_manager = m\<rparr>)
                | (None, m) \<Rightarrow>
                    ((created job required b, None), \<lparr>en_workers = r, en_manager = m\<rparr>))))"

definition findJobByIdentity :: "string \<Rightarrow> JobManager \<Rightarrow> Job option" where
  "findJobByIdentity identityKey m =
     (case jm_jobIDByIdentity m identityKey of None \<Rightarrow> None | Some jobID \<Rightarrow> jm_jobs m jobID)"

definition CreateJob ::
  "CreateJobRequest \<Rightarrow> (nat \<Rightarrow> Env) \<Rightarrow> Entry \<Rightarrow> (CreateJobResult \<times> ServiceError option) \<times> Entry" where
  "CreateJob req env E =
     (case createJobTaskPlan req of
        Inl _ \<Rightarrow> ((zero_CreateJobResult, Some ErrTaskInvalidState), E)
      | Inr taskPlan \<Rightarrow>
          (case GetWorker (cjr_WorkerID req) (en_workers E) of
             None \<Rightarrow> ((zero_CreateJobResult, Some ErrWorkerNotFound), E)
           | Some sourceWorker \<Rightarrow>
               let identityKey = jobIdentityKey (w_Address sourceWorker) (cjr_VideoName req) in
               (case findJobByIdentity identityKey (en_manager E) of
                  Some existing \<Rightarrow> ((already_exists (int (length taskPlan)) existing, None), E)
                | None \<Rightarrow> createJobWithTaskPlan req sourceWorker identityKey taskPlan env E)))"

subsection \<open>Queries\<close>

definition query_not_found :: QueryJobResultResponse where
  "query_not_found =
     \<lparr>qjr_Status = QueryJobResultStatusNotFound, qjr_JobID = [], qjr_JobStatus = JobStatusOther [],
      qjr_VideoName = [], qjr_Mode = TaskProcessingModeOther [], qjr_Result = None,
      qjr_Failure = None\<rparr>"

definition query_of_job :: "Job \<Rightarrow> QueryJobResultResponse" where
  "query_of_job job =
     \<lparr>qjr_Status = QueryJobResultStatusSuccess, qjr_JobID = j_ID job, qjr_JobStatus = j_Status job,
      qjr_VideoName = j_VideoName job, qjr_Mode = j_Mode job,
      qjr_Result =
        (if j_Status job = JobStatusCompleted then
           Some \<lparr>jri_WorkerID = j_ResultWorkerID job, jri_WorkerAddress = j_ResultWorkerAddress job,
                 jri_Name = j_ResultName job, jri_URI = j_ResultURI job,
                 jri_Checksum = j_Checksum job, jri_OutputSizeBytes = j_OutputSizeBytes job\<rparr>
         else None),
      qjr_Failure =
        (if j_Status job = JobStatusFailed then
           Some \<lparr>jfi_Reason = j_FailureReason job, jfi_Retryable = j_Retryable job\<rparr>
         else None)\<rparr>"

definition GetJobResultByIdentity ::
  "string \<Rightarrow> string \<Rightarrow> JobManager \<Rightarrow> QueryJobResultResponse \<times> bool" where
  "GetJobResultByIdentity address videoName m =
     (case jm_jobIDByIdentity m (jobIdentityKey address videoName) of
        None \<Rightarrow> (query_not_found, False)
      | Some jobID \<Rightarrow>
          (case jm_jobs m jobID of
             None \<Rightarrow> (query_not_found, False)
           | Some job \<Rightarrow> (query_of_job job, True)))"

subsection \<open>Segment reports\<close>

definition segmentTaskAndJobLocked :: "string \<Rightarrow> string \<Rightarrow> JobManager \<Rightarrow> ServiceError + Task \<times> Job" where
  "segmentTaskAndJobLocked taskID workerID m =
     (case jm_tasks m taskID of
        None \<Rightarrow> Inl ErrTaskNotFound
      | Some task \<Rightarrow>
          if t_Type task \<noteq> TaskTypeProcessSegment then Inl ErrTaskInvalidState
          else if t_AssignedWorkerID task \<noteq> workerID then Inl ErrTaskWorkerMismatch
          else
            (case jm_jobs m (t_JobID task) of
               None \<Rightarrow> Inl ErrTaskInvalidState
             | Some job \<Rightarrow> Inr (task, job)))"

fun segments_completed_loop :: "(string \<rightharpoonup> Task) \<Rightarrow> string list \<Rightarrow> bool" where
  "segments_completed_loop tasks [] = True"
| "segments_completed_loop tasks (taskID # rest) =
     (case tasks taskID of
        None \<Rightarrow> False
      | Some task \<Rightarrow>
          if t_Type task \<noteq> TaskTypeProcessSegment \<or> t_Status task \<noteq> TaskStatusCompleted then False
          else segments_completed_loop tasks rest)"

definition allSegmentTasksCompletedLocked :: "Job \<Rightarrow> JobManager \<Rightarrow> bool" where
  "allSegmentTasksCompletedLocked job m = segments_completed_loop (jm_tasks m) (j_TaskIDs job)"

definition AcceptSegmentTask ::
  "string \<Rightarrow> TaskAcceptedRequest \<Rightarrow> int \<Rightarrow> JobManager \<Rightarrow> ServiceError option \<times> JobManager" where
  "AcceptSegmentTask taskID req now m =
     (case segmentTaskAndJobLocked taskID (tar_WorkerID req) m of
        Inl e \<Rightarrow> (Some e, m)
      | Inr (task, job) \<Rightarrow>
          if t_Status task \<noteq> TaskStatusAssigned then (Some ErrTaskInvalidState, m)
          else
            (None,
             set_job (t_JobID task) (job\<lparr>j_Status := JobStatusSegmentRunning, j_UpdatedAt := now\<rparr>)
               (set_task taskID
                  (task\<lparr>t_Status := TaskStatusRunning, t_AcceptedAt := Some now, t_UpdatedAt := now\<rparr>) m)))"

text \<open>What the critical section of \<open>CompleteSegmentTask\<close> and of \<open>FailSegmentTask\<close> hands to the
  code after it: the worker to release, the job, and whether all segments are done.\<close>

record SegmentReport =
  sg_workerID :: string
  sg_jobID :: string
  sg_allCompleted :: bool

definition complete_segment_locked ::
  "string \<Rightarrow> TaskCompletedRequest \<Rightarrow> int \<Rightarrow> JobManager \<Rightarrow> (ServiceError + SegmentReport) \<times> JobManager" where
  "complete_segment_locked taskID req now m =
     (case segmentTaskAndJobLocked taskID (tcr_WorkerID req) m of
        Inl e \<Rightarrow> (Inl e, m)
      | Inr (task, job) \<Rightarrow>
          if t_Status task \<noteq> TaskStatusAssigned \<and> t_Status task \<noteq> TaskStatusRunning
          then (Inl ErrTaskInvalidState, m)
          else
            let m' = set_task taskID
                  (task\<lparr>t_Status := TaskStatusCompleted, t_Checksum := tcr_Checksum req,
                        t_FrameCount := tcr_FrameCount req, t_DurationMS := tcr_DurationMS req,
                        t_OutputSizeBytes := tcr_OutputSizeBytes req, t_CompletedAt := Some now,
                        t_UpdatedAt := now\<rparr>) m;
                job' = job\<lparr>j_UpdatedAt := now\<rparr>;
                allCompleted = allSegmentTasksCompletedLocked job' m'
            in (Inr \<lparr>sg_workerID = t_AssignedWorkerID task, sg_jobID = j_ID job,
                     sg_allCompleted = allCompleted\<rparr>,
                set_job (t_JobID task)
                  (if allCompleted then job'\<lparr>j_Status := JobStatusSegmentCompleted\<rparr> else job') m'))"

definition fail_segment_locked ::
  "string \<Rightarrow> TaskFailedRequest \<Rightarrow> int \<Rightarrow> JobManager \<Rightarrow> (ServiceError + SegmentReport) \<times> JobManager" where
  "fail_segment_locked taskID req now m =
     (case segmentTaskAndJobLocked taskID (tfr_WorkerID req) m of
        Inl e \<Rightarrow> (Inl e, m)
      | Inr (task, job) \<Rightarrow>
          if t_Status task = TaskStatusCompleted \<or> t_Status task = TaskStatusFailed
          then (Inl ErrTaskInvalidState, m)
          else
            (Inr \<lparr>sg_workerID = t_AssignedWorkerID task, sg_jobID = j_ID job, sg_allCompleted = False\<rparr>,
             set_job (t_JobID task) (job\<lparr>j_Status := JobStatusFailed, j_UpdatedAt := now\<rparr>)
               (set_task taskID
                  (task\<lparr>t_Status := TaskStatusFailed, t_FailureReason := tfr_Reason req,
                        t_Retryable := tfr_Retryable req, t_FailedAt := Some now,
                        t_UpdatedAt := now\<rparr>) m)))"

definition FailSegmentTask ::
  "string \<Rightarrow> TaskFailedRequest \<Rightarrow> Env \<Rightarrow> Entry \<Rightarrow> ServiceError option \<times> Entry" where
  "FailSegmentTask taskID req ev E =
     (case fail_segment_locked taskID req (ev_now ev) (en_manager E) of
        (Inl e, m) \<Rightarrow> (Some e, E\<lparr>en_manager := m\<rparr>)
      | (Inr rep, m) \<Rightarrow>
          (None, \<lparr>en_workers = ReleaseReservations [sg_workerID rep] (ev_now ev) (en_workers E),
                  en_manager = m\<rparr>))"

end
