(* ===== verification/Job_Assembly.thy ===== *)
theory Job_Assembly
  imports Job_Manager
begin

text \<open>
  The second half of \<open>entry-server/internal/service/job_manager.go\<close>: starting the assembly when
  the last segment is done, and the assembly reports. \<open>startAssembleGIF\<close> releases the manager's
  lock around the registry calls and the POST to the worker; its lock regions are
  \<open>assemble_snapshot\<close>, \<open>assemble_commit\<close> and \<open>assemble_started\<close>. The POST is a parameter
  that returns the worker's reply together with the state Entry is in when the reply comes,
  since Entry serves other requests meanwhile.
\<close>

subsection \<open>Starting the assembly\<close>

record AssembleSnapshot =
  as_sourceWorkerID :: string
  as_sourceWorkerAddress :: string
  as_videoName :: string
  as_totalSizeBytes :: int
  as_segments :: "AssembleSegmentRef list"
  as_totalOutputSize :: int
  as_allOutputSizesKnown :: bool

definition segment_ref :: "Task \<Rightarrow> AssembleSegmentRef" where
  "segment_ref task =
     \<lparr>asr_SegmentIndex = t_SegmentIndex task, asr_TaskID = t_ID task,
      asr_WorkerID = t_AssignedWorkerID task, asr_WorkerAddress = t_AssignedWorkerAddress task,
      asr_Checksum = t_Checksum task, asr_FrameCount = t_FrameCount task,
      asr_OutputSizeBytes = t_OutputSizeBytes task\<rparr>"

fun snapshot_loop ::
  "(string \<rightharpoonup> Task) \<Rightarrow> string list \<Rightarrow> AssembleSegmentRef list \<times> int \<times> bool
     \<Rightarrow> (AssembleSegmentRef list \<times> int \<times> bool) option" where
  "snapshot_loop tasks [] acc = Some acc"
| "snapshot_loop tasks (taskID # rest) (segments, totalOutputSize, known) =
     (case tasks taskID of
        None \<Rightarrow> None
      | Some task \<Rightarrow>
          if t_Type task \<noteq> TaskTypeProcessSegment \<or> t_Status task \<noteq> TaskStatusCompleted then None
          else snapshot_loop tasks rest
                 (segments @ [segment_ref task], add64 totalOutputSize (t_OutputSizeBytes task),
                  (if t_OutputSizeBytes task \<le> 0 then False else known)))"

definition assemble_snapshot :: "string \<Rightarrow> JobManager \<Rightarrow> ServiceError + AssembleSnapshot" where
  "assemble_snapshot jobID m =
     (case jm_jobs m jobID of
        None \<Rightarrow> Inl ErrTaskInvalidState
      | Some job \<Rightarrow>
          (case snapshot_loop (jm_tasks m) (j_TaskIDs job) ([], 0, True) of
             None \<Rightarrow> Inl ErrTaskInvalidState
           | Some (segments, totalOutputSize, known) \<Rightarrow>
               Inr \<lparr>as_sourceWorkerID = j_SourceWorkerID job,
                    as_sourceWorkerAddress = j_SourceWorkerAddress job,
                    as_videoName = j_VideoName job, as_totalSizeBytes = j_TotalSizeBytes job,
                    as_segments = segments, as_totalOutputSize = totalOutputSize,
                    as_allOutputSizesKnown = known\<rparr>))"

definition required_disk :: "AssembleSnapshot \<Rightarrow> int" where
  "required_disk s =
     estimateAssembleDiskBytes (as_totalSizeBytes s) (as_totalOutputSize s) (as_allOutputSizesKnown s)"

definition markJobFailed :: "string \<Rightarrow> int \<Rightarrow> JobManager \<Rightarrow> JobManager" where
  "markJobFailed jobID now m =
     (case jm_jobs m jobID of
        None \<Rightarrow> m
      | Some job \<Rightarrow> set_job jobID (job\<lparr>j_Status := JobStatusFailed, j_UpdatedAt := now\<rparr>) m)"

definition new_assemble_task :: "string \<Rightarrow> string \<Rightarrow> Worker \<Rightarrow> int \<Rightarrow> int \<Rightarrow> Task" where
  "new_assemble_task taskID jobID worker requiredDiskBytes now =
     \<lparr>t_ID = taskID, t_JobID = jobID, t_Type = TaskTypeAssembleGIF, t_SegmentIndex = -1,
      t_ProcessingMode = TaskProcessingModeOther [], t_AssignedWorkerID = w_ID worker,
      t_AssignedWorkerAddress = w_Address worker, t_Status = TaskStatusAssigned,
      t_RequiredDiskBytes = requiredDiskBytes, t_Checksum = [], t_FrameCount = 0, t_DurationMS = 0,
      t_OutputSizeBytes = 0, t_FailureReason = [], t_Retryable = False, t_CreatedAt = now,
      t_UpdatedAt = now, t_AcceptedAt = None, t_CompletedAt = None, t_FailedAt = None\<rparr>"

definition assemble_commit :: "string \<Rightarrow> Task \<Rightarrow> int \<Rightarrow> JobManager \<Rightarrow> bool \<times> JobManager" where
  "assemble_commit jobID task now m =
     (case jm_jobs m jobID of
        None \<Rightarrow> (False, m)
      | Some job \<Rightarrow>
          if j_Status job \<noteq> JobStatusSegmentCompleted then (False, m)
          else
            (True,
             set_job jobID
               (job\<lparr>j_TaskIDs := j_TaskIDs job @ [t_ID task], j_Status := JobStatusAssembleAssigned,
                    j_UpdatedAt := now\<rparr>)
               (set_task (t_ID task) task m)))"

definition assemble_request :: "string \<Rightarrow> string \<Rightarrow> AssembleSnapshot \<Rightarrow> StartAssembleGIFRequest" where
  "assemble_request jobID taskID s =
     \<lparr>sar_JobID = jobID, sar_AssembleTaskID = taskID,
      sar_Video = \<lparr>avi_Name = as_videoName s, avi_SourceWorkerID = as_sourceWorkerID s,
        avi_SourceWorkerAddress = as_sourceWorkerAddress s, avi_TotalSizeBytes = as_totalSizeBytes s\<rparr>,
      sar_Segments = as_segments s\<rparr>"

text \<open>\<open>notifyAssembleWorker\<close> after the POST: the reply, or the text of its error.\<close>

definition notifyAssembleWorker ::
  "StartAssembleGIFResponse HttpResult \<Rightarrow> string + StartAssembleGIFResponse" where
  "notifyAssembleWorker reply =
     (case reply of
        HttpErr err \<Rightarrow> Inl err
      | HttpResp code body \<Rightarrow>
          (case body of
             Inl err \<Rightarrow> Inl err
           | Inr resp \<Rightarrow>
               if code < 200 \<or> 300 \<le> code then Inl (''assemble worker http status '' @ Itoa code)
               else Inr resp))"

definition assemble_started :: "string \<Rightarrow> string \<Rightarrow> int \<Rightarrow> JobManager \<Rightarrow> JobManager" where
  "assemble_started jobID taskID now m =
     (let m' = (case jm_tasks m taskID of
                  None \<Rightarrow> m
                | Some task \<Rightarrow>
                    if t_Status task = TaskStatusAssigned
                    then set_task taskID
                           (task\<lparr>t_Status := TaskStatusRunning, t_UpdatedAt := now,
                                 t_AcceptedAt := Some now\<rparr>) m
                    else m)
      in case jm_jobs m' jobID of
           None \<Rightarrow> m'
         | Some job \<Rightarrow>
             if j_Status job = JobStatusAssembleAssigned
             then set_job jobID (job\<lparr>j_Status := JobStatusAssembleRunning, j_UpdatedAt := now\<rparr>) m'
             else m')"

definition assemble_start_failed_locked ::
  "string \<Rightarrow> string \<Rightarrow> string \<Rightarrow> bool \<Rightarrow> int \<Rightarrow> JobManager \<Rightarrow> JobManager" where
  "assemble_start_failed_locked jobID taskID reason retryable now m =
     (let m' = (case jm_tasks m taskID of
                  None \<Rightarrow> m
                | Some task \<Rightarrow>
                    if t_Status task \<noteq> TaskStatusCompleted \<and> t_Status task \<noteq> TaskStatusFailed
                    then set_task taskID
                           (task\<lparr>t_Status := TaskStatusFailed, t_FailureReason := reason,
                                 t_Retryable := retryable, t_FailedAt := Some now,
                                 t_UpdatedAt := now\<rparr>) m
                    else m)
      in case jm_jobs m' jobID of
           None \<Rightarrow> m'
         | Some job \<Rightarrow> set_job jobID (job\<lparr>j_Status := JobStatusFailed, j_UpdatedAt := now\<rparr>) m')"

definition markAssembleStartFailed ::
  "string \<Rightarrow> string \<Rightarrow> string \<Rightarrow> int \<Rightarrow> string \<Rightarrow> bool \<Rightarrow> int \<Rightarrow> Entry \<Rightarrow> Entry" where
  "markAssembleStartFailed jobID taskID workerID requiredDiskBytes reason retryable now E =
     \<lparr>en_workers = ReleaseReservation workerID requiredDiskBytes now (en_workers E),
      en_manager = assemble_start_failed_locked jobID taskID reason retryable now (en_manager E)\<rparr>"

text \<open>What follows the reply of the assemble worker.\<close>

definition assemble_replied ::
  "string \<Rightarrow> string \<Rightarrow> string \<Rightarrow> int \<Rightarrow> StartAssembleGIFResponse HttpResult \<Rightarrow> int \<Rightarrow> Entry
     \<Rightarrow> ServiceError option \<times> Entry" where
  "assemble_replied jobID taskID workerID requiredDiskBytes reply now E =
     (case notifyAssembleWorker reply of
        Inl err \<Rightarrow>
          (Some (ErrText err),
           markAssembleStartFailed jobID taskID workerID requiredDiskBytes err False now E)
      | Inr resp \<Rightarrow>
          if sap_Status resp \<noteq> StartAssembleGIFStatusSuccess then
            let E' = (if sap_Status resp = StartAssembleGIFStatusInsufficientStorage
                        \<and> 0 < sap_DiskFreeBytes resp
                      then E\<lparr>en_workers :=
                        UpdateWorkerObservedDiskFree workerID (sap_DiskFreeBytes resp) now (en_workers E)\<rparr>
                      else E);
                err = ''assemble worker returned status '' @ start_assemble_status_name (sap_Status resp)
            in (Some (ErrText err),
                markAssembleStartFailed jobID taskID workerID requiredDiskBytes err False now E')
          else (None, E\<lparr>en_manager := assemble_started jobID taskID now (en_manager E)\<rparr>))"

type_synonym assemble_post =
  "string \<Rightarrow> StartAssembleGIFRequest \<Rightarrow> Entry \<Rightarrow> StartAssembleGIFResponse HttpResult \<times> Entry"

text \<open>\<open>env 0\<close> serves the selection and the draw, \<open>env 1\<close> what follows the reply.\<close>

definition startAssembleGIF ::
  "assemble_post \<Rightarrow> string \<Rightarrow> (nat \<Rightarrow> Env) \<Rightarrow> Entry \<Rightarrow> ServiceError option \<times> Entry" where
  "startAssembleGIF post jobID env E =
     (case assemble_snapshot jobID (en_manager E) of
        Inl e \<Rightarrow> (Some e, E)
      | Inr s \<Rightarrow>
          let requiredDiskBytes = required_disk s; now = ev_now (env 0) in
          (case PickWorkerForDiskReservation TaskTypeAssembleGIF requiredDiskBytes (ev_ord (env 0)) now
                  (en_workers E) of
             (None, r) \<Rightarrow>
               (Some ErrInsufficientResources,
                \<lparr>en_workers = r, en_manager = markJobFailed jobID now (en_manager E)\<rparr>)
           | (Some worker, r) \<Rightarrow>
               (case nextID ''task_'' (ev_draw (env 0)) of
                  Inl e \<Rightarrow>
                    (Some e,
                     \<lparr>en_workers = ReleaseReservation (w_ID worker) requiredDiskBytes now r,
                      en_manager = markJobFailed jobID now (en_manager E)\<rparr>)
                | Inr taskID \<Rightarrow>
                    (case assemble_commit jobID
                            (new_assemble_task taskID jobID worker requiredDiskBytes now) now
                            (en_manager E) of
                       (False, m) \<Rightarrow>
                         (Some ErrTaskInvalidState,
                          \<lparr>en_workers = ReleaseReservation (w_ID worker) requiredDiskBytes now r,
                           en_manager = m\<rparr>)
                     | (True, m) \<Rightarrow>
                         (case post (w_Address worker) (assemble_request jobID taskID s)
                                 \<lparr>en_workers = r, en_manager = m\<rparr> of
                            (reply, E') \<Rightarrow>
                              assemble_replied jobID taskID (w_ID worker) requiredDiskBytes reply
                                (ev_now (env 1)) E')))))"

text \<open>\<open>env 0\<close> serves the report itself, the rest the assembly it may start, whose error is
  logged and dropped.\<close>

definition CompleteSegmentTask ::
  "assemble_post \<Rightarrow> string \<Rightarrow> TaskCompletedRequest \<Rightarrow> (nat \<Rightarrow> Env) \<Rightarrow> Entry
     \<Rightarrow> ServiceError option \<times> Entry" where
  "CompleteSegmentTask post taskID req env E =
     (case complete_segment_locked taskID req (ev_now (env 0)) (en_manager E) of
        (Inl e, m) \<Rightarrow> (Some e, E\<lparr>en_manager := m\<rparr>)
      | (Inr rep, m) \<Rightarrow>
          let E' = \<lparr>en_workers = ReleaseReservations [sg_workerID rep] (ev_now (env 0)) (en_workers E),
                    en_manager = m\<rparr>
          in if sg_allCompleted rep
             then (None, snd (startAssembleGIF post (sg_jobID rep) (\<lambda>n. env (Suc n)) E'))
             else (None, E'))"

subsection \<open>The assembly reports\<close>

text \<open>The target of a report: the key of the assemble task, the task, and what to release.\<close>

fun assemble_target_loop ::
  "(string \<rightharpoonup> Task) \<Rightarrow> string \<Rightarrow> string list \<Rightarrow> ServiceError + string \<times> Task" where
  "assemble_target_loop tasks workerID [] = Inl ErrTaskInvalidState"
| "assemble_target_loop tasks workerID (taskID # rest) =
     (case tasks taskID of
        None \<Rightarrow> assemble_target_loop tasks workerID rest
      | Some task \<Rightarrow>
          if t_Type task \<noteq> TaskTypeAssembleGIF then assemble_target_loop tasks workerID rest
          else if t_AssignedWorkerID task \<noteq> workerID then Inl ErrTaskWorkerMismatch
          else if t_Status task \<noteq> TaskStatusAssigned \<and> t_Status task \<noteq> TaskStatusRunning
          then Inl ErrTaskInvalidState
          else Inr (taskID, task))"

definition assembleCompletionTargetLocked ::
  "Job \<Rightarrow> string \<Rightarrow> JobManager \<Rightarrow> ServiceError + string \<times> Task" where
  "assembleCompletionTargetLocked job workerID m =
     (if j_Status job \<noteq> JobStatusAssembleAssigned \<and> j_Status job \<noteq> JobStatusAssembleRunning
         \<and> j_Status job \<noteq> JobStatusSegmentCompleted
      then Inl ErrTaskInvalidState
      else assemble_target_loop (jm_tasks m) workerID (j_TaskIDs job))"

definition jobResultNotificationLocked :: "Job \<Rightarrow> JobResultStatus \<Rightarrow> JobResultNotificationRequest" where
  "jobResultNotificationLocked job status =
     \<lparr>jrn_JobID = j_ID job, jrn_VideoName = j_VideoName job, jrn_Status = status,
      jrn_ResultWorkerID = j_ResultWorkerID job, jrn_ResultWorkerAddress = j_ResultWorkerAddress job,
      jrn_ResultName = j_ResultName job, jrn_ResultURI = j_ResultURI job,
      jrn_Checksum = j_Checksum job, jrn_OutputSizeBytes = j_OutputSizeBytes job,
      jrn_Reason = j_FailureReason job, jrn_Retryable = j_Retryable job\<rparr>"

text \<open>What a report's critical section hands on: the reservation to release and the
  notification with the address it goes to.\<close>

record AssembleReport =
  ar_releaseWorkerID :: string
  ar_releaseDiskBytes :: int
  ar_address :: string
  ar_notify :: JobResultNotificationRequest

definition complete_assemble_locked ::
  "string \<Rightarrow> JobAssembledRequest \<Rightarrow> Worker \<Rightarrow> int \<Rightarrow> JobManager
     \<Rightarrow> (ServiceError + AssembleReport) \<times> JobManager" where
  "complete_assemble_locked jobID req resultWorker now m =
     (case jm_jobs m jobID of
        None \<Rightarrow> (Inl ErrTaskNotFound, m)
      | Some job \<Rightarrow>
          (case assembleCompletionTargetLocked job (jar_WorkerID req) m of
             Inl e \<Rightarrow> (Inl e, m)
           | Inr (taskID, task) \<Rightarrow>
               let resultName = (if jar_ResultName req = [] then j_ID job @ ''.gif'' else jar_ResultName req);
                   task' = task
                     \<lparr>t_Status := TaskStatusCompleted, t_Checksum := jar_Checksum req,
                      t_DurationMS := jar_DurationMS req, t_OutputSizeBytes := jar_OutputSizeBytes req,
                      t_CompletedAt := Some now, t_UpdatedAt := now\<rparr>;
                   job' = job
                     \<lparr>j_Status := JobStatusCompleted, j_ResultWorkerID := w_ID resultWorker,
                      j_ResultWorkerAddress := w_Address resultWorker, j_ResultName := resultName,
                      j_ResultURI := resultURI (w_Address resultWorker) resultName,
                      j_Checksum := jar_Checksum req, j_DurationMS := jar_DurationMS req,
                      j_OutputSizeBytes := jar_OutputSizeBytes req, j_CompletedAt := Some now,
                      j_UpdatedAt := now\<rparr>
               in (Inr \<lparr>ar_releaseWorkerID = t_AssignedWorkerID task,
                        ar_releaseDiskBytes = t_RequiredDiskBytes task,
                        ar_address = j_SourceWorkerAddress job,
                        ar_notify = jobResultNotificationLocked job' JobResultStatusSuccess\<rparr>,
                   set_job jobID job' (set_task taskID task' m))))"

definition fail_assemble_locked ::
  "string \<Rightarrow> JobAssembledRequest \<Rightarrow> int \<Rightarrow> JobManager \<Rightarrow> (ServiceError + AssembleReport) \<times> JobManager" where
  "fail_assemble_locked jobID req now m =
     (case jm_jobs m jobID of
        None \<Rightarrow> (Inl ErrTaskNotFound, m)
      | Some job \<Rightarrow>
          (case assembleCompletionTargetLocked job (jar_WorkerID req) m of
             Inl e \<Rightarrow> (Inl e, m)
           | Inr (taskID, task) \<Rightarrow>
               let task' = task
                     \<lparr>t_Status := TaskStatusFailed, t_FailureReason := jar_Reason req,
                      t_Retryable := jar_Retryable req, t_FailedAt := Some now, t_UpdatedAt := now\<rparr>;
                   job' = job
                     \<lparr>j_Status := JobStatusFailed, j_FailureReason := jar_Reason req,
                      j_Retryable := jar_Retryable req, j_FailedAt := Some now, j_UpdatedAt := now\<rparr>
               in (Inr \<lparr>ar_releaseWorkerID = t_AssignedWorkerID task,
                        ar_releaseDiskBytes = t_RequiredDiskBytes task,
                        ar_address = j_SourceWorkerAddress job,
                        ar_notify = jobResultNotificationLocked job' JobResultStatusFailed\<rparr>,
                   set_job jobID job' (set_task taskID task' m))))"

text \<open>After the critical section: the release (unless the worker's identifier is empty) and the
  notification, which is returned for the caller to POST.\<close>

definition assemble_reported ::
  "(ServiceError + AssembleReport) \<times> JobManager \<Rightarrow> int \<Rightarrow> Entry
     \<Rightarrow> (ServiceError + string \<times> JobResultNotificationRequest) \<times> Entry" where
  "assemble_reported res now E =
     (case res of
        (Inl e, m) \<Rightarrow> (Inl e, E\<lparr>en_manager := m\<rparr>)
      | (Inr rep, m) \<Rightarrow>
          (Inr (ar_address rep, ar_notify rep),
           \<lparr>en_workers =
              (if ar_releaseWorkerID rep \<noteq> []
               then ReleaseReservation (ar_releaseWorkerID rep) (ar_releaseDiskBytes rep) now (en_workers E)
               else en_workers E),
            en_manager = m\<rparr>))"

definition completeAssembleJob ::
  "string \<Rightarrow> JobAssembledRequest \<Rightarrow> int \<Rightarrow> Entry
     \<Rightarrow> (ServiceError + string \<times> JobResultNotificationRequest) \<times> Entry" where
  "completeAssembleJob jobID req now E =
     (case GetWorker (jar_WorkerID req) (en_workers E) of
        None \<Rightarrow> (Inl ErrWorkerNotFound, E)
      | Some resultWorker \<Rightarrow>
          assemble_reported (complete_assemble_locked jobID req resultWorker now (en_manager E)) now E)"

definition failAssembleJob ::
  "string \<Rightarrow> JobAssembledRequest \<Rightarrow> int \<Rightarrow> Entry
     \<Rightarrow> (ServiceError + string \<times> JobResultNotificationRequest) \<times> Entry" where
  "failAssembleJob jobID req now E =
     assemble_reported (fail_assemble_locked jobID req now (en_manager E)) now E"

definition AssembleJob ::
  "string \<Rightarrow> JobAssembledRequest \<Rightarrow> int \<Rightarrow> Entry
     \<Rightarrow> (ServiceError + string \<times> JobResultNotificationRequest) \<times> Entry" where
  "AssembleJob jobID req now E =
     (case jar_Status req of
        JobResultStatusSuccess \<Rightarrow> completeAssembleJob jobID req now E
      | JobResultStatusFailed \<Rightarrow> failAssembleJob jobID req now E
      | JobResultStatusOther _ \<Rightarrow> (Inl ErrTaskInvalidState, E))"

text \<open>The outcomes of \<open>notifySourceWorkerBestEffort\<close>, which only logs them.\<close>

datatype NotifyOutcome =
    NotifyPostFailed string | NotifyDecodeFailed string
  | NotifyRejected int JobResultNotifyStatus | NotifySent

definition notifySourceWorkerBestEffort :: "JobResultNotificationResponse HttpResult \<Rightarrow> NotifyOutcome" where
  "notifySourceWorkerBestEffort reply =
     (case reply of
        HttpErr err \<Rightarrow> NotifyPostFailed err
      | HttpResp code body \<Rightarrow>
          (case body of
             Inl err \<Rightarrow> NotifyDecodeFailed err
           | Inr resp \<Rightarrow>
               if code < 200 \<or> 300 \<le> code \<or> jrp_Status resp \<noteq> JobResultNotifyStatusSuccess
               then NotifyRejected code (jrp_Status resp)
               else NotifySent))"

end
