(* ===== verification/Registry_Selection.thy ===== *)
theory Registry_Selection
  imports Worker_Registry
begin

text \<open>
  The four loops of the registry that look for the best worker are the scanning loop of
  \<open>Prelude\<close>, each with its own test and its own order: the locales \<open>scan_best\<close> and
  \<open>scan_total\<close> are interpreted here on the code's comparisons.
\<close>

definition can_run :: "TaskType \<Rightarrow> Worker \<Rightarrow> bool" where
  "can_run t w \<longleftrightarrow> w_Online w \<and> Supports w t"

definition more_free :: "Worker \<Rightarrow> Worker \<Rightarrow> bool" where
  "more_free x b \<longleftrightarrow> w_FreeSlots b < w_FreeSlots x"

definition has_free :: "TaskType \<Rightarrow> Worker \<Rightarrow> bool" where
  "has_free t w \<longleftrightarrow> can_run t w \<and> 0 < w_FreeSlots w"

definition less_busy :: "string \<Rightarrow> Worker \<Rightarrow> Worker \<Rightarrow> bool" where
  "less_busy fb x b \<longleftrightarrow> w_ID x \<noteq> fb \<and>
     (w_ID b = fb \<or> w_ReservedSlots x < w_ReservedSlots b
      \<or> (w_ReservedSlots x = w_ReservedSlots b \<and> w_ID x < w_ID b))"

definition has_disk :: "TaskType \<Rightarrow> int \<Rightarrow> Worker \<Rightarrow> bool" where
  "has_disk t d w \<longleftrightarrow> can_run t w \<and> d \<le> schedulableDisk w"

definition disk_better :: "Worker \<Rightarrow> Worker \<Rightarrow> bool" where
  "disk_better x b \<longleftrightarrow> w_ReservedSlots x < w_ReservedSlots b
     \<or> (w_ReservedSlots x = w_ReservedSlots b
        \<and> (schedulableDisk b < schedulableDisk x
           \<or> (schedulableDisk x = schedulableDisk b \<and> w_ID x < w_ID b)))"

interpretation best: scan_best "can_run t" more_free for t
  by unfold_locales (auto simp: more_free_def)

interpretation free: scan_best "has_free t" more_free for t
  by unfold_locales (auto simp: more_free_def)

interpretation busy: scan_total "can_run t" "less_busy fb" w_ID for t fb
  by unfold_locales (auto simp: less_busy_def)

interpretation disk: scan_total "has_disk t d" disk_better w_ID for t d
  by unfold_locales (auto simp: disk_better_def)

lemma pick_best_step_scan: "pick_best_step t = scan_step (can_run t) more_free"
proof (intro ext)
  show "pick_best_step t w b0 = scan_step (can_run t) more_free w b0" for w b0
    by (cases b0) (auto simp: pick_best_step_def can_run_def more_free_def)
qed

lemma pick_free_step_scan: "pick_free_step t = scan_step (has_free t) more_free"
proof (intro ext)
  show "pick_free_step t w b0 = scan_step (has_free t) more_free w b0" for w b0
    by (cases b0) (auto simp: pick_free_step_def has_free_def can_run_def more_free_def)
qed

lemma least_busy_step_scan: "least_busy_step t fb = scan_step (can_run t) (less_busy fb)"
proof (intro ext)
  show "least_busy_step t fb w b0 = scan_step (can_run t) (less_busy fb) w b0" for w b0
    by (cases b0) (auto simp: least_busy_step_def can_run_def less_busy_def)
qed

lemma pick_disk_step_scan: "pick_disk_step t d = scan_step (has_disk t d) disk_better"
proof (intro ext)
  show "pick_disk_step t d w b0 = scan_step (has_disk t d) disk_better w b0" for w b0
    by (cases b0) (auto simp: pick_disk_step_def has_disk_def can_run_def disk_better_def)
qed

lemmas pick_scan = pick_best_step_scan pick_free_step_scan least_busy_step_scan pick_disk_step_scan

lemma PickBestWorker_scan:
  "PickBestWorker t ord r = scan (can_run t) more_free (List.map_filter (wr_byID r) ord)"
  by (simp add: PickBestWorker_def pick_scan scan_def)

lemma fold_pick_free:
  "fold (pick_free_step t) ws None = scan (has_free t) more_free ws"
  by (simp add: pick_scan scan_def)

lemma fold_least_busy:
  "fold (least_busy_step t fb) ws None = scan (can_run t) (less_busy fb) ws"
  by (simp add: pick_scan scan_def)

lemma fold_pick_disk:
  "fold (pick_disk_step t d) ws None = scan (has_disk t d) disk_better ws"
  by (simp add: pick_scan scan_def)

end
