(* ===== verification/Registry_Invariant.thy ===== *)
theory Registry_Invariant
  imports Registry_Selection
begin

text \<open>
  The registry's invariant and its preservation: the three indexes agree (\<open>wf_index\<close>), and every
  worker's derived fields are right (\<open>wf_worker\<close>: an online worker's \<open>FreeSlots\<close> is its total
  less its reservations, an offline one's is that or the 0 its expiry wrote, and it supports known
  task types only). \<open>registry_step\<close> has one rule
  per method that writes; the invariant holds in every registry reachable from the new one.
\<close>

definition wf_worker :: "Worker \<Rightarrow> bool" where
  "wf_worker w \<longleftrightarrow>
     (w_FreeSlots w = calculateFreeSlots (w_TotalSlots w) (w_ReservedSlots w) \<or> \<not> w_Online w \<and> w_FreeSlots w = 0)
     \<and> list_all IsSupportedTaskType (w_SupportedTasks w)
     \<and> in64 (w_TotalSlots w) \<and> in64 (w_ReservedSlots w)
     \<and> in64 (w_DiskFreeBytes w) \<and> in64 (w_ReservedDiskBytes w)"

definition wf_index :: "WorkerRegistry \<Rightarrow> bool" where
  "wf_index r \<longleftrightarrow>
     finite (dom (wr_byID r)) \<and> dom (wr_addrByID r) = dom (wr_byID r)
     \<and> (\<forall>k w. wr_byID r k = Some w \<longrightarrow>
          w_ID w = k \<and> wr_addrByID r k = Some (w_Address w) \<and> wr_idByAddr r (w_Address w) = Some k)
     \<and> (\<forall>a k. wr_idByAddr r a = Some k \<longrightarrow> (\<exists>w. wr_byID r k = Some w \<and> w_Address w = a))"

definition wf_registry :: "WorkerRegistry \<Rightarrow> bool" where
  "wf_registry r \<longleftrightarrow> wf_index r \<and> (\<forall>k w. wr_byID r k = Some w \<longrightarrow> wf_worker w)"

lemma wf_registryD:
  assumes "wf_registry r" and "wr_byID r k = Some w"
  shows "w_ID w = k" "wr_addrByID r k = Some (w_Address w)" "wr_idByAddr r (w_Address w) = Some k"
    "wf_worker w"
  using assms by (auto simp: wf_registry_def wf_index_def)

lemma wf_registry_finite: "wf_registry r \<Longrightarrow> finite (dom (wr_byID r))"
  by (simp add: wf_registry_def wf_index_def)

lemma wf_registry_addr:
  "wf_registry r \<Longrightarrow> wr_idByAddr r a = Some k \<Longrightarrow> \<exists>w. wr_byID r k = Some w \<and> w_Address w = a"
  by (auto simp: wf_registry_def wf_index_def)

lemma set_worker_simps [simp]:
  "wr_byID (set_worker r k w) = (wr_byID r)(k \<mapsto> w)"
  "wr_idByAddr (set_worker r k w) = wr_idByAddr r"
  "wr_addrByID (set_worker r k w) = wr_addrByID r"
  "wr_backpressure (set_worker r k w) = wr_backpressure r"
  by (simp_all add: set_worker_def)

lemma wf_registryI:
  assumes "finite (dom (wr_byID r))" and "dom (wr_addrByID r) = dom (wr_byID r)"
    and "\<And>k w. wr_byID r k = Some w \<Longrightarrow> w_ID w = k \<and> wr_addrByID r k = Some (w_Address w)
      \<and> wr_idByAddr r (w_Address w) = Some k \<and> wf_worker w"
    and "\<And>a k. wr_idByAddr r a = Some k \<Longrightarrow> \<exists>w. wr_byID r k = Some w \<and> w_Address w = a"
  shows "wf_registry r"
  using assms unfolding wf_registry_def wf_index_def by blast

lemma wf_registry_dom: "wf_registry r \<Longrightarrow> dom (wr_addrByID r) = dom (wr_byID r)"
  by (simp add: wf_registry_def wf_index_def)

lemma wf_set_worker [wf_intros]:
  assumes "wf_registry r" and w: "wr_byID r k = Some w"
    and "w_ID w' = w_ID w" and "w_Address w' = w_Address w" and "wf_worker w'"
  shows "wf_registry (set_worker r k w')"
proof (rule wf_registryI)
  have k: "insert k (dom (wr_byID r)) = dom (wr_byID r)" using w by auto
  with assms(1) show "finite (dom (wr_byID (set_worker r k w')))"
    and "dom (wr_addrByID (set_worker r k w')) = dom (wr_byID (set_worker r k w'))"
    by (simp_all add: wf_registry_finite wf_registry_dom)
  note old = wf_registryD [OF assms(1)]
  show "w_ID v = j \<and> wr_addrByID (set_worker r k w') j = Some (w_Address v)
      \<and> wr_idByAddr (set_worker r k w') (w_Address v) = Some j \<and> wf_worker v"
    if "wr_byID (set_worker r k w') j = Some v" for j v
    using that old [OF w] old [of j v] assms(3-5) by (cases "j = k") simp_all
  show "\<exists>v. wr_byID (set_worker r k w') j = Some v \<and> w_Address v = a"
    if "wr_idByAddr (set_worker r k w') a = Some j" for a j
    using that wf_registry_addr [OF assms(1), of a j] w assms(4) by (cases "j = k") auto
qed

lemma wf_with_worker [wf_intros]:
  assumes "wf_registry r"
    and "\<And>w. wf_worker w \<Longrightarrow> w_ID (f w) = w_ID w \<and> w_Address (f w) = w_Address w \<and> wf_worker (f w)"
  shows "wf_registry (with_worker k f r)"
proof (cases "wr_byID r k")
  case None
  with assms(1) show ?thesis by (simp add: with_worker_def)
next
  case (Some w)
  with assms wf_registryD(4) [OF assms(1) Some] show ?thesis
    by (simp add: with_worker_def wf_set_worker)
qed

lemma wf_new_worker [wf_intros]:
  assumes "wf_registry r" and k: "wr_byID r k = None" and a: "wr_idByAddr r a = None"
    and "w_ID w = k" and "w_Address w = a" and "wf_worker w"
  shows "wf_registry (r\<lparr>wr_byID := (wr_byID r)(k \<mapsto> w),
    wr_idByAddr := (wr_idByAddr r)(a \<mapsto> k), wr_addrByID := (wr_addrByID r)(k \<mapsto> a)\<rparr>)"
    (is "wf_registry ?r")
proof (rule wf_registryI)
  note old = wf_registryD [OF assms(1)]
  show "finite (dom (wr_byID ?r))" and "dom (wr_addrByID ?r) = dom (wr_byID ?r)"
    using assms(1) by (simp_all add: wf_registry_finite wf_registry_dom)
  show "w_ID v = j \<and> wr_addrByID ?r j = Some (w_Address v)
      \<and> wr_idByAddr ?r (w_Address v) = Some j \<and> wf_worker v"
    if "wr_byID ?r j = Some v" for j v
    using that old [of j v] a assms(4-6) by (cases "j = k") auto
  show "\<exists>v. wr_byID ?r j = Some v \<and> w_Address v = b" if "wr_idByAddr ?r b = Some j" for b j
    using that wf_registry_addr [OF assms(1), of b j] k assms(5) by (cases "b = a") auto
qed

lemma wf_backpressure_upd [simp]: "wf_registry (r\<lparr>wr_backpressure := b\<rparr>) = wf_registry r"
  by (simp add: wf_registry_def wf_index_def)

lemma wf_NewWorkerRegistry: "wf_registry NewWorkerRegistry"
  by (simp add: NewWorkerRegistry_def wf_registry_def wf_index_def)

subsection \<open>The writes to one worker\<close>

lemma in64_sub64 [simp]: "in64 (sub64 a b)" by simp

lemma worker_writes_ident [simp]:
  "w_ID (reserve_slots n now w) = w_ID w" "w_Address (reserve_slots n now w) = w_Address w"
  "w_ID (reserve_disk d now w) = w_ID w" "w_Address (reserve_disk d now w) = w_Address w"
  "w_ID (release_worker now w) = w_ID w" "w_Address (release_worker now w) = w_Address w"
  "w_ID (release_disk d w) = w_ID w" "w_Address (release_disk d w) = w_Address w"
  by (simp_all add: reserve_slots_def reserve_disk_def release_worker_def release_disk_def Let_def)

lemma worker_writes_slots [simp]:
  "w_ReservedSlots (reserve_slots n now w) = add64 (w_ReservedSlots w) n"
  "w_ReservedSlots (reserve_disk d now w) = add64 (w_ReservedSlots w) 1"
  "w_ReservedSlots (release_disk d w) = w_ReservedSlots w"
  "w_ReservedDiskBytes (reserve_slots n now w) = w_ReservedDiskBytes w"
  "w_ReservedDiskBytes (reserve_disk d now w) = add64 (w_ReservedDiskBytes w) d"
  "w_ReservedDiskBytes (release_worker now w) = w_ReservedDiskBytes w"
  by (simp_all add: reserve_slots_def reserve_disk_def release_worker_def release_disk_def Let_def)

lemma worker_writes_frame [simp]:
  "w_Online (reserve_slots n now w) = w_Online w" "w_TotalSlots (reserve_slots n now w) = w_TotalSlots w"
  "w_SupportedTasks (reserve_slots n now w) = w_SupportedTasks w"
  "w_DiskFreeBytes (reserve_slots n now w) = w_DiskFreeBytes w"
  "w_Online (reserve_disk d now w) = w_Online w" "w_TotalSlots (reserve_disk d now w) = w_TotalSlots w"
  "w_SupportedTasks (reserve_disk d now w) = w_SupportedTasks w"
  "w_DiskFreeBytes (reserve_disk d now w) = w_DiskFreeBytes w"
  "w_Online (release_worker now w) = w_Online w" "w_TotalSlots (release_worker now w) = w_TotalSlots w"
  "w_SupportedTasks (release_worker now w) = w_SupportedTasks w"
  "w_DiskFreeBytes (release_worker now w) = w_DiskFreeBytes w"
  "w_Online (release_disk d w) = w_Online w" "w_TotalSlots (release_disk d w) = w_TotalSlots w"
  "w_SupportedTasks (release_disk d w) = w_SupportedTasks w"
  "w_DiskFreeBytes (release_disk d w) = w_DiskFreeBytes w"
  "w_FreeSlots (release_disk d w) = w_FreeSlots w"
  by (simp_all add: reserve_slots_def reserve_disk_def release_worker_def release_disk_def Let_def)

lemma wf_reserve_slots [wf_intros]: "wf_worker w \<Longrightarrow> wf_worker (reserve_slots n now w)"
  by (simp add: wf_worker_def reserve_slots_def)

lemma wf_reserve_disk [wf_intros]: "wf_worker w \<Longrightarrow> wf_worker (reserve_disk d now w)"
  by (simp add: wf_worker_def reserve_disk_def)

lemma wf_release_worker [wf_intros]: "wf_worker w \<Longrightarrow> wf_worker (release_worker now w)"
  by (simp add: wf_worker_def release_worker_def Let_def)

lemma wf_release_disk [wf_intros]: "wf_worker w \<Longrightarrow> wf_worker (release_disk d w)"
  by (simp add: wf_worker_def release_disk_def Let_def)

subsection \<open>Preservation by the methods\<close>

lemma validate_tasks_None: "validate_tasks ts = None \<longleftrightarrow> list_all IsSupportedTaskType ts"
  by (induction ts) auto

lemma validate_tasks_Some: "validate_tasks ts = Some e \<Longrightarrow> e = ErrInvalidWorkerTask"
  by (induction ts) (auto split: if_splits)

lemma nextWorkerIDLocked_fresh:
  "nextWorkerIDLocked r ds = Some (Inr k) \<Longrightarrow> wr_byID r k = None"
  by (induction r ds rule: nextWorkerIDLocked.induct) (auto simp: Let_def split: if_splits)

lemma wf_RegisterWorker:
  assumes "wf_registry r" and "bind_RegisterWorkerRequest req"
    and "RegisterWorker req now ds r = Some (res, r')"
  shows "wf_registry r'"
proof -
  have bound: "in64 (rwr_TotalSlots req)" "in64 (rwr_DiskFreeBytes req)"
    using assms(2) by (auto simp: bind_RegisterWorkerRequest_def)
  show ?thesis
  proof (cases "validateRegisterWorkerRequest req")
    case (Some e)
    with assms show ?thesis by (simp add: RegisterWorker_def)
  next
    case None
    then have sup: "list_all IsSupportedTaskType (rwr_SupportedTasks req)"
      by (auto simp: validateRegisterWorkerRequest_def validate_tasks_None split: option.splits)
    show ?thesis
    proof (cases "wr_idByAddr r (rwr_Address req)")
      case (Some k)
      with wf_registry_addr [OF assms(1)] obtain w where w: "wr_byID r k = Some w" by blast
      then have "wf_worker w" using assms(1) by (simp add: wf_registry_def)
      with w Some None assms sup bound show ?thesis
        by (auto simp: RegisterWorker_def Let_def wf_worker_def intro!: wf_set_worker [OF _ w])
    next
      case idNone: None
      with None assms obtain v where v: "nextWorkerIDLocked r ds = Some v"
        by (auto simp: RegisterWorker_def split: option.splits)
      show ?thesis
      proof (cases v)
        case (Inl e)
        with None idNone v assms show ?thesis by (simp add: RegisterWorker_def)
      next
        case (Inr k)
        with v have "wr_byID r k = None" by (simp add: nextWorkerIDLocked_fresh)
        with Inr None idNone v assms sup bound show ?thesis
          by (auto simp: RegisterWorker_def Let_def wf_worker_def calculateFreeSlots_def sub64_eq
              intro!: wf_new_worker)
      qed
    qed
  qed
qed

lemma wf_HeartbeatWorker:
  assumes "wf_registry r" and "bind_HeartbeatWorkerRequest req"
  shows "wf_registry (snd (HeartbeatWorker req now r))"
  using assms
proof (cases "validateHeartbeatWorkerRequest req = None \<and> wr_byID r (hwr_WorkerID req) \<noteq> None")
  case False
  with assms show ?thesis by (auto simp: HeartbeatWorker_def split: option.splits)
next
  case True
  then obtain w where w: "wr_byID r (hwr_WorkerID req) = Some w" by auto
  with True assms wf_registryD(4) [OF assms(1) w] show ?thesis
    by (auto simp: HeartbeatWorker_def bind_HeartbeatWorkerRequest_def wf_worker_def
        intro!: wf_set_worker [OF _ w])
qed

lemma wf_mark_expired_loop:
  "wf_registry (snd acc) \<Longrightarrow> wf_registry (snd (mark_expired_loop now timeout ks acc))"
proof (induction now timeout ks acc rule: mark_expired_loop.induct)
  case (1 now timeout acc)
  then show ?case by simp
next
  case (2 now timeout k ks expired r)
  have "wf_registry (set_worker r k (w\<lparr>w_Online := False, w_FreeSlots := 0, w_UpdatedAt := now\<rparr>))"
    if "wr_byID r k = Some w" for w
    using that 2(4) wf_registryD(4) [of r k w]
    by (intro wf_set_worker [where w = w]) (auto simp: wf_worker_def)
  with 2 show ?case by (auto split: option.splits)
qed

lemma wf_MarkExpiredWorkers:
  "wf_registry r \<Longrightarrow> wf_registry (snd (MarkExpiredWorkers timeout ord now r))"
  by (simp add: MarkExpiredWorkers_def wf_mark_expired_loop)

lemma wf_RefreshBackpressureStatus:
  "wf_registry r \<Longrightarrow> wf_registry (snd (RefreshBackpressureStatus ord r))"
  by (simp add: RefreshBackpressureStatus_def Let_def split: prod.splits)

lemma wf_unreserve_slot [wf_intros]: "wf_worker w \<Longrightarrow> wf_worker (unreserve_slot w)"
  by (simp add: wf_worker_def unreserve_slot_def)

lemma unreserve_slot_ident [simp]:
  "w_ID (unreserve_slot w) = w_ID w" "w_Address (unreserve_slot w) = w_Address w"
  by (simp_all add: unreserve_slot_def)

lemma wf_rollback_selected: "wf_registry r \<Longrightarrow> wf_registry (rollback_selected ks r)"
  by (induction ks r rule: rollback_selected.induct) (simp_all add: wf_with_worker wf_unreserve_slot)

lemma map_filter_worker:
  "wf_registry r \<Longrightarrow> b \<in> set (List.map_filter (wr_byID r) ks) \<Longrightarrow> wr_byID r (w_ID b) = Some b"
  by (auto simp: map_filter_set dest: wf_registryD(1))

text \<open>A reservation writes to the worker the scan returned, which is the registry's own.\<close>

lemma wf_reserve_slots_of:
  "wf_registry r \<Longrightarrow> wr_byID r (w_ID b) = Some b
     \<Longrightarrow> wf_registry (set_worker r (w_ID b) (reserve_slots n now b))"
  by (rule wf_set_worker) (auto intro: wf_reserve_slots dest: wf_registryD(4))

lemma wf_reserve_disk_of:
  "wf_registry r \<Longrightarrow> wr_byID r (w_ID b) = Some b
     \<Longrightarrow> wf_registry (set_worker r (w_ID b) (reserve_disk d now b))"
  by (rule wf_set_worker) (auto intro: wf_reserve_disk dest: wf_registryD(4))

lemma pick_free_mem:
  assumes "wf_registry r"
    and "fold (pick_free_step t) (List.map_filter (wr_byID r) ks) None = Some b"
  shows "wr_byID r (w_ID b) = Some b" and "w_Online b" and "0 < w_FreeSlots b"
proof -
  from assms(2) have sc: "scan (has_free t) more_free (List.map_filter (wr_byID r) ks) = Some b"
    by (simp add: fold_pick_free)
  show "wr_byID r (w_ID b) = Some b"
    using assms(1) free.scan_Some(2) [OF sc] by (rule map_filter_worker)
  show "w_Online b" and "0 < w_FreeSlots b"
    using free.scan_Some(1) [OF sc] by (auto simp: has_free_def can_run_def)
qed

lemma wf_pick_workers_loop:
  "wf_registry r \<Longrightarrow> wf_registry (snd (pick_workers_loop t n ord clock sel r))"
proof (induction n arbitrary: sel r)
  case 0
  then show ?case by simp
next
  case (Suc n)
  show ?case
  proof (cases "fold (pick_free_step t) (List.map_filter (wr_byID r) (ord n)) None")
    case None
    with Suc.prems show ?thesis by (simp add: wf_rollback_selected Let_def)
  next
    case (Some b)
    with Suc pick_free_mem(1) [OF Suc.prems Some] show ?thesis
      by (simp add: wf_reserve_slots_of)
  qed
qed

lemma wf_PickWorkersForReservation:
  "wf_registry r \<Longrightarrow> wf_registry (snd (PickWorkersForReservation t c ord clock r))"
  by (simp add: PickWorkersForReservation_def wf_pick_workers_loop)

lemma wf_ReserveWorkerSlots:
  assumes "wf_registry r"
  shows "wf_registry (snd (ReserveWorkerSlots k t c now r))"
proof (cases "wr_byID r k")
  case None
  with assms show ?thesis by (simp add: ReserveWorkerSlots_def)
next
  case (Some w)
  then have "w_ID w = k" using assms by (simp add: wf_registryD(1))
  with assms Some wf_reserve_slots_of [of r w c now] show ?thesis
    by (simp add: ReserveWorkerSlots_def Let_def)
qed

lemma select_least_busy_mem:
  assumes "wf_registry r" and "select_least_busy t fb ord r = Some b"
  shows "wr_byID r (w_ID b) = Some b" and "can_run t b"
proof -
  let ?s = "scan (can_run t) (less_busy fb) (List.map_filter (wr_byID r) ord)"
  have "wr_byID r (w_ID b) = Some b \<and> can_run t b"
  proof (cases ?s)
    case None
    with assms show ?thesis
      by (auto simp: select_least_busy_def fold_least_busy can_run_def wf_registryD(1)
          split: if_splits option.splits)
  next
    case (Some c)
    with assms(2) have "c = b" by (simp add: select_least_busy_def fold_least_busy)
    with busy.scan_Some [OF Some] assms(1) show ?thesis by (simp add: map_filter_worker)
  qed
  then show "wr_byID r (w_ID b) = Some b" and "can_run t b" by auto
qed

lemma wf_ReserveLeastBusyWorker:
  "wf_registry r \<Longrightarrow> wf_registry (snd (ReserveLeastBusyWorker t fb ord now r))"
  by (cases "select_least_busy t fb ord r")
    (simp_all add: ReserveLeastBusyWorker_def Let_def wf_reserve_slots_of select_least_busy_mem)

lemma pick_disk_mem:
  assumes "wf_registry r"
    and "fold (pick_disk_step t d) (List.map_filter (wr_byID r) ks) None = Some b"
  shows "wr_byID r (w_ID b) = Some b" and "has_disk t d b"
proof -
  from assms(2) have sc: "scan (has_disk t d) disk_better (List.map_filter (wr_byID r) ks) = Some b"
    by (simp add: fold_pick_disk)
  show "wr_byID r (w_ID b) = Some b"
    using assms(1) disk.scan_Some(2) [OF sc] by (rule map_filter_worker)
  show "has_disk t d b" using disk.scan_Some(1) [OF sc] .
qed

lemma wf_PickWorkerForDiskReservation:
  "wf_registry r \<Longrightarrow> wf_registry (snd (PickWorkerForDiskReservation t d ord now r))"
  by (cases "fold (pick_disk_step t d) (List.map_filter (wr_byID r) ord) None")
    (simp_all add: PickWorkerForDiskReservation_def Let_def wf_reserve_disk_of pick_disk_mem)

lemma wf_ReleaseReservations: "wf_registry r \<Longrightarrow> wf_registry (ReleaseReservations ks now r)"
  by (induction ks now r rule: ReleaseReservations.induct)
    (simp_all add: wf_with_worker wf_release_worker)

lemma wf_ReleaseReservation: "wf_registry r \<Longrightarrow> wf_registry (ReleaseReservation k d now r)"
  by (simp add: ReleaseReservation_def wf_with_worker wf_release_worker wf_release_disk)

lemma wf_UpdateWorkerObservedDiskFree:
  "wf_registry r \<Longrightarrow> in64 d \<Longrightarrow> wf_registry (UpdateWorkerObservedDiskFree k d now r)"
  unfolding UpdateWorkerObservedDiskFree_def
  by (rule wf_with_worker) (auto simp: wf_worker_def)

lemmas wf_registry_ops =
  wf_RegisterWorker wf_HeartbeatWorker wf_MarkExpiredWorkers wf_RefreshBackpressureStatus
  wf_PickWorkersForReservation wf_ReserveWorkerSlots wf_ReserveLeastBusyWorker
  wf_PickWorkerForDiskReservation wf_ReleaseReservations wf_ReleaseReservation
  wf_UpdateWorkerObservedDiskFree

subsection \<open>Reachable registries\<close>

inductive registry_step :: "WorkerRegistry \<Rightarrow> WorkerRegistry \<Rightarrow> bool" where
  register: "bind_RegisterWorkerRequest req \<Longrightarrow> RegisterWorker req now ds r = Some (res, r')
     \<Longrightarrow> registry_step r r'"
| heartbeat: "bind_HeartbeatWorkerRequest hreq \<Longrightarrow> registry_step r (snd (HeartbeatWorker hreq now r))"
| expire: "registry_step r (snd (MarkExpiredWorkers timeout ord now r))"
| refresh: "registry_step r (snd (RefreshBackpressureStatus ord r))"
| pick_many: "registry_step r (snd (PickWorkersForReservation t c ords clock r))"
| reserve: "registry_step r (snd (ReserveWorkerSlots k t c now r))"
| reserve_least: "registry_step r (snd (ReserveLeastBusyWorker t fb ord now r))"
| pick_disk: "registry_step r (snd (PickWorkerForDiskReservation t d ord now r))"
| release_many: "registry_step r (ReleaseReservations ks now r)"
| release_one: "registry_step r (ReleaseReservation k d now r)"
| observe_disk: "in64 d \<Longrightarrow> registry_step r (UpdateWorkerObservedDiskFree k d now r)"

inductive_cases registry_stepE: "registry_step r r'"

lemma registry_step_wf: "registry_step r r' \<Longrightarrow> wf_registry r \<Longrightarrow> wf_registry r'"
  by (erule registry_stepE) (auto intro: wf_registry_ops)

interpretation registry: transition_system NewWorkerRegistry registry_step wf_registry
  by unfold_locales (auto intro: wf_NewWorkerRegistry registry_step_wf)

end
