(* ===== verification/Registry_Spec.thy ===== *)
theory Registry_Spec
  imports Registry_Invariant
begin

text \<open>
  What the registry's methods promise: identifiers are fresh and registration is idempotent per
  address; heartbeats and expiry leave the reservations alone; each picker returns the worker
  its ordering names, whatever the iteration order; a reservation that fails is undone exactly;
  a release is the clamped decrement.
\<close>

subsection \<open>Two workers, for the witnesses\<close>

definition ex_worker :: "string \<Rightarrow> int \<Rightarrow> int \<Rightarrow> int \<Rightarrow> Worker" where
  "ex_worker k slots reserved heartbeat =
     \<lparr>w_ID = k, w_Address = k @ '':1'', w_TotalSlots = slots,
      w_SupportedTasks = [TaskTypeProcessSegment, TaskTypeAssembleGIF],
      w_ReportedTotalSlots = slots, w_DiskTotalBytes = 1000, w_DiskFreeBytes = 800,
      w_FreeSlots = slots - reserved, w_Online = True,
      w_RunningProcessSegment = 0, w_RunningAssembleGIF = 0, w_RunningTasks = [], w_Metrics = [],
      w_ReservedSlots = reserved, w_ReservedDiskBytes = 0,
      w_RegisteredAt = 0, w_LastHeartbeatAt = heartbeat, w_UpdatedAt = 0\<rparr>"

definition ex_registry :: WorkerRegistry where
  "ex_registry =
     \<lparr>wr_byID = [''a'' \<mapsto> ex_worker ''a'' 2 1 50, ''b'' \<mapsto> ex_worker ''b'' 4 0 90],
      wr_idByAddr = [''a:1'' \<mapsto> ''a'', ''b:1'' \<mapsto> ''b''],
      wr_addrByID = [''a'' \<mapsto> ''a:1'', ''b'' \<mapsto> ''b:1''],
      wr_backpressure = zero_BackpressureStatus\<rparr>"

lemma ex_registry_byID:
  "wr_byID ex_registry = [''a'' \<mapsto> ex_worker ''a'' 2 1 50, ''b'' \<mapsto> ex_worker ''b'' 4 0 90]"
  by (simp add: ex_registry_def)

lemma ex_registry_order: "enumerates (wr_byID ex_registry) [''b'', ''a'']"
  by (auto simp: enumerates_def ex_registry_byID)

lemma ex_registry_wf: "wf_registry ex_registry"
proof (rule wf_registryI)
  show "finite (dom (wr_byID ex_registry))"
    and "dom (wr_addrByID ex_registry) = dom (wr_byID ex_registry)"
    by (auto simp: ex_registry_def)
  show "w_ID w = k \<and> wr_addrByID ex_registry k = Some (w_Address w)
      \<and> wr_idByAddr ex_registry (w_Address w) = Some k \<and> wf_worker w"
    if "wr_byID ex_registry k = Some w" for k w
    using that
    by (auto simp: ex_registry_def ex_worker_def wf_worker_def calculateFreeSlots_def sub64_eq in64_def
        split: if_splits)
  show "\<exists>w. wr_byID ex_registry k = Some w \<and> w_Address w = a"
    if "wr_idByAddr ex_registry a = Some k" for a k
    using that by (auto simp: ex_registry_def ex_worker_def split: if_splits)
qed

subsection \<open>Registration\<close>

lemma nextWorkerIDLocked_None:
  "nextWorkerIDLocked r (map Some bufs) = None
     \<Longrightarrow> \<forall>b\<in>set bufs. ''wrk_'' @ EncodeToString b \<in> dom (wr_byID r)"
  by (induction bufs) (auto simp: Let_def split: if_splits)

lemma nextWorkerIDLocked_not_error: "nextWorkerIDLocked r (map Some bufs) \<noteq> Some (Inl e)"
  by (induction bufs) (auto simp: Let_def)

text \<open>
  The loop that draws worker identifiers terminates: given more distinct draws than there
  are workers, it returns, and what it returns is not in use.
\<close>

theorem nextWorkerIDLocked_terminates:
  assumes "finite (dom (wr_byID r))" and "distinct bufs" and "card (dom (wr_byID r)) < length bufs"
  shows "\<exists>k. nextWorkerIDLocked r (map Some bufs) = Some (Inr k) \<and> wr_byID r k = None"
proof (cases "nextWorkerIDLocked r (map Some bufs)")
  case None
  let ?id = "\<lambda>b. ''wrk_'' @ EncodeToString b"
  have "inj_on ?id (set bufs)" by (auto intro!: inj_onI dest: EncodeToString_inj)
  then have "card (?id ` set bufs) = length bufs"
    using assms(2) by (simp add: card_image distinct_card)
  moreover have "?id ` set bufs \<subseteq> dom (wr_byID r)"
    using nextWorkerIDLocked_None [OF None] by auto
  ultimately have "length bufs \<le> card (dom (wr_byID r))"
    using card_mono [OF assms(1)] by metis
  with assms(3) show ?thesis by simp
next
  case (Some v)
  with nextWorkerIDLocked_not_error obtain k where "v = Inr k" by (cases v) auto
  with Some show ?thesis by (simp add: nextWorkerIDLocked_fresh)
qed

theorem nextWorkerIDLocked_terminates_witness:
  "\<exists>k. nextWorkerIDLocked ex_registry (map Some [[0], [1], [2 :: byte]]) = Some (Inr k)
     \<and> wr_byID ex_registry k = None"
proof (rule nextWorkerIDLocked_terminates)
  have "dom (wr_byID ex_registry) = {''a'', ''b''}" by (auto simp: ex_registry_byID)
  then show "finite (dom (wr_byID ex_registry))"
    and "card (dom (wr_byID ex_registry)) < length [[0], [1], [2 :: byte]]" by simp_all
  show "distinct [[0], [1], [2 :: byte]]" by simp
qed

lemma RegisterWorker_Inr_valid:
  "RegisterWorker req now ds r = Some (Inr v, r') \<Longrightarrow> validateRegisterWorkerRequest req = None"
  by (auto simp: RegisterWorker_def split: option.splits)

lemma RegisterWorker_stored:
  assumes "wf_registry r" and "RegisterWorker req now ds r = Some (Inr (w, existed), r')"
  shows "wr_idByAddr r' (rwr_Address req) = Some (w_ID w)" "wr_byID r' (w_ID w) = Some w"
proof -
  note v = RegisterWorker_Inr_valid [OF assms(2)]
  have "wr_idByAddr r' (rwr_Address req) = Some (w_ID w) \<and> wr_byID r' (w_ID w) = Some w"
  proof (cases "wr_idByAddr r (rwr_Address req)")
    case None
    with assms(2) v show ?thesis
      by (auto simp: RegisterWorker_def Let_def split: option.splits sum.splits)
  next
    case (Some k)
    with wf_registry_addr [OF assms(1)] obtain u where "wr_byID r k = Some u" by blast
    moreover from this have "w_ID u = k" using assms(1) by (rule wf_registryD(1) [rotated])
    ultimately show ?thesis using Some assms(2) v by (auto simp: RegisterWorker_def Let_def)
  qed
  then show "wr_idByAddr r' (rwr_Address req) = Some (w_ID w)" "wr_byID r' (w_ID w) = Some w"
    by auto
qed

text \<open>
  Registration is idempotent per address: a second valid registration of the same address
  returns the same worker identifier with the "exists" flag, adds no worker, keeps the Entry's
  reservations of that worker, and needs no random draw.
\<close>

theorem RegisterWorker_again:
  assumes "wf_registry r" and "bind_RegisterWorkerRequest req"
    and "RegisterWorker req now ds r = Some (Inr (w, existed), r1)"
    and "rwr_Address req2 = rwr_Address req" and "validateRegisterWorkerRequest req2 = None"
  shows "\<exists>w2 r2. RegisterWorker req2 now2 [] r1 = Some (Inr (w2, True), r2)
    \<and> w_ID w2 = w_ID w \<and> w_ReservedSlots w2 = w_ReservedSlots w
    \<and> w_ReservedDiskBytes w2 = w_ReservedDiskBytes w
    \<and> dom (wr_byID r2) = dom (wr_byID r1) \<and> wr_byID r2 (w_ID w) = Some w2"
proof -
  note st = RegisterWorker_stored [OF assms(1,3)]
  with assms(4,5) show ?thesis
    by (auto simp: RegisterWorker_def Let_def)
qed

definition ex_register :: RegisterWorkerRequest where
  "ex_register = \<lparr>rwr_Address = ''h:9'', rwr_TotalSlots = 4,
     rwr_SupportedTasks = [TaskTypeProcessSegment], rwr_DiskTotalBytes = 10, rwr_DiskFreeBytes = 5\<rparr>"

lemma ex_register_valid: "validateRegisterWorkerRequest ex_register = None"
  by (simp add: validateRegisterWorkerRequest_def ex_register_def SplitHostPort_def
      last_index_byte_def)

theorem RegisterWorker_again_witness:
  "\<exists>w r1 w2 r2. RegisterWorker ex_register 1 [Some [7]] ex_registry = Some (Inr (w, False), r1)
     \<and> RegisterWorker ex_register 2 [] r1 = Some (Inr (w2, True), r2) \<and> w_ID w2 = w_ID w"
proof -
  have b: "bind_RegisterWorkerRequest ex_register"
    by (simp add: bind_RegisterWorkerRequest_def ex_register_def in64_def)
  have "\<exists>w r1. RegisterWorker ex_register 1 [Some [7]] ex_registry = Some (Inr (w, False), r1)"
    by (simp add: RegisterWorker_def ex_register_valid Let_def ex_registry_def)
      (simp add: ex_register_def Let_def)
  then obtain w r1 where
    reg: "RegisterWorker ex_register 1 [Some [7]] ex_registry = Some (Inr (w, False), r1)" by blast
  from RegisterWorker_again [OF ex_registry_wf b reg refl ex_register_valid, of 2]
  obtain w2 r2 where "RegisterWorker ex_register 2 [] r1 = Some (Inr (w2, True), r2)"
    and "w_ID w2 = w_ID w" by blast
  with reg show ?thesis by blast
qed

text \<open>
  \<open>NormalizeAddress\<close> builds addresses that registration accepts: for a host without
  brackets (an IPv6 host is bracketed by it) the address splits back into the host and the
  decimal port, and the port reads back as the number.
\<close>

theorem NormalizeAddress_splits:
  assumes "CHR ''['' \<notin> set host" "CHR '']'' \<notin> set host" and "0 \<le> port" "in64 port"
  shows "SplitHostPort (NormalizeAddress host port) = Some (host, Itoa port) \<and> Atoi (Itoa port) = Some port"
proof -
  have "list_all is_digit (Itoa port)" using assms(3) by (simp add: Itoa_def nat_digits_digits)
  then show ?thesis
    using SplitHostPort_JoinHostPort [of host "Itoa port"] assms digit_chars_safe
    by (simp add: NormalizeAddress_def Atoi_Itoa)
qed

theorem NormalizeAddress_splits_witness:
  "SplitHostPort (NormalizeAddress ''::1'' 9001) = Some (''::1'', Itoa 9001) \<and> Atoi (Itoa 9001) = Some 9001"
  by (rule NormalizeAddress_splits) (simp_all add: in64_def)

subsection \<open>Reachable registries\<close>

text \<open>
  C36. In every registry reachable from the new one by any sequence of method calls whose
  requests satisfy their binding tags, the three indexes agree (one identifier per address and
  back), and every worker's free slots are its total less its reservations, unless it is offline,
  when they may also be the 0 that its expiry wrote.
\<close>

theorem registry_reachable_wf:
  assumes "reachable_from NewWorkerRegistry registry_step r"
  shows "wf_registry r"
  using assms by (rule registry.reachable_inv)

text \<open>A worker that registers and gets one reservation.\<close>

theorem registry_reachable_wf_witness:
  "\<exists>r w. reachable_from NewWorkerRegistry registry_step r \<and> wr_byID r ''wrk_07'' = Some w \<and> w_Online w
     \<and> w_ReservedSlots w = 1 \<and> w_FreeSlots w = 3 \<and> wr_idByAddr r ''h:9'' = Some ''wrk_07''"
proof -
  have b: "bind_RegisterWorkerRequest ex_register"
    by (simp add: bind_RegisterWorkerRequest_def ex_register_def in64_def)
  have id: "EncodeToString [7] = ''07''" by code_simp
  obtain x r1 w1 where R: "RegisterWorker ex_register 1 [Some [7]] NewWorkerRegistry = Some (x, r1)"
    and r1: "wr_byID r1 = [''wrk_07'' \<mapsto> w1]"
    and w1: "w_Online w1" "w_TotalSlots w1 = 4" "w_ReservedSlots w1 = 0" "w_Address w1 = ''h:9''"
      "w_SupportedTasks w1 = [TaskTypeProcessSegment]"
    using ex_register_valid
    by (simp add: RegisterWorker_def Let_def id NewWorkerRegistry_def) (simp add: ex_register_def)
  define r where "r = snd (ReserveWorkerSlots ''wrk_07'' TaskTypeProcessSegment 1 2 r1)"
  have "registry_step NewWorkerRegistry r1" using b R by (rule registry_step.register)
  moreover have "registry_step r1 r" unfolding r_def by (rule registry_step.reserve)
  ultimately have reach: "reachable_from NewWorkerRegistry registry_step r"
    by (blast intro: reachable_from.intros)
  have w: "wr_byID r ''wrk_07'' = Some (reserve_slots 1 2 w1)"
    using r1 w1 by (simp add: r_def ReserveWorkerSlots_def Let_def)
  from registry_reachable_wf [OF reach] have wf: "wf_registry r" .
  from wf_registryD(3,4) [OF wf w] w1 have "w_FreeSlots (reserve_slots 1 2 w1) = 3"
    "wr_idByAddr r ''h:9'' = Some ''wrk_07''"
    by (auto simp: wf_worker_def reserve_slots_def calculateFreeSlots_def add64_eq sub64_eq in64_def)
  with reach w w1 show ?thesis
    by (intro exI [of _ r] exI [of _ "reserve_slots 1 2 w1"]) (simp add: reserve_slots_def add64_eq in64_def)
qed

subsection \<open>Heartbeat, expiry, backpressure\<close>

text \<open>What Entry alone decides about a worker.\<close>

definition entry_view :: "Worker \<Rightarrow> string \<times> string \<times> int \<times> int \<times> int \<times> TaskType list" where
  "entry_view w = (w_ID w, w_Address w, w_TotalSlots w, w_ReservedSlots w, w_ReservedDiskBytes w,
     w_SupportedTasks w)"

lemma map_option_upd_same:
  "m k = Some u \<Longrightarrow> f v = f u \<Longrightarrow> map_option f ((m(k \<mapsto> v)) j) = map_option f (m j)"
  by simp

text \<open>
  A heartbeat is observational: whatever it reports, no worker's identity, total slots,
  reserved slots, reserved disk or task types change; a rejected heartbeat changes nothing, and
  an accepted one leaves its worker online, with the reported disk, heard from at that moment.
\<close>

theorem HeartbeatWorker_observational:
  "map_option entry_view (wr_byID (snd (HeartbeatWorker req now r)) k) = map_option entry_view (wr_byID r k)
   \<and> (case fst (HeartbeatWorker req now r) of
        Some e \<Rightarrow> snd (HeartbeatWorker req now r) = r
          \<and> (e = ErrWorkerNotFound \<or> e = ErrInvalidWorkerTask)
      | None \<Rightarrow> (\<exists>w. wr_byID (snd (HeartbeatWorker req now r)) (hwr_WorkerID req) = Some w
          \<and> w_Online w \<and> w_LastHeartbeatAt w = now \<and> w_DiskFreeBytes w = hwr_DiskFreeBytes req
          \<and> w_FreeSlots w = calculateFreeSlots (w_TotalSlots w) (w_ReservedSlots w)))"
  by (auto simp: HeartbeatWorker_def entry_view_def validateHeartbeatWorkerRequest_def
      split: option.splits dest: validate_tasks_Some)

definition expire_worker :: "int \<Rightarrow> int \<Rightarrow> Worker \<Rightarrow> Worker" where
  "expire_worker now timeout w =
     (if worker_expired now timeout w
      then w\<lparr>w_Online := False, w_FreeSlots := 0, w_UpdatedAt := now\<rparr> else w)"

lemma expire_worker_twice: "expire_worker now timeout (expire_worker now timeout w) = expire_worker now timeout w"
  by (simp add: expire_worker_def worker_expired_def)

lemma map_filter_upd_other: "k \<notin> set ks \<Longrightarrow> List.map_filter (m(k \<mapsto> v)) ks = List.map_filter m ks"
  by (induction ks) (auto split: option.splits)

lemma mark_expired_loop_byID:
  "distinct ks \<Longrightarrow> wr_byID (snd (mark_expired_loop now timeout ks (n, r))) =
     (\<lambda>k. if k \<in> set ks then map_option (expire_worker now timeout) (wr_byID r k) else wr_byID r k)"
proof (induction ks arbitrary: n r)
  case Nil
  then show ?case by simp
next
  case (Cons k ks)
  then show ?case
    by (auto simp: fun_eq_iff expire_worker_def split: option.splits)
qed

lemma mark_expired_loop_count:
  "distinct ks \<Longrightarrow> 0 \<le> n \<Longrightarrow> n + int (length ks) < 2 ^ 63 \<Longrightarrow>
   fst (mark_expired_loop now timeout ks (n, r)) =
     n + int (length (filter (worker_expired now timeout) (List.map_filter (wr_byID r) ks)))"
proof (induction ks arbitrary: n r)
  case Nil
  then show ?case by simp
next
  case (Cons k ks)
  then have "add64 n 1 = n + 1" by (intro add64_eq) (simp add: in64_def)
  with Cons show ?case by (auto simp: map_filter_upd_other split: option.splits)
qed

text \<open>
  One pass of the expiry checker takes offline exactly the online workers whose last
  heartbeat is older than the timeout, whatever the iteration order, returns their number, and
  touches no reservation.
\<close>

theorem MarkExpiredWorkers_exact:
  assumes "enumerates (wr_byID r) ord" and "int (length ord) < 2 ^ 63"
  shows "wr_byID (snd (MarkExpiredWorkers timeout ord now r))
      = map_option (expire_worker now timeout) \<circ> wr_byID r
    \<and> fst (MarkExpiredWorkers timeout ord now r)
      = int (card {k. \<exists>w. wr_byID r k = Some w \<and> worker_expired now timeout w})
    \<and> map_option entry_view (wr_byID (snd (MarkExpiredWorkers timeout ord now r)) k)
      = map_option entry_view (wr_byID r k)"
proof -
  have d: "distinct ord" and set: "set ord = dom (wr_byID r)"
    using assms(1) by (auto simp: enumerates_def)
  have eq: "wr_byID (snd (MarkExpiredWorkers timeout ord now r)) = map_option (expire_worker now timeout) \<circ> wr_byID r"
    using mark_expired_loop_byID [OF d] set
    by (fastforce simp: MarkExpiredWorkers_def fun_eq_iff dom_def)
  have len: "length (filter (worker_expired now timeout) (List.map_filter m ks))
      = card {k \<in> set ks. \<exists>w. m k = Some w \<and> worker_expired now timeout w}"
    if "distinct ks" for m ks
    using that
  proof (induction ks)
    case Nil
    then show ?case by simp
  next
    case (Cons k ks)
    let ?P = "\<lambda>k. \<exists>w. m k = Some w \<and> worker_expired now timeout w"
    have "{j \<in> set (k # ks). ?P j} = (if ?P k then insert k {j \<in> set ks. ?P j} else {j \<in> set ks. ?P j})"
      by auto
    with Cons show ?case by (auto split: option.splits)
  qed
  have "{k \<in> set ord. \<exists>w. wr_byID r k = Some w \<and> worker_expired now timeout w}
      = {k. \<exists>w. wr_byID r k = Some w \<and> worker_expired now timeout w}"
    using set by auto
  then have "fst (MarkExpiredWorkers timeout ord now r)
      = int (card {k. \<exists>w. wr_byID r k = Some w \<and> worker_expired now timeout w})"
    using mark_expired_loop_count [OF d, of 0] assms(2) len [OF d, of "wr_byID r"]
    by (simp add: MarkExpiredWorkers_def)
  moreover have "entry_view (expire_worker now timeout w) = entry_view w" for w
    by (simp add: entry_view_def expire_worker_def)
  ultimately show ?thesis by (simp add: eq option.map_comp comp_def)
qed

theorem MarkExpiredWorkers_exact_witness:
  "fst (MarkExpiredWorkers 30 [''b'', ''a''] 100 ex_registry) = 1
   \<and> map_option w_Online (wr_byID (snd (MarkExpiredWorkers 30 [''b'', ''a''] 100 ex_registry)) ''a'') = Some False
   \<and> map_option w_Online (wr_byID (snd (MarkExpiredWorkers 30 [''b'', ''a''] 100 ex_registry)) ''b'') = Some True"
proof -
  note T = MarkExpiredWorkers_exact [OF ex_registry_order, of 30 100]
  have "{k. \<exists>w. wr_byID ex_registry k = Some w \<and> worker_expired 100 30 w} = {''a''}"
    by (auto simp: ex_registry_byID ex_worker_def worker_expired_def time_sub_def split: if_splits)
  with T show ?thesis
    by (simp add: ex_registry_byID ex_worker_def expire_worker_def worker_expired_def time_sub_def)
qed

lemma backpressure_loop_eq:
  "0 \<le> n \<Longrightarrow> n + int (length ws) < 2 ^ 63 \<Longrightarrow>
   backpressure_loop ws (n, b) =
     (n + int (length (filter w_Online ws)),
      b \<and> (\<forall>w\<in>set ws. w_Online w \<longrightarrow> 0 < worker_threshold w \<and> worker_threshold w \<le> w_ReservedSlots w))"
proof (induction ws arbitrary: n b)
  case Nil
  then show ?case by simp
next
  case (Cons w ws)
  then have "add64 n 1 = n + 1" by (intro add64_eq) (simp add: in64_def)
  with Cons show ?case by auto
qed

text \<open>
  Backpressure is active exactly when some worker is online and every online worker's
  reservations have reached three times its slots (a product that wraps to a non-positive number
  counts as not reached); the status does not depend on the iteration order and is the one later
  heartbeats are given.
\<close>

theorem RefreshBackpressureStatus_exact:
  assumes "enumerates (wr_byID r) ord" and "int (length ord) < 2 ^ 63"
  shows "bp_Active (fst (RefreshBackpressureStatus ord r)) =
      ((\<exists>w\<in>ran (wr_byID r). w_Online w)
       \<and> (\<forall>w\<in>ran (wr_byID r). w_Online w \<longrightarrow>
            0 < mul64 (w_TotalSlots w) 3 \<and> mul64 (w_TotalSlots w) 3 \<le> w_ReservedSlots w))
    \<and> GetBackpressureStatus (snd (RefreshBackpressureStatus ord r)) = fst (RefreshBackpressureStatus ord r)
    \<and> wr_byID (snd (RefreshBackpressureStatus ord r)) = wr_byID r"
proof -
  let ?ws = "List.map_filter (wr_byID r) ord"
  have set: "set ?ws = ran (wr_byID r)"
    using enumerates_values [OF assms(1)] by blast
  have "length ?ws \<le> length ord" for m
    by (simp add: map_filter_def)
  with assms(2) have "int (length ?ws) < 2 ^ 63" by (simp add: le_less_trans)
  then have bl: "backpressure_loop ?ws (0, True) =
     (int (length (filter w_Online ?ws)),
      \<forall>w\<in>ran (wr_byID r). w_Online w \<longrightarrow> 0 < worker_threshold w \<and> worker_threshold w \<le> w_ReservedSlots w)"
    using backpressure_loop_eq [of 0 ?ws True] set by simp
  have "0 < length (filter w_Online ?ws) \<longleftrightarrow> (\<exists>w\<in>ran (wr_byID r). w_Online w)"
    using set by (auto simp: filter_empty_conv)
  then show ?thesis
    by (simp add: RefreshBackpressureStatus_def GetBackpressureStatus_def bl Let_def worker_threshold_def
        backpressureBusyThresholdMultiplier_def)
qed

theorem RefreshBackpressureStatus_exact_witness:
  "\<not> bp_Active (fst (RefreshBackpressureStatus [''b'', ''a''] ex_registry))"
proof -
  have "\<not> (\<forall>w\<in>ran (wr_byID ex_registry). w_Online w \<longrightarrow>
      0 < mul64 (w_TotalSlots w) 3 \<and> mul64 (w_TotalSlots w) 3 \<le> w_ReservedSlots w)"
    by (simp add: ran_def ex_registry_byID ex_worker_def mul64_eq in64_def)
      (rule exI [of _ "ex_worker ''a'' 2 1 50"], auto simp: ex_worker_def mul64_eq in64_def)
  then show ?thesis
    using RefreshBackpressureStatus_exact [OF ex_registry_order] by simp
qed

end
