(* ===== verification/Registry_Reserve.thy ===== *)
theory Registry_Reserve
  imports Registry_Spec
begin

text \<open>
  The reservations: which worker each picker returns, what it writes, and how a failed or
  finished reservation is given back. \<open>slots_of\<close> and \<open>disk_of\<close> are the two counters Entry keeps
  per worker (0 for an unknown worker).
\<close>

definition slots_of :: "WorkerRegistry \<Rightarrow> string \<Rightarrow> int" where
  "slots_of r k = (case wr_byID r k of None \<Rightarrow> 0 | Some w \<Rightarrow> w_ReservedSlots w)"

definition disk_of :: "WorkerRegistry \<Rightarrow> string \<Rightarrow> int" where
  "disk_of r k = (case wr_byID r k of None \<Rightarrow> 0 | Some w \<Rightarrow> w_ReservedDiskBytes w)"

lemma slots_of_cases:
  "wr_byID r k = None \<Longrightarrow> slots_of r k = 0" "wr_byID r k = Some w \<Longrightarrow> slots_of r k = w_ReservedSlots w"
  "wr_byID r k = None \<Longrightarrow> disk_of r k = 0" "wr_byID r k = Some w \<Longrightarrow> disk_of r k = w_ReservedDiskBytes w"
  by (simp_all add: slots_of_def disk_of_def)

lemma slots_of_set_worker [simp]:
  "slots_of (set_worker r k w) j = (if j = k then w_ReservedSlots w else slots_of r j)"
  by (simp add: slots_of_def)

lemma disk_of_set_worker [simp]:
  "disk_of (set_worker r k w) j = (if j = k then w_ReservedDiskBytes w else disk_of r j)"
  by (simp add: disk_of_def)

lemma wf_slots_in64: "wf_registry r \<Longrightarrow> in64 (slots_of r k)"
  by (auto simp: slots_of_def wf_worker_def split: option.splits dest: wf_registryD(4))

subsection \<open>The least busy worker\<close>

lemma inj_on_w_ID: "wf_registry r \<Longrightarrow> inj_on w_ID (set (List.map_filter (wr_byID r) ks))"
proof (rule inj_onI)
  fix x y
  assume wf: "wf_registry r" and x: "x \<in> set (List.map_filter (wr_byID r) ks)"
    and y: "y \<in> set (List.map_filter (wr_byID r) ks)" and "w_ID x = w_ID y"
  then show "x = y"
    using map_filter_worker [OF wf x] map_filter_worker [OF wf y] by (metis option.inject)
qed

lemma select_least_busy_scan:
  assumes "wf_registry r" and "enumerates (wr_byID r) ord"
  shows "select_least_busy t fb ord r = scan (can_run t) (less_busy fb) (List.map_filter (wr_byID r) ord)"
proof (cases "scan (can_run t) (less_busy fb) (List.map_filter (wr_byID r) ord)")
  case None
  then have "\<not> can_run t w" if "wr_byID r k = Some w" for k w
    using that enumerates_values [OF assms(2)] by (auto simp: busy.scan_None ran_def)
  with None show ?thesis
    by (auto simp: select_least_busy_def fold_least_busy can_run_def split: option.splits)
next
  case (Some b)
  then show ?thesis by (simp add: select_least_busy_def fold_least_busy)
qed

text \<open>
  C34. \<open>ReserveLeastBusyWorker\<close> fails only when no online worker supports the task. Otherwise it
  adds one reservation to a capable worker, and that worker is the source worker only if no
  other is capable; among the others it is the one with the fewest reservations, the smaller
  identifier breaking ties.
\<close>

theorem ReserveLeastBusyWorker_least:
  assumes "wf_registry r" and "enumerates (wr_byID r) ord"
  shows "case ReserveLeastBusyWorker t fb ord now r of
      (None, r') \<Rightarrow> r' = r \<and> (\<forall>v\<in>ran (wr_byID r). \<not> (w_Online v \<and> Supports v t))
    | (Some w', r') \<Rightarrow> (\<exists>w. wr_byID r (w_ID w) = Some w \<and> w_Online w \<and> Supports w t
        \<and> w' = reserve_slots 1 now w \<and> r' = set_worker r (w_ID w) w'
        \<and> (\<forall>v\<in>ran (wr_byID r). w_Online v \<longrightarrow> Supports v t \<longrightarrow> w_ID v \<noteq> fb \<longrightarrow> w_ID v \<noteq> w_ID w \<longrightarrow>
             w_ID w \<noteq> fb \<and> (w_ReservedSlots w < w_ReservedSlots v
               \<or> w_ReservedSlots w = w_ReservedSlots v \<and> w_ID w < w_ID v)))"
proof -
  let ?ws = "List.map_filter (wr_byID r) ord"
  have ran: "v \<in> set ?ws \<longleftrightarrow> v \<in> ran (wr_byID r)" for v
    by (rule enumerates_values [OF assms(2)])
  show ?thesis
  proof (cases "select_least_busy t fb ord r")
    case None
    then have "scan (can_run t) (less_busy fb) ?ws = None"
      by (simp add: select_least_busy_scan [OF assms])
    with None ran show ?thesis
      by (auto simp: ReserveLeastBusyWorker_def busy.scan_None can_run_def)
  next
    case (Some b)
    then have sc: "scan (can_run t) (less_busy fb) ?ws = Some b"
      by (simp add: select_least_busy_scan [OF assms])
    note mem = select_least_busy_mem [OF assms(1) Some]
    have "less_busy fb b v"
      if "v \<in> ran (wr_byID r)" "w_Online v" "Supports v t" "w_ID v \<noteq> w_ID b" for v
      using busy.scan_Some_best [OF sc] that ran by (auto simp: can_run_def)
    with Some mem show ?thesis
      by (auto simp: ReserveLeastBusyWorker_def Let_def can_run_def less_busy_def
          intro!: exI [of _ b])
  qed
qed

lemma ex_less_busy_ab: "''a'' < ''b''"
  by (simp add: less_char_def)

theorem ReserveLeastBusyWorker_least_witness:
  "\<exists>w r'. ReserveLeastBusyWorker TaskTypeProcessSegment ''b'' [''b'', ''a''] 5 ex_registry = (Some w, r')
     \<and> w_ID w = ''a''"
proof -
  note T = ReserveLeastBusyWorker_least [OF ex_registry_wf ex_registry_order,
      where t = TaskTypeProcessSegment and fb = "''b''" and now = 5]
  have a: "ex_worker ''a'' 2 1 50 \<in> ran (wr_byID ex_registry)"
    by (rule ranI [of _ "''a''"]) (simp add: ex_registry_byID)
  obtain res r' where R: "ReserveLeastBusyWorker TaskTypeProcessSegment ''b'' [''b'', ''a''] 5 ex_registry = (res, r')"
    by (cases "ReserveLeastBusyWorker TaskTypeProcessSegment ''b'' [''b'', ''a''] 5 ex_registry")
  show ?thesis
  proof (cases res)
    case None
    with T R a have "\<not> (w_Online (ex_worker ''a'' 2 1 50) \<and> Supports (ex_worker ''a'' 2 1 50) TaskTypeProcessSegment)"
      by simp
    then show ?thesis by (simp add: ex_worker_def)
  next
    case (Some w')
    with T R obtain w where w: "w' = reserve_slots 1 5 w"
      and best: "\<forall>v\<in>ran (wr_byID ex_registry). w_Online v \<longrightarrow> Supports v TaskTypeProcessSegment \<longrightarrow>
        w_ID v \<noteq> ''b'' \<longrightarrow> w_ID v \<noteq> w_ID w \<longrightarrow> w_ID w \<noteq> ''b'' \<and> (w_ReservedSlots w < w_ReservedSlots v
               \<or> w_ReservedSlots w = w_ReservedSlots v \<and> w_ID w < w_ID v)"
      and mem: "wr_byID ex_registry (w_ID w) = Some w"
      by auto
    have "w_ID w = ''a''"
    proof (rule ccontr)
      assume "w_ID w \<noteq> ''a''"
      with best a have "w_ID w \<noteq> ''b''" by (fastforce simp: ex_worker_def)
      with mem \<open>w_ID w \<noteq> ''a''\<close> show False by (simp add: ex_registry_byID split: if_splits)
    qed
    with Some R w show ?thesis by simp
  qed
qed

text \<open>
  The choice is deterministic although Go randomises the iteration order: two iterations of
  the same registry, in any orders, reserve the same slot of the same worker; so does the pick
  of an assembly worker by disk.
\<close>

theorem pickers_order_irrelevant:
  assumes "wf_registry r" and "enumerates (wr_byID r) ord1" and "enumerates (wr_byID r) ord2"
  shows "ReserveLeastBusyWorker t fb ord1 now r = ReserveLeastBusyWorker t fb ord2 now r
    \<and> PickWorkerForDiskReservation t d ord1 now r = PickWorkerForDiskReservation t d ord2 now r"
proof -
  have set: "set (List.map_filter (wr_byID r) ord1) = set (List.map_filter (wr_byID r) ord2)"
    using enumerates_values [OF assms(2)] enumerates_values [OF assms(3)] by blast
  note inj = inj_on_w_ID [OF assms(1), of ord1]
  show ?thesis
    using busy.scan_order_irrelevant [OF set inj, of t fb]
      disk.scan_order_irrelevant [OF set inj, of t d]
    by (simp add: ReserveLeastBusyWorker_def PickWorkerForDiskReservation_def fold_pick_disk
        select_least_busy_scan [OF assms(1,2)] select_least_busy_scan [OF assms(1,3)])
qed

theorem pickers_order_irrelevant_witness:
  "ReserveLeastBusyWorker TaskTypeProcessSegment ''b'' [''b'', ''a''] 5 ex_registry
   = ReserveLeastBusyWorker TaskTypeProcessSegment ''b'' [''a'', ''b''] 5 ex_registry"
proof -
  have "enumerates (wr_byID ex_registry) [''a'', ''b'']"
    by (auto simp: enumerates_def ex_registry_byID)
  from pickers_order_irrelevant [OF ex_registry_wf ex_registry_order this] show ?thesis by simp
qed

subsection \<open>The assembly worker\<close>

text \<open>
  C35. \<open>PickWorkerForDiskReservation\<close> fails only when no capable worker has the disk. Otherwise
  the worker has it, no other such worker has fewer reservations (nor as few and more
  schedulable disk), the request is added to its reserved disk, and its disk is never
  over-committed: the new reservation still fits the free disk it reported.
\<close>

theorem PickWorkerForDiskReservation_fits:
  assumes "wf_registry r" and "enumerates (wr_byID r) ord" and "0 \<le> d"
    and "\<forall>w\<in>ran (wr_byID r). 0 \<le> w_DiskFreeBytes w \<and> 0 \<le> w_ReservedDiskBytes w"
  shows "case PickWorkerForDiskReservation t d ord now r of
      (None, r') \<Rightarrow> r' = r
        \<and> (\<forall>v\<in>ran (wr_byID r). w_Online v \<longrightarrow> Supports v t \<longrightarrow> w_DiskFreeBytes v - w_ReservedDiskBytes v < d)
    | (Some w', r') \<Rightarrow> (\<exists>w. wr_byID r (w_ID w) = Some w \<and> w_Online w \<and> Supports w t
        \<and> w' = reserve_disk d now w \<and> r' = set_worker r (w_ID w) w'
        \<and> w_ReservedDiskBytes w' = w_ReservedDiskBytes w + d
        \<and> w_ReservedDiskBytes w' \<le> w_DiskFreeBytes w'
        \<and> (\<forall>v\<in>ran (wr_byID r). w_Online v \<longrightarrow> Supports v t \<longrightarrow>
             d \<le> w_DiskFreeBytes v - w_ReservedDiskBytes v \<longrightarrow> w_ID v \<noteq> w_ID w \<longrightarrow>
             w_ReservedSlots w < w_ReservedSlots v \<or> w_ReservedSlots w = w_ReservedSlots v
               \<and> w_DiskFreeBytes v - w_ReservedDiskBytes v \<le> w_DiskFreeBytes w - w_ReservedDiskBytes w))"
proof -
  let ?ws = "List.map_filter (wr_byID r) ord"
  have ran: "v \<in> set ?ws \<longleftrightarrow> v \<in> ran (wr_byID r)" for v
    by (rule enumerates_values [OF assms(2)])
  have sched: "schedulableDisk v = w_DiskFreeBytes v - w_ReservedDiskBytes v"
    if "v \<in> ran (wr_byID r)" for v
  proof -
    from that obtain k where k: "wr_byID r k = Some v" by (auto simp: ran_def)
    from wf_registryD(4) [OF assms(1) k] assms(4) that show ?thesis
      by (auto simp: schedulableDisk_def wf_worker_def in64_def intro!: sub64_eq)
  qed
  show ?thesis
  proof (cases "fold (pick_disk_step t d) ?ws None")
    case None
    then have "\<not> has_disk t d v" if "v \<in> ran (wr_byID r)" for v
      using that ran by (simp add: fold_pick_disk disk.scan_None)
    with None sched show ?thesis
      by (fastforce simp: PickWorkerForDiskReservation_def has_disk_def can_run_def)
  next
    case (Some b)
    then have sc: "scan (has_disk t d) disk_better ?ws = Some b" by (simp add: fold_pick_disk)
    note mem = pick_disk_mem [OF assms(1) Some]
    then have b: "b \<in> ran (wr_byID r)" by (auto intro: ranI)
    have fit: "d \<le> w_DiskFreeBytes b - w_ReservedDiskBytes b"
      using mem(2) sched [OF b] by (simp add: has_disk_def)
    have "add64 (w_ReservedDiskBytes b) d = w_ReservedDiskBytes b + d"
      using fit assms(3,4) b wf_registryD(4) [OF assms(1) mem(1)]
      by (auto simp: wf_worker_def in64_def intro!: add64_eq)
    moreover have "disk_better b v"
      if "v \<in> ran (wr_byID r)" "w_Online v" "Supports v t"
        "d \<le> w_DiskFreeBytes v - w_ReservedDiskBytes v" "w_ID v \<noteq> w_ID b" for v
      using disk.scan_Some_best [OF sc] that ran sched by (auto simp: has_disk_def can_run_def)
    moreover have "w_ReservedSlots b < w_ReservedSlots v \<or> w_ReservedSlots b = w_ReservedSlots v
        \<and> w_DiskFreeBytes v - w_ReservedDiskBytes v \<le> w_DiskFreeBytes b - w_ReservedDiskBytes b"
      if "v \<in> ran (wr_byID r)" "disk_better b v" for v
      using that sched [OF b] sched [of v] by (auto simp: disk_better_def)
    ultimately show ?thesis
      using Some mem fit b
      by (auto simp: PickWorkerForDiskReservation_def Let_def has_disk_def can_run_def
          intro!: exI [of _ b])
  qed
qed

theorem PickWorkerForDiskReservation_fits_witness:
  "\<exists>w r'. PickWorkerForDiskReservation TaskTypeAssembleGIF 700 [''b'', ''a''] 5 ex_registry = (Some w, r')
     \<and> w_ReservedDiskBytes w \<le> w_DiskFreeBytes w"
proof -
  have pos: "\<forall>w\<in>ran (wr_byID ex_registry). 0 \<le> w_DiskFreeBytes w \<and> 0 \<le> w_ReservedDiskBytes w"
    by (auto simp: ran_def ex_registry_byID ex_worker_def split: if_splits)
  note T = PickWorkerForDiskReservation_fits [OF ex_registry_wf ex_registry_order _ pos,
      where d = 700 and t = TaskTypeAssembleGIF and now = 5, simplified]
  have a: "ex_worker ''a'' 2 1 50 \<in> ran (wr_byID ex_registry)"
    by (rule ranI [of _ "''a''"]) (simp add: ex_registry_byID)
  obtain res r' where R: "PickWorkerForDiskReservation TaskTypeAssembleGIF 700 [''b'', ''a''] 5 ex_registry = (res, r')"
    by (cases "PickWorkerForDiskReservation TaskTypeAssembleGIF 700 [''b'', ''a''] 5 ex_registry")
  show ?thesis
  proof (cases res)
    case None
    with T R a have "w_DiskFreeBytes (ex_worker ''a'' 2 1 50) - w_ReservedDiskBytes (ex_worker ''a'' 2 1 50) < 700"
      by (auto simp: ex_worker_def)
    then show ?thesis by (simp add: ex_worker_def)
  next
    case (Some w')
    with T R show ?thesis by auto
  qed
qed

subsection \<open>All or nothing\<close>

text \<open>What a worker contributes to a bulk reservation: its positive free slots, if it can run
  the task.\<close>

definition free_for :: "TaskType \<Rightarrow> Worker \<Rightarrow> int" where
  "free_for t w = (if can_run t w then max 0 (w_FreeSlots w) else 0)"

lemma free_for_nonneg: "0 \<le> free_for t w"
  by (simp add: free_for_def)

lemma free_for_reserve:
  assumes "wf_worker w" and "has_free t w"
  shows "free_for t (reserve_slots 1 now w) = free_for t w - 1"
proof -
  have on: "w_Online w" and pos: "0 < w_FreeSlots w" and run: "can_run t w"
    using assms(2) by (auto simp: has_free_def can_run_def)
  have f: "w_FreeSlots w = wrap64 (w_TotalSlots w - w_ReservedSlots w)"
    using assms(1) on by (simp add: wf_worker_def calculateFreeSlots_def sub64_def)
  have "w_FreeSlots (reserve_slots 1 now w) = wrap64 (w_FreeSlots w - 1)"
    by (simp add: f reserve_slots_def calculateFreeSlots_def sub64_def add64_def algebra_simps)
  also have "\<dots> = w_FreeSlots w - 1"
    using pos wrap64_in64 [of "w_TotalSlots w - w_ReservedSlots w"] f
    by (intro wrap64_id) (simp add: in64_def)
  finally show ?thesis
    using run pos by (simp add: free_for_def can_run_def)
qed

lemma no_free_sum:
  assumes "enumerates (wr_byID r) ks"
    and "fold (pick_free_step t) (List.map_filter (wr_byID r) ks) None = None"
  shows "msum (free_for t) (wr_byID r) = 0"
proof -
  have "free_for t w = 0" if "wr_byID r k = Some w" for k w
    using assms(2) that enumerates_values [OF assms(1)]
    by (auto simp: fold_pick_free free.scan_None has_free_def free_for_def ran_def)
  then have "msum (free_for t) (wr_byID r) = msum (\<lambda>_. 0) (wr_byID r)"
    by (rule msum_cong_None)
  then show ?thesis by (simp add: msum_def)
qed

lemma pick_workers_loop_ok:
  assumes "wf_registry r" and "\<And>i. enumerates (wr_byID r) (ord i)"
  shows "snd (fst (pick_workers_loop t n ord clock sel r)) \<longleftrightarrow> int n \<le> msum (free_for t) (wr_byID r)"
  using assms
proof (induction n arbitrary: sel r)
  case 0
  then show ?case by (simp add: msum_nonneg free_for_nonneg)
next
  case (Suc n)
  show ?case
  proof (cases "fold (pick_free_step t) (List.map_filter (wr_byID r) (ord n)) None")
    case None
    with no_free_sum [OF Suc.prems(2) None] show ?thesis by (simp add: Let_def)
  next
    case (Some b)
    note b = pick_free_mem [OF Suc.prems(1) Some]
    let ?r = "set_worker r (w_ID b) (reserve_slots 1 (clock n) b)"
    have hf: "has_free t b" using Some free.scan_Some(1) by (simp add: fold_pick_free)
    have wf: "wf_registry ?r" using Suc.prems(1) b(1) by (rule wf_reserve_slots_of)
    have "dom (wr_byID ?r) = dom (wr_byID r)" using b(1) by auto
    then have en: "enumerates (wr_byID ?r) (ord i)" for i
      using Suc.prems(2) [of i] by (simp add: enumerates_def)
    have "msum (free_for t) (wr_byID ?r) = msum (free_for t) (wr_byID r) - 1"
      using b(1) hf wf_registryD(4) [OF Suc.prems(1) b(1)] wf_registry_finite [OF Suc.prems(1)]
      by (simp add: msum_upd free_for_reserve)
    moreover have "snd (fst (pick_workers_loop t n ord clock (sel @ [w_ID b]) ?r))
        \<longleftrightarrow> int n \<le> msum (free_for t) (wr_byID ?r)"
      using wf en by (rule Suc.IH)
    ultimately show ?thesis using Some by (simp del: set_worker_simps) linarith
  qed
qed

lemma slots_of_with_worker:
  "slots_of (with_worker k f r) j =
     (if j = k then (case wr_byID r k of None \<Rightarrow> 0 | Some w \<Rightarrow> w_ReservedSlots (f w)) else slots_of r j)"
  by (auto simp: with_worker_def slots_of_def split: option.splits)

lemma disk_of_with_worker:
  "disk_of (with_worker k f r) j =
     (if j = k then (case wr_byID r k of None \<Rightarrow> 0 | Some w \<Rightarrow> w_ReservedDiskBytes (f w)) else disk_of r j)"
  by (auto simp: with_worker_def disk_of_def split: option.splits)

lemma dom_with_worker [simp]: "dom (wr_byID (with_worker k f r)) = dom (wr_byID r)"
  by (auto simp: with_worker_def split: option.splits)

lemma rollback_selected_slots:
  "set ks \<subseteq> dom (wr_byID r) \<Longrightarrow>
   wrap64 (slots_of (rollback_selected ks r) j) = wrap64 (slots_of r j - int (count_list ks j))"
proof (induction ks arbitrary: r)
  case Nil
  then show ?case by simp
next
  case (Cons k ks)
  then obtain w where "wr_byID r k = Some w" by auto
  then have "wrap64 (slots_of (with_worker k unreserve_slot r) j - n)
      = wrap64 (slots_of r j - (if j = k then 1 else 0) - n)" for n
    by (simp add: slots_of_with_worker slots_of_cases unreserve_slot_def sub64_def)
  with Cons show ?case by (auto simp: algebra_simps)
qed

lemma dom_rollback_selected [simp]: "dom (wr_byID (rollback_selected ks r)) = dom (wr_byID r)"
  by (induction ks r rule: rollback_selected.induct) simp_all

lemma map_filter_length: "set ks \<subseteq> dom m \<Longrightarrow> length (List.map_filter m ks) = length ks"
  by (induction ks) auto

lemma pick_workers_loop_slots:
  assumes "wf_registry r" and "set sel \<subseteq> dom (wr_byID r)"
  shows "\<exists>more. set more \<subseteq> dom (wr_byID r) \<and>
    (case pick_workers_loop t n ord clock sel r of
      ((ws, ok), r') \<Rightarrow>
        dom (wr_byID r') = dom (wr_byID r)
        \<and> (ok \<longrightarrow> length more = n \<and> ws = cloneWorkers (sel @ more) r'
            \<and> (\<forall>j. wrap64 (slots_of r' j) = wrap64 (slots_of r j + int (count_list more j))))
        \<and> (\<not> ok \<longrightarrow> (\<forall>j. wrap64 (slots_of r' j) = wrap64 (slots_of r j - int (count_list sel j)))))"
  using assms
proof (induction n arbitrary: sel r)
  case 0
  then show ?case by (intro exI [of _ "[]"]) simp
next
  case (Suc n)
  show ?case
  proof (cases "fold (pick_free_step t) (List.map_filter (wr_byID r) (ord n)) None")
    case None
    with Suc.prems(2) show ?thesis
      by (intro exI [of _ "[]"]) (simp add: Let_def rollback_selected_slots)
  next
    case (Some b)
    note b = pick_free_mem [OF Suc.prems(1) Some]
    let ?r = "set_worker r (w_ID b) (reserve_slots 1 (clock n) b)"
    have wf: "wf_registry ?r" using Suc.prems(1) b(1) by (rule wf_reserve_slots_of)
    have dom: "dom (wr_byID ?r) = dom (wr_byID r)" using b(1) by auto
    have upd: "wrap64 (slots_of ?r j + i) = wrap64 (slots_of r j + (if j = w_ID b then 1 else 0) + i)" for j i
      using b(1) by (simp add: slots_of_cases add64_def del: set_worker_simps)
    have upd': "wrap64 (slots_of ?r j - i) = wrap64 (slots_of r j + (if j = w_ID b then 1 else 0) - i)" for j i
      using upd [of j "- i"] by (simp only: add_uminus_conv_diff)
    have "set (sel @ [w_ID b]) \<subseteq> dom (wr_byID ?r)" using Suc.prems(2) b(1) by auto
    note ih = Suc.IH [OF wf this]
    obtain ws ok r' where L: "pick_workers_loop t n ord clock (sel @ [w_ID b]) ?r = ((ws, ok), r')"
      by (metis prod.exhaust)
    have L': "pick_workers_loop t (Suc n) ord clock sel r = ((ws, ok), r')"
      using Some L by simp
    from ih [unfolded L prod.case] obtain more where
      more: "set more \<subseteq> dom (wr_byID ?r)"
      and dom': "dom (wr_byID r') = dom (wr_byID ?r)"
      and ok: "ok \<longrightarrow> length more = n \<and> ws = cloneWorkers ((sel @ [w_ID b]) @ more) r'
          \<and> (\<forall>j. wrap64 (slots_of r' j) = wrap64 (slots_of ?r j + int (count_list more j)))"
      and no: "\<not> ok \<longrightarrow> (\<forall>j. wrap64 (slots_of r' j) = wrap64 (slots_of ?r j - int (count_list (sel @ [w_ID b]) j)))"
      by (elim exE conjE) (rule that; assumption)
    note ok = ok [THEN mp] and no = no [THEN mp]
    have "wrap64 (slots_of r' j) = wrap64 (slots_of r j + int (count_list (w_ID b # more) j))" if ok for j
    proof -
      have "slots_of r j + (if j = w_ID b then 1 else 0) + int (count_list more j)
          = slots_of r j + int (count_list (w_ID b # more) j)"
        by simp
      with ok [OF that] upd [of j "int (count_list more j)"] show ?thesis by metis
    qed
    moreover have "wrap64 (slots_of r' j) = wrap64 (slots_of r j - int (count_list sel j))" if "\<not> ok" for j
    proof -
      have "slots_of r j + (if j = w_ID b then 1 else 0) - int (count_list (sel @ [w_ID b]) j)
          = slots_of r j - int (count_list sel j)"
        by simp
      with no [OF that] upd' [of j "int (count_list (sel @ [w_ID b]) j)"] show ?thesis by metis
    qed
    moreover have "set (w_ID b # more) \<subseteq> dom (wr_byID r)" using more b(1) dom by auto
    moreover have "ws = cloneWorkers (sel @ w_ID b # more) r' \<and> length (w_ID b # more) = Suc n" if ok
      using ok [OF that] by (simp only: append_assoc append_Cons append_Nil list.size add_0_right add_Suc_right)
    moreover have "dom (wr_byID r') = dom (wr_byID r)" using dom' dom by (rule trans)
    ultimately show ?thesis
      unfolding L' prod.case by blast
  qed
qed

text \<open>
  \<open>PickWorkersForReservation\<close> is all or nothing. It succeeds exactly when the free slots of
  the capable workers add up to the request; then it returns one worker per slot and every
  worker's reservations grow by the number of its occurrences. When it fails, every worker's
  reservations are what they were.
\<close>

theorem PickWorkersForReservation_all_or_nothing:
  assumes "wf_registry r" and "\<forall>i. enumerates (wr_byID r) (ord i)" and "0 < c"
  shows "case PickWorkersForReservation t c ord clock r of
      ((ws, ok), r') \<Rightarrow>
        (ok \<longleftrightarrow> c \<le> msum (free_for t) (wr_byID r))
        \<and> (if ok then \<exists>ids. length ids = nat c \<and> ws = map (\<lambda>k. the (wr_byID r' k)) ids
              \<and> (\<forall>k. slots_of r' k = wrap64 (slots_of r k + int (count_list ids k)))
            else \<forall>k. slots_of r' k = slots_of r k)"
proof -
  obtain ws ok r' where L: "pick_workers_loop t (nat c) ord clock [] r = ((ws, ok), r')"
    by (metis prod.exhaust)
  have wf': "wf_registry r'"
    using wf_pick_workers_loop [OF assms(1), of t "nat c" ord clock "[]"] L by simp
  note id' = wrap64_id [OF wf_slots_in64 [OF wf']] and id = wrap64_id [OF wf_slots_in64 [OF assms(1)]]
  have ok: "ok \<longleftrightarrow> c \<le> msum (free_for t) (wr_byID r)"
    using pick_workers_loop_ok [OF assms(1), of ord t "nat c" clock "[]"] assms(2,3) L by simp
  obtain more where more: "set more \<subseteq> dom (wr_byID r)" and dom: "dom (wr_byID r') = dom (wr_byID r)"
    and y: "ok \<longrightarrow> length more = nat c \<and> ws = cloneWorkers more r'
        \<and> (\<forall>j. wrap64 (slots_of r' j) = wrap64 (slots_of r j + int (count_list more j)))"
    and n: "\<not> ok \<longrightarrow> (\<forall>j. wrap64 (slots_of r' j) = wrap64 (slots_of r j))"
    using pick_workers_loop_slots [OF assms(1), where sel = "[]" and t = t and n = "nat c" and ord = ord
        and clock = clock] L by auto
  have clone: "cloneWorkers ks r' = map (\<lambda>k. the (wr_byID r' k)) ks" if "set ks \<subseteq> dom (wr_byID r')" for ks
    using that by (induction ks) (auto simp: cloneWorkers_def)
  from L assms(3) ok y n more dom clone [of more] show ?thesis
    by (auto simp: PickWorkersForReservation_def id id' split: if_splits)
qed

theorem PickWorkersForReservation_all_or_nothing_witness:
  "\<not> snd (fst (PickWorkersForReservation TaskTypeProcessSegment 6 (\<lambda>_. [''b'', ''a'']) (\<lambda>_. 0) ex_registry))
   \<and> snd (fst (PickWorkersForReservation TaskTypeProcessSegment 5 (\<lambda>_. [''b'', ''a'']) (\<lambda>_. 0) ex_registry))"
proof -
  have "msum (free_for TaskTypeProcessSegment) (wr_byID ex_registry) = 5"
    by (simp add: ex_registry_byID msum_upd ex_worker_def free_for_def can_run_def)
  then show ?thesis
    using PickWorkersForReservation_all_or_nothing [OF ex_registry_wf, of "\<lambda>_. [''b'', ''a'']" 6
        TaskTypeProcessSegment "\<lambda>_. 0"]
      PickWorkersForReservation_all_or_nothing [OF ex_registry_wf, of "\<lambda>_. [''b'', ''a'']" 5
        TaskTypeProcessSegment "\<lambda>_. 0"] ex_registry_order
    by (simp split: prod.splits)
qed

subsection \<open>Release\<close>

lemma ReleaseReservations_counters:
  assumes "wf_registry r" and "0 \<le> slots_of r k"
  shows "slots_of (ReleaseReservations ks now r) k = max 0 (slots_of r k - int (count_list ks k))
    \<and> disk_of (ReleaseReservations ks now r) k = disk_of r k
    \<and> dom (wr_byID (ReleaseReservations ks now r)) = dom (wr_byID r)"
  using assms
proof (induction ks now r rule: ReleaseReservations.induct)
  case (1 now r)
  then show ?case by simp
next
  case (2 j ks now r)
  let ?r = "with_worker j (release_worker now) r"
  have wf: "wf_registry ?r" using 2(2) by (simp add: wf_with_worker wf_release_worker)
  have "slots_of ?r k = (if j = k then max 0 (slots_of r k - 1) else slots_of r k)"
    using 2(3) wf_slots_in64 [OF 2(2), of k]
    by (cases "wr_byID r k") (auto simp: slots_of_with_worker slots_of_cases release_worker_def Let_def
        in64_def sub64_eq)
  moreover have "disk_of ?r k = disk_of r k"
    by (cases "wr_byID r k") (auto simp: disk_of_with_worker slots_of_cases)
  ultimately show ?case using 2(1) [OF wf] 2(3) by auto
qed

text \<open>
  \<open>ReleaseReservations\<close> takes one reservation from a worker per occurrence in the list,
  never below zero, and touches no other counter; unknown identifiers are skipped.
\<close>

theorem ReleaseReservations_clamped:
  assumes "wf_registry r" and "0 \<le> slots_of r k"
  shows "slots_of (ReleaseReservations ks now r) k = max 0 (slots_of r k - int (count_list ks k))
    \<and> disk_of (ReleaseReservations ks now r) k = disk_of r k
    \<and> dom (wr_byID (ReleaseReservations ks now r)) = dom (wr_byID r)"
  by (rule ReleaseReservations_counters [OF assms])

theorem ReleaseReservations_clamped_witness:
  "slots_of (ReleaseReservations [''a'', ''zz'', ''a''] 9 ex_registry) ''a'' = 0"
  using ReleaseReservations_clamped [OF ex_registry_wf, of "''a''" "[''a'', ''zz'', ''a'']" 9]
  by (simp add: slots_of_def ex_registry_byID ex_worker_def)

end
