(* ===== verification/Job_Create.thy ===== *)
theory Job_Create
  imports Job_Assembly Registry_Reserve
begin

text \<open>
  Job creation. \<open>slot_ledger\<close> is what \<open>create_tasks\<close> relies on: an assignment adds one
  reservation to the worker it returns, a failed one changes nothing, and a release takes back
  one per occurrence. It is interpreted on the registry's \<open>assignSegmentWorker\<close> and
  \<open>ReleaseReservations\<close>.
\<close>

subsection \<open>The registry as a ledger of slots\<close>

text \<open>More reservations than this never fit in memory; below it the counters do not wrap.\<close>

definition slot_limit :: int where "slot_limit = 2 ^ 62"

locale slot_ledger =
  fixes assign :: "Env \<Rightarrow> TaskProcessingMode \<Rightarrow> 'r \<Rightarrow> Worker option \<times> 'r"
    and release :: "string list \<Rightarrow> int \<Rightarrow> 'r \<Rightarrow> 'r"
    and load :: "'r \<Rightarrow> string \<Rightarrow> int"
    and valid :: "'r \<Rightarrow> bool"
  assumes assign_None: "valid r \<Longrightarrow> assign e mode r = (None, r') \<Longrightarrow> r' = r"
    and assign_valid: "valid r \<Longrightarrow> assign e mode r = (Some w, r') \<Longrightarrow> load r (w_ID w) < slot_limit \<Longrightarrow> valid r'"
    and assign_load: "valid r \<Longrightarrow> assign e mode r = (Some w, r') \<Longrightarrow> load r (w_ID w) < slot_limit \<Longrightarrow>
      load r' k = load r k + (if k = w_ID w then 1 else 0)"
    and load_nonneg: "valid r \<Longrightarrow> 0 \<le> load r k"
    and release_valid: "valid r \<Longrightarrow> valid (release ks now r)"
    and release_load: "valid r \<Longrightarrow> load (release ks now r) k = max 0 (load r k - int (count_list ks k))"
begin

lemma release_own:
  assumes "valid r" and "\<forall>k. load r k = base k + int (count_list ks k)" and "\<forall>k. 0 \<le> base k"
  shows "load (release ks now r) k = base k"
  using assms by (simp add: release_load)

text \<open>One iteration: the loads after it are the base plus the workers reserved so far.\<close>

lemma create_tasks_loads:
  assumes "valid r" and "\<forall>k. load r k = base k + int (count_list (tb_reserved b) k)"
    and "\<forall>k. 0 \<le> base k" and "\<forall>k. load r k + int (length plan) < slot_limit"
  shows "case create_tasks assign release jobID now req env plan b r of
      (Inl _, r') \<Rightarrow> valid r' \<and> (\<forall>k. load r' k = base k)
    | (Inr b', r') \<Rightarrow> valid r' \<and> (\<forall>k. load r' k = base k + int (count_list (tb_reserved b') k))"
  using assms
proof (induction plan arbitrary: env b r)
  case Nil
  then show ?case by simp
next
  case (Cons t plan)
  show ?case
  proof (cases "assign (env 0) (cjt_Mode t) r")
    case (Pair res r')
    show ?thesis
    proof (cases res)
      case None
      with Pair assign_None [OF Cons.prems(1)] have "r' = r" by blast
      with Pair None release_own [OF Cons.prems(1-3)] release_valid [OF Cons.prems(1)]
      show ?thesis by simp
    next
      case (Some w)
      note P = Pair [unfolded Some]
      from Cons.prems(4) have lim: "load r (w_ID w) < slot_limit" by (auto dest: spec [of _ "w_ID w"])
      note v = assign_valid [OF Cons.prems(1) P lim] and l = assign_load [OF Cons.prems(1) P lim]
      have loads: "\<forall>k. load r' k = base k + int (count_list (tb_reserved b @ [w_ID w]) k)"
        using l Cons.prems(2) by simp
      show ?thesis
      proof (cases "nextID ''task_'' (ev_draw (env 0))")
        case (Inl e)
        with P release_own [OF v loads Cons.prems(3)] release_valid [OF v] show ?thesis by simp
      next
        case (Inr taskID)
        let ?b = "\<lparr>tb_reserved = tb_reserved b @ [w_ID w],
            tb_tasks = tb_tasks b @ [new_segment_task taskID jobID t w now],
            tb_assignments = tb_assignments b @ [new_assignment taskID t w]\<rparr>"
        have "\<forall>k. load r' k + int (length plan) < slot_limit"
        proof
          fix k
          show "load r' k + int (length plan) < slot_limit"
            using l [of k] Cons.prems(4) [rule_format, of k] by (simp split: if_splits)
        qed
        then have "case create_tasks assign release jobID now req (\<lambda>n. env (Suc n)) plan ?b r' of
            (Inl _, r') \<Rightarrow> valid r' \<and> (\<forall>k. load r' k = base k)
          | (Inr b', r') \<Rightarrow> valid r' \<and> (\<forall>k. load r' k = base k + int (count_list (tb_reserved b') k))"
          using Cons.IH [OF v, of ?b] loads Cons.prems(3) by simp
        with P Inr show ?thesis by simp
      qed
    qed
  qed
qed

end

subsection \<open>The concrete ledger\<close>

definition ledger_registry :: "WorkerRegistry \<Rightarrow> bool" where
  "ledger_registry r \<longleftrightarrow> wf_registry r \<and> (\<forall>k. 0 \<le> slots_of r k)"

lemma slots_of_reserve:
  assumes "wf_registry r" and "wr_byID r k = Some w" and "0 \<le> slots_of r k" and "slots_of r k < slot_limit"
  shows "slots_of (set_worker r k (reserve_slots 1 now w)) j = slots_of r j + (if j = k then 1 else 0)"
  using assms by (simp add: slots_of_cases add64_eq in64_def slot_limit_def)

lemma assignSegmentWorker_cases:
  assumes "wf_registry r"
  shows "case assignSegmentWorker src ev mode r of
      (None, r') \<Rightarrow> r' = r
    | (Some w', r') \<Rightarrow> \<exists>w. wr_byID r (w_ID w) = Some w \<and> w_Online w \<and> TaskTypeProcessSegment \<in> set (w_SupportedTasks w)
        \<and> w' = reserve_slots 1 (ev_now ev) w
        \<and> r' = set_worker r (w_ID w) w' \<and> (mode = TaskProcessingModeInternal \<longrightarrow> w_ID w = src)"
proof (cases mode)
  case TaskProcessingModeInternal
  show ?thesis
  proof (cases "wr_byID r src")
    case None
    with TaskProcessingModeInternal show ?thesis
      by (simp add: assignSegmentWorker_def ReserveWorkerSlots_def)
  next
    case (Some w)
    with TaskProcessingModeInternal wf_registryD(1) [OF assms Some] show ?thesis
      by (auto simp: assignSegmentWorker_def ReserveWorkerSlots_def Let_def)
  qed
next
  case TaskProcessingModeExternal
  show ?thesis
  proof (cases "select_least_busy TaskTypeProcessSegment src (ev_ord ev) r")
    case None
    with TaskProcessingModeExternal show ?thesis
      by (simp add: assignSegmentWorker_def ReserveLeastBusyWorker_def)
  next
    case (Some w)
    with TaskProcessingModeExternal select_least_busy_mem [OF assms Some] show ?thesis
      by (auto simp: assignSegmentWorker_def ReserveLeastBusyWorker_def Let_def can_run_def)
  qed
qed (simp add: assignSegmentWorker_def)

lemma assignSegmentWorker_Some:
  assumes "wf_registry r" and "assignSegmentWorker src ev mode r = (Some w', r')"
  obtains w where "wr_byID r (w_ID w) = Some w" "w_Online w" "TaskTypeProcessSegment \<in> set (w_SupportedTasks w)"
    "w' = reserve_slots 1 (ev_now ev) w" "w_ID w' = w_ID w" "r' = set_worker r (w_ID w) w'"
    "mode = TaskProcessingModeInternal \<longrightarrow> w_ID w = src"
  using assignSegmentWorker_cases [OF assms(1), where src = src and ev = ev and mode = mode] assms(2) by auto

interpretation slots: slot_ledger "assignSegmentWorker src" ReleaseReservations slots_of ledger_registry
proof
  fix r e mode r' w k ks now
  assume r: "ledger_registry r"
  then have wf: "wf_registry r" and nn: "\<And>k. 0 \<le> slots_of r k" by (simp_all add: ledger_registry_def)
  show "r' = r" if "assignSegmentWorker src e mode r = (None, r')"
    using assignSegmentWorker_cases [OF wf, where src = src and ev = e and mode = mode] that by simp
  show load: "slots_of r' k = slots_of r k + (if k = w_ID w then 1 else 0)"
    if a: "assignSegmentWorker src e mode r = (Some w, r')" "slots_of r (w_ID w) < slot_limit" for k
  proof -
    from wf a(1) obtain u where u: "wr_byID r (w_ID u) = Some u" "w = reserve_slots 1 (ev_now e) u"
      "w_ID w = w_ID u" "r' = set_worker r (w_ID u) w"
      by (rule assignSegmentWorker_Some)
    have "slots_of (set_worker r (w_ID u) (reserve_slots 1 (ev_now e) u)) k = slots_of r k + (if k = w_ID u then 1 else 0)"
      using a(2) u(3) by (intro slots_of_reserve [OF wf u(1) nn]) simp
    with u show ?thesis by simp
  qed
  show "ledger_registry r'"
    if a: "assignSegmentWorker src e mode r = (Some w, r')" "slots_of r (w_ID w) < slot_limit"
  proof -
    from wf a(1) obtain u where u: "wr_byID r (w_ID u) = Some u" "w = reserve_slots 1 (ev_now e) u"
      "r' = set_worker r (w_ID u) w"
      by (rule assignSegmentWorker_Some)
    have "wf_registry r'" unfolding u(2,3) using wf u(1) by (rule wf_reserve_slots_of)
    moreover have "0 \<le> slots_of r' k" for k using load [OF a, of k] nn [of k] by simp
    ultimately show ?thesis by (simp add: ledger_registry_def)
  qed
  show "0 \<le> slots_of r k" by (rule nn)
  note rel = ReleaseReservations_counters [OF wf nn]
  show "slots_of (ReleaseReservations ks now r) k = max 0 (slots_of r k - int (count_list ks k))"
    using rel by simp
  show "ledger_registry (ReleaseReservations ks now r)"
    using rel wf_ReleaseReservations [OF wf] by (simp add: ledger_registry_def)
qed

subsection \<open>The task plan\<close>

lemma plan_modes_known_iff:
  "plan_modes_known ts \<longleftrightarrow>
     (\<forall>t\<in>set ts. cjt_Mode t = TaskProcessingModeInternal \<or> cjt_Mode t = TaskProcessingModeExternal)"
  by (induction ts) auto

lemma plan_loop_nth:
  "plan_loop n i mode = map (\<lambda>k. \<lparr>cjt_SegmentIndex = i + int k, cjt_Mode = mode\<rparr>) [0..<n]"
proof (induction n arbitrary: i)
  case 0
  then show ?case by simp
next
  case (Suc n)
  have "[0..<Suc n] = 0 # map Suc [0..<n]" by (metis map_Suc_upt upt_conv_Cons zero_less_Suc)
  with Suc show ?case by (simp add: comp_def algebra_simps del: upt_Suc)
qed

lemma createJobTaskPlan_nonempty: "createJobTaskPlan req = Inr plan \<Longrightarrow> plan \<noteq> []"
  by (auto simp: createJobTaskPlan_def plan_loop_nth split: if_splits)

lemma createJobTaskPlan_modes:
  "createJobTaskPlan req = Inr plan \<Longrightarrow> t \<in> set plan \<Longrightarrow>
   cjt_Mode t = TaskProcessingModeInternal \<or> cjt_Mode t = TaskProcessingModeExternal"
  by (auto simp: createJobTaskPlan_def plan_loop_nth plan_modes_known_iff split: if_splits)

lemma jobModeFromTaskPlan_iff:
  "jobModeFromTaskPlan plan =
     (if \<exists>t\<in>set plan. cjt_Mode t = TaskProcessingModeExternal then JobModeExternal else JobModeInternal)"
  by (induction plan) auto

subsection \<open>What the loop builds\<close>

text \<open>The task made for one entry of the plan, and the assignment the caller gets for it.\<close>

definition task_for :: "string \<Rightarrow> int \<Rightarrow> CreateJobTaskRequest \<Rightarrow> Task \<Rightarrow> bool" where
  "task_for jobID now taskReq t \<longleftrightarrow>
     t_JobID t = jobID \<and> t_Type t = TaskTypeProcessSegment \<and> t_Status t = TaskStatusAssigned
     \<and> t_SegmentIndex t = cjt_SegmentIndex taskReq \<and> t_ProcessingMode t = cjt_Mode taskReq
     \<and> t_RequiredDiskBytes t = 0 \<and> t_CreatedAt t = now"

definition assignment_for :: "Task \<Rightarrow> TaskAssignment" where
  "assignment_for t =
     \<lparr>ta_SegmentIndex = t_SegmentIndex t, ta_TaskID = t_ID t, ta_WorkerID = t_AssignedWorkerID t,
      ta_Address = (if t_ProcessingMode t = TaskProcessingModeInternal then []
                    else t_AssignedWorkerAddress t),
      ta_Mode = t_ProcessingMode t\<rparr>"

lemma new_segment_task_props:
  "task_for jobID now q (new_segment_task taskID jobID q w now)"
  "assignment_for (new_segment_task taskID jobID q w now) = new_assignment taskID q w"
  "t_AssignedWorkerID (new_segment_task taskID jobID q w now) = w_ID w"
  "t_AssignedWorkerAddress (new_segment_task taskID jobID q w now) = w_Address w"
  "t_ID (new_segment_task taskID jobID q w now) = taskID"
  by (simp_all add: task_for_def assignment_for_def new_segment_task_def new_assignment_def)

lemma create_tasks_batch:
  assumes "create_tasks assign release jobID now req env plan b r = (Inr b', r')"
  shows "\<exists>ts. tb_tasks b' = tb_tasks b @ ts
    \<and> tb_reserved b' = tb_reserved b @ map t_AssignedWorkerID ts
    \<and> tb_assignments b' = tb_assignments b @ map assignment_for ts
    \<and> list_all2 (task_for jobID now) plan ts"
  using assms
proof (induction plan arbitrary: env b r)
  case Nil
  then show ?case by simp
next
  case (Cons q plan)
  from Cons.prems obtain w r1 taskID where
    A: "assign (env 0) (cjt_Mode q) r = (Some w, r1)"
    and N: "nextID ''task_'' (ev_draw (env 0)) = Inr taskID"
    by (auto split: prod.splits option.splits sum.splits)
  let ?t = "new_segment_task taskID jobID q w now"
  from Cons.IH [of "\<lambda>n. env (Suc n)"
      "\<lparr>tb_reserved = tb_reserved b @ [w_ID w], tb_tasks = tb_tasks b @ [?t],
        tb_assignments = tb_assignments b @ [new_assignment taskID q w]\<rparr>" r1] Cons.prems A N
  obtain ts where "tb_tasks b' = tb_tasks b @ ?t # ts"
    "tb_reserved b' = tb_reserved b @ w_ID w # map t_AssignedWorkerID ts"
    "tb_assignments b' = tb_assignments b @ new_assignment taskID q w # map assignment_for ts"
    "list_all2 (task_for jobID now) plan ts"
    by auto
  then show ?case by (intro exI [of _ "?t # ts"]) (simp add: new_segment_task_props)
qed

text \<open>The workers the loop picks are registered ones, and the source worker for the segments it
  processes itself.\<close>

lemma create_tasks_workers:
  assumes "create_tasks (assignSegmentWorker src) release jobID now req env plan b r = (Inr b', r')"
    and "wf_registry r"
    and "\<forall>t\<in>set (tb_tasks b). \<exists>w. wr_byID r (t_AssignedWorkerID t) = Some w
      \<and> t_AssignedWorkerAddress t = w_Address w
      \<and> (t_ProcessingMode t = TaskProcessingModeInternal \<longrightarrow> t_AssignedWorkerID t = src)"
  shows "\<forall>t\<in>set (tb_tasks b'). \<exists>w. wr_byID r' (t_AssignedWorkerID t) = Some w
      \<and> t_AssignedWorkerAddress t = w_Address w
      \<and> (t_ProcessingMode t = TaskProcessingModeInternal \<longrightarrow> t_AssignedWorkerID t = src)"
  using assms
proof (induction plan arbitrary: env b r)
  case Nil
  then show ?case by simp
next
  case (Cons q plan)
  from Cons.prems(1) obtain w r1 taskID where
    A: "assignSegmentWorker src (env 0) (cjt_Mode q) r = (Some w, r1)"
    and N: "nextID ''task_'' (ev_draw (env 0)) = Inr taskID"
    by (auto split: prod.splits option.splits sum.splits)
  from Cons.prems(2) A obtain u where u: "wr_byID r (w_ID u) = Some u" "w = reserve_slots 1 (ev_now (env 0)) u"
    "w_ID w = w_ID u" "r1 = set_worker r (w_ID u) w"
    "cjt_Mode q = TaskProcessingModeInternal \<longrightarrow> w_ID u = src"
    by (rule assignSegmentWorker_Some)
  have wf1: "wf_registry r1" unfolding u(4,2) using Cons.prems(2) u(1) by (rule wf_reserve_slots_of)
  let ?t = "new_segment_task taskID jobID q w now"
  let ?b = "\<lparr>tb_reserved = tb_reserved b @ [w_ID w], tb_tasks = tb_tasks b @ [?t],
        tb_assignments = tb_assignments b @ [new_assignment taskID q w]\<rparr>"
  have addr: "w_Address w = w_Address u" using u(2) by simp
  have old: "\<exists>w. wr_byID r1 (t_AssignedWorkerID t) = Some w \<and> t_AssignedWorkerAddress t = w_Address w
      \<and> (t_ProcessingMode t = TaskProcessingModeInternal \<longrightarrow> t_AssignedWorkerID t = src)"
    if "t \<in> set (tb_tasks b)" for t
    using Cons.prems(3) that u(1,4) addr by (cases "t_AssignedWorkerID t = w_ID u") auto
  have "\<forall>t\<in>set (tb_tasks ?b). \<exists>w. wr_byID r1 (t_AssignedWorkerID t) = Some w
      \<and> t_AssignedWorkerAddress t = w_Address w
      \<and> (t_ProcessingMode t = TaskProcessingModeInternal \<longrightarrow> t_AssignedWorkerID t = src)"
    using old u(3-5) by (auto simp: new_segment_task_def)
  with Cons.IH [OF _ wf1, of "\<lambda>n. env (Suc n)" ?b] Cons.prems(1) A N show ?case by simp
qed

end
