(* ===== verification/Job_Invariant.thy ===== *)
theory Job_Invariant
  imports Job_Assembly
begin

text \<open>
  The job manager's invariant. A job is collecting segments, or it is being assembled (or was):
  then all its segments are done and its last task, the only one of its type, is the assembly.
  Jobs and the identity index agree, and every task belongs to one job that lists it. Each
  critical section of the manager preserves this.
\<close>

definition active :: "Task \<Rightarrow> bool" where
  "active t \<longleftrightarrow> t_Status t = TaskStatusAssigned \<or> t_Status t = TaskStatusRunning"

definition seg_tasks :: "(string \<rightharpoonup> Task) \<Rightarrow> string \<Rightarrow> string list \<Rightarrow> bool" where
  "seg_tasks tasks jobID ids \<longleftrightarrow>
     ids \<noteq> [] \<and> distinct ids
     \<and> (\<forall>k\<in>set ids. \<exists>t. tasks k = Some t \<and> t_Type t = TaskTypeProcessSegment \<and> t_JobID t = jobID)"

definition all_done :: "(string \<rightharpoonup> Task) \<Rightarrow> string list \<Rightarrow> bool" where
  "all_done tasks ids \<longleftrightarrow> (\<forall>k\<in>set ids. \<exists>t. tasks k = Some t \<and> t_Status t = TaskStatusCompleted)"

definition collecting :: "(string \<rightharpoonup> Task) \<Rightarrow> Job \<Rightarrow> bool" where
  "collecting tasks j \<longleftrightarrow>
     seg_tasks tasks (j_ID j) (j_TaskIDs j)
     \<and> j_Status j \<in> {JobStatusSegmentAssigned, JobStatusSegmentRunning, JobStatusSegmentCompleted, JobStatusFailed}
     \<and> (all_done tasks (j_TaskIDs j) \<longrightarrow> j_Status j \<in> {JobStatusSegmentCompleted, JobStatusFailed})
     \<and> (j_Status j = JobStatusSegmentCompleted \<longrightarrow> all_done tasks (j_TaskIDs j))"

definition assembling :: "(string \<rightharpoonup> Task) \<Rightarrow> Job \<Rightarrow> bool" where
  "assembling tasks j \<longleftrightarrow>
     (\<exists>segs a t. j_TaskIDs j = segs @ [a] \<and> seg_tasks tasks (j_ID j) segs \<and> all_done tasks segs
        \<and> tasks a = Some t \<and> t_Type t = TaskTypeAssembleGIF \<and> t_JobID t = j_ID j
        \<and> j_Status j \<in> {JobStatusAssembleAssigned, JobStatusAssembleRunning, JobStatusCompleted, JobStatusFailed}
        \<and> (j_Status j \<in> {JobStatusAssembleAssigned, JobStatusAssembleRunning} \<longrightarrow> active t)
        \<and> (j_Status j = JobStatusCompleted \<longrightarrow> t_Status t = TaskStatusCompleted))"

definition job_ok :: "(string \<rightharpoonup> Task) \<Rightarrow> Job \<Rightarrow> bool" where
  "job_ok tasks j \<longleftrightarrow> collecting tasks j \<or> assembling tasks j"

definition wf_manager :: "JobManager \<Rightarrow> bool" where
  "wf_manager m \<longleftrightarrow>
     finite (dom (jm_jobs m)) \<and> finite (dom (jm_tasks m))
     \<and> (\<forall>k j. jm_jobs m k = Some j \<longrightarrow>
          j_ID j = k \<and> jm_jobIDByIdentity m (j_IdentityKey j) = Some k \<and> job_ok (jm_tasks m) j)
     \<and> (\<forall>i k. jm_jobIDByIdentity m i = Some k \<longrightarrow> (\<exists>j. jm_jobs m k = Some j \<and> j_IdentityKey j = i))
     \<and> (\<forall>k t. jm_tasks m k = Some t \<longrightarrow>
          t_ID t = k \<and> (\<exists>j. jm_jobs m (t_JobID t) = Some j \<and> k \<in> set (j_TaskIDs j)))"

lemma wf_managerD:
  assumes "wf_manager m"
  shows "finite (dom (jm_jobs m))" "finite (dom (jm_tasks m))"
    "jm_jobs m k = Some j \<Longrightarrow> j_ID j = k"
    "jm_jobs m k = Some j \<Longrightarrow> jm_jobIDByIdentity m (j_IdentityKey j) = Some k"
    "jm_jobs m k = Some j \<Longrightarrow> job_ok (jm_tasks m) j"
    "jm_jobIDByIdentity m i = Some k \<Longrightarrow> \<exists>j. jm_jobs m k = Some j \<and> j_IdentityKey j = i"
    "jm_tasks m k = Some t \<Longrightarrow> t_ID t = k"
    "jm_tasks m k = Some t \<Longrightarrow> \<exists>j. jm_jobs m (t_JobID t) = Some j \<and> k \<in> set (j_TaskIDs j)"
  using assms unfolding wf_manager_def by blast+

lemma wf_managerI:
  assumes "finite (dom (jm_jobs m))" and "finite (dom (jm_tasks m))"
    and "\<And>k j. jm_jobs m k = Some j \<Longrightarrow>
      j_ID j = k \<and> jm_jobIDByIdentity m (j_IdentityKey j) = Some k \<and> job_ok (jm_tasks m) j"
    and "\<And>i k. jm_jobIDByIdentity m i = Some k \<Longrightarrow> \<exists>j. jm_jobs m k = Some j \<and> j_IdentityKey j = i"
    and "\<And>k t. jm_tasks m k = Some t \<Longrightarrow>
      t_ID t = k \<and> (\<exists>j. jm_jobs m (t_JobID t) = Some j \<and> k \<in> set (j_TaskIDs j))"
  shows "wf_manager m"
  using assms unfolding wf_manager_def by blast

lemma wf_NewJobManager: "wf_manager NewJobManager"
  by (simp add: wf_manager_def NewJobManager_def)

subsection \<open>A job sees only its own tasks\<close>

lemma seg_tasks_cong: "\<forall>k\<in>set ids. ts k = ts' k \<Longrightarrow> seg_tasks ts i ids = seg_tasks ts' i ids"
  by (simp add: seg_tasks_def)

lemma all_done_cong: "\<forall>k\<in>set ids. ts k = ts' k \<Longrightarrow> all_done ts ids = all_done ts' ids"
  by (simp add: all_done_def)

lemma assembling_cong_imp:
  assumes "assembling ts j" and eq: "\<forall>k\<in>set (j_TaskIDs j). ts k = ts' k"
  shows "assembling ts' j"
proof -
  from assms(1) obtain segs a t where *: "j_TaskIDs j = segs @ [a]" "seg_tasks ts (j_ID j) segs"
    "all_done ts segs" "ts a = Some t" "t_Type t = TaskTypeAssembleGIF" "t_JobID t = j_ID j"
    "j_Status j \<in> {JobStatusAssembleAssigned, JobStatusAssembleRunning, JobStatusCompleted, JobStatusFailed}"
    "j_Status j \<in> {JobStatusAssembleAssigned, JobStatusAssembleRunning} \<longrightarrow> active t"
    "j_Status j = JobStatusCompleted \<longrightarrow> t_Status t = TaskStatusCompleted"
    unfolding assembling_def by blast
  from eq *(1) have "seg_tasks ts' (j_ID j) segs" "all_done ts' segs" "ts' a = Some t"
    using seg_tasks_cong [of segs ts ts'] all_done_cong [of segs ts ts'] *(2-4) by simp_all
  with * show ?thesis unfolding assembling_def by blast
qed

lemma job_ok_cong:
  assumes "\<forall>k\<in>set (j_TaskIDs j). ts k = ts' k"
  shows "job_ok ts j = job_ok ts' j"
proof -
  have "collecting ts j = collecting ts' j"
    using seg_tasks_cong [OF assms] all_done_cong [OF assms] by (simp add: collecting_def)
  moreover have "assembling ts j = assembling ts' j"
    using assembling_cong_imp [OF _ assms] assembling_cong_imp [of ts' j ts] assms by auto
  ultimately show ?thesis by (simp add: job_ok_def)
qed

lemma job_ok_task:
  assumes "job_ok ts j" and "k \<in> set (j_TaskIDs j)"
  obtains t where "ts k = Some t" "t_JobID t = j_ID j"
  using assms by (fastforce simp: job_ok_def collecting_def assembling_def seg_tasks_def)

lemma job_ok_seg_task:
  assumes "job_ok ts j" and "k \<in> set (j_TaskIDs j)" and "ts k = Some t" and "t_Type t = TaskTypeProcessSegment"
  shows "collecting ts j \<or> assembling ts j \<and> t_Status t = TaskStatusCompleted"
  using assms by (fastforce simp: job_ok_def assembling_def all_done_def)

lemma segments_completed_loop_iff:
  "segments_completed_loop ts ids \<longleftrightarrow>
     (\<forall>k\<in>set ids. \<exists>t. ts k = Some t \<and> t_Type t = TaskTypeProcessSegment \<and> t_Status t = TaskStatusCompleted)"
  by (induction ids) (auto split: option.splits)

text \<open>A task listed by a job belongs to no other.\<close>

lemma task_job_unique:
  assumes "wf_manager m" and "jm_jobs m i = Some j" and "k \<in> set (j_TaskIDs j)"
  shows "\<exists>t. jm_tasks m k = Some t \<and> t_JobID t = i"
  using job_ok_task [OF wf_managerD(5) [OF assms(1,2)] assms(3)] wf_managerD(3) [OF assms(1,2)] by metis

subsection \<open>Updates\<close>

text \<open>The write every segment and assembly report makes: one task and its job.\<close>

lemma wf_update:
  assumes wf: "wf_manager m" and t: "jm_tasks m k = Some t" and j: "jm_jobs m (t_JobID t) = Some j"
    and t': "t_ID t' = t_ID t" "t_JobID t' = t_JobID t"
    and j': "j_ID j' = j_ID j" "j_IdentityKey j' = j_IdentityKey j" "j_TaskIDs j' = j_TaskIDs j"
    and ok: "job_ok ((jm_tasks m)(k \<mapsto> t')) j'"
  shows "wf_manager (set_job (t_JobID t) j' (set_task k t' m))" (is "wf_manager ?m")
proof (rule wf_managerI)
  note D = wf_managerD [OF wf]
  show "finite (dom (jm_jobs ?m))" and "finite (dom (jm_tasks ?m))"
    using D(1,2) by (simp_all add: set_job_def set_task_def)
  show "j_ID jj = i \<and> jm_jobIDByIdentity ?m (j_IdentityKey jj) = Some i \<and> job_ok (jm_tasks ?m) jj"
    if jj: "jm_jobs ?m i = Some jj" for i jj
  proof (cases "i = t_JobID t")
    case True
    with jj ok j' D(3,4) [OF j] show ?thesis by (simp add: set_job_def set_task_def)
  next
    case False
    with jj have old: "jm_jobs m i = Some jj" by (simp add: set_job_def set_task_def)
    have "k \<notin> set (j_TaskIDs jj)"
      using task_job_unique [OF wf old, of k] t False by auto
    then have "job_ok (jm_tasks ?m) jj = job_ok (jm_tasks m) jj"
      by (intro job_ok_cong) (auto simp: set_job_def set_task_def)
    with D(3-5) [OF old] show ?thesis by (simp add: set_job_def set_task_def)
  qed
  show "\<exists>jj. jm_jobs ?m kk = Some jj \<and> j_IdentityKey jj = i" if "jm_jobIDByIdentity ?m i = Some kk" for i kk
    using D(6) [of i kk] that j j' by (cases "kk = t_JobID t") (auto simp: set_job_def set_task_def)
  show "t_ID u = kk \<and> (\<exists>jj. jm_jobs ?m (t_JobID u) = Some jj \<and> kk \<in> set (j_TaskIDs jj))"
    if u: "jm_tasks ?m kk = Some u" for kk u
  proof -
    obtain v where v: "jm_tasks m kk = Some v" "t_ID u = t_ID v" "t_JobID u = t_JobID v"
      using u t t' by (cases "kk = k") (auto simp: set_job_def set_task_def)
    from D(8) [OF v(1)] obtain jj where "jm_jobs m (t_JobID v) = Some jj" "kk \<in> set (j_TaskIDs jj)" by blast
    with v D(7) [OF v(1)] j j' show ?thesis
      by (cases "t_JobID v = t_JobID t") (auto simp: set_job_def set_task_def)
  qed
qed

lemma wf_update_job:
  assumes wf: "wf_manager m" and j: "jm_jobs m i = Some j"
    and j': "j_ID j' = j_ID j" "j_IdentityKey j' = j_IdentityKey j" "j_TaskIDs j' = j_TaskIDs j"
    and ok: "job_ok (jm_tasks m) j'"
  shows "wf_manager (set_job i j' m)"
proof -
  have "j_TaskIDs j \<noteq> []"
    using wf_managerD(5) [OF wf j] by (auto simp: job_ok_def collecting_def assembling_def seg_tasks_def)
  then obtain k where k: "k \<in> set (j_TaskIDs j)" by (cases "j_TaskIDs j") auto
  from task_job_unique [OF wf j k] obtain t where t: "jm_tasks m k = Some t" "t_JobID t = i" by blast
  have id: "(jm_tasks m)(k \<mapsto> t) = jm_tasks m" using t(1) by (simp add: map_upd_triv)
  then have "set_task k t m = m" by (simp add: set_task_def)
  moreover have "wf_manager (set_job (t_JobID t) j' (set_task k t m))"
    using wf_update [OF wf t(1), of j t j'] j j' ok id t(2) by simp
  ultimately show ?thesis using t(2) by simp
qed

lemma job_ok_failed:
  assumes "job_ok ts j"
  shows "job_ok ts (j\<lparr>j_Status := JobStatusFailed, j_UpdatedAt := now\<rparr>)"
  using assms by (auto simp: job_ok_def collecting_def assembling_def)

lemma wf_markJobFailed [wf_intros]: "wf_manager m \<Longrightarrow> wf_manager (markJobFailed i now m)"
  by (auto simp: markJobFailed_def intro!: wf_update_job job_ok_failed dest: wf_managerD(5) split: option.splits)

subsection \<open>Segment reports\<close>

lemma segmentTaskAndJobLocked_Inr:
  assumes "segmentTaskAndJobLocked k w m = Inr (t, j)"
  shows "jm_tasks m k = Some t" "t_Type t = TaskTypeProcessSegment" "t_AssignedWorkerID t = w"
    "jm_jobs m (t_JobID t) = Some j"
  using assms by (auto simp: segmentTaskAndJobLocked_def split: option.splits if_splits)

text \<open>Changing one segment task's status keeps the shape of its job.\<close>

lemma seg_tasks_upd:
  "seg_tasks ts i ids \<Longrightarrow> ts k = Some t \<Longrightarrow> t_Type t' = t_Type t \<Longrightarrow> t_JobID t' = t_JobID t \<Longrightarrow>
   seg_tasks (ts(k \<mapsto> t')) i ids"
  by (auto simp: seg_tasks_def)

lemma all_done_upd:
  "k \<in> set ids \<Longrightarrow> all_done (ts(k \<mapsto> t')) ids \<longleftrightarrow>
     t_Status t' = TaskStatusCompleted \<and> (\<forall>i\<in>set ids. i \<noteq> k \<longrightarrow> (\<exists>t. ts i = Some t \<and> t_Status t = TaskStatusCompleted))"
  by (auto simp: all_done_def)

lemma collecting_upd:
  assumes "collecting ts j" and k: "k \<in> set (j_TaskIDs j)" "ts k = Some t"
    and t': "t_Type t' = t_Type t" "t_JobID t' = t_JobID t"
    and j': "j_ID j' = j_ID j" "j_TaskIDs j' = j_TaskIDs j"
    and st: "j_Status j' = (if all_done (ts(k \<mapsto> t')) (j_TaskIDs j) then JobStatusSegmentCompleted else s)"
    and s: "s \<in> {JobStatusSegmentAssigned, JobStatusSegmentRunning, JobStatusFailed}"
  shows "collecting (ts(k \<mapsto> t')) j'"
proof -
  have "seg_tasks ts (j_ID j) (j_TaskIDs j)" using assms(1) by (simp add: collecting_def)
  then have "seg_tasks (ts(k \<mapsto> t')) (j_ID j) (j_TaskIDs j)" using k(2) t' by (rule seg_tasks_upd)
  with st s j' show ?thesis unfolding collecting_def by auto
qed

lemma wf_AcceptSegmentTask [wf_intros]:
  assumes wf: "wf_manager m"
  shows "wf_manager (snd (AcceptSegmentTask k req now m))"
proof (cases "segmentTaskAndJobLocked k (tar_WorkerID req) m")
  case (Inl e)
  with wf show ?thesis by (simp add: AcceptSegmentTask_def)
next
  case (Inr tj)
  obtain t j where tj: "tj = (t, j)" by (cases tj)
  note S = segmentTaskAndJobLocked_Inr [OF Inr [unfolded tj]]
  show ?thesis
  proof (cases "t_Status t = TaskStatusAssigned")
    case False
    with wf Inr tj show ?thesis by (simp add: AcceptSegmentTask_def)
  next
    case True
    from wf_managerD(8) [OF wf S(1)] S(4) have mem: "k \<in> set (j_TaskIDs j)" by auto
    have ok: "job_ok (jm_tasks m) j" by (rule wf_managerD(5) [OF wf S(4)])
    with mem S(1,2) True have coll: "collecting (jm_tasks m) j"
      by (auto dest: job_ok_seg_task)
    let ?t = "t\<lparr>t_Status := TaskStatusRunning, t_AcceptedAt := Some now, t_UpdatedAt := now\<rparr>"
    let ?j = "j\<lparr>j_Status := JobStatusSegmentRunning, j_UpdatedAt := now\<rparr>"
    have "collecting ((jm_tasks m)(k \<mapsto> ?t)) ?j"
      by (rule collecting_upd [OF coll mem S(1), where s = JobStatusSegmentRunning])
        (simp_all add: all_done_upd [OF mem])
    then have "wf_manager (set_job (t_JobID t) ?j (set_task k ?t m))"
      by (intro wf_update [OF wf S(1,4)]) (simp_all add: job_ok_def)
    with Inr tj True show ?thesis by (simp add: AcceptSegmentTask_def)
  qed
qed

lemma collecting_status:
  assumes "collecting ts j" and "\<not> all_done ts (j_TaskIDs j)"
  shows "j_Status j \<in> {JobStatusSegmentAssigned, JobStatusSegmentRunning, JobStatusFailed}"
  using assms by (auto simp: collecting_def)

lemma wf_complete_segment_locked [wf_intros]:
  assumes wf: "wf_manager m"
  shows "wf_manager (snd (complete_segment_locked k req now m))"
proof (cases "segmentTaskAndJobLocked k (tcr_WorkerID req) m")
  case (Inl e)
  with wf show ?thesis by (simp add: complete_segment_locked_def)
next
  case (Inr tj)
  obtain t j where tj: "tj = (t, j)" by (cases tj)
  note S = segmentTaskAndJobLocked_Inr [OF Inr [unfolded tj]]
  show ?thesis
  proof (cases "active t")
    case False
    with wf Inr tj show ?thesis by (simp add: complete_segment_locked_def active_def)
  next
    case True
    from wf_managerD(8) [OF wf S(1)] S(4) have mem: "k \<in> set (j_TaskIDs j)" by auto
    have "job_ok (jm_tasks m) j" by (rule wf_managerD(5) [OF wf S(4)])
    with mem S(1,2) True have coll: "collecting (jm_tasks m) j"
      by (auto dest: job_ok_seg_task simp: active_def)
    have "\<not> all_done (jm_tasks m) (j_TaskIDs j)"
      using mem S(1) True by (auto simp: all_done_def active_def intro!: bexI [of _ k])
    note st = collecting_status [OF coll this]
    let ?t = "t\<lparr>t_Status := TaskStatusCompleted, t_Checksum := tcr_Checksum req,
        t_FrameCount := tcr_FrameCount req, t_DurationMS := tcr_DurationMS req,
        t_OutputSizeBytes := tcr_OutputSizeBytes req, t_CompletedAt := Some now, t_UpdatedAt := now\<rparr>"
    let ?ts = "(jm_tasks m)(k \<mapsto> ?t)"
    have "seg_tasks (jm_tasks m) (j_ID j) (j_TaskIDs j)" using coll by (simp add: collecting_def)
    then have seg: "seg_tasks ?ts (j_ID j) (j_TaskIDs j)" using S(1) by (rule seg_tasks_upd) simp_all
    then have all: "segments_completed_loop ?ts (j_TaskIDs j) = all_done ?ts (j_TaskIDs j)"
      unfolding segments_completed_loop_iff all_done_def seg_tasks_def by fastforce
    let ?j = "(if all_done ?ts (j_TaskIDs j)
        then j\<lparr>j_UpdatedAt := now, j_Status := JobStatusSegmentCompleted\<rparr> else j\<lparr>j_UpdatedAt := now\<rparr>)"
    have "collecting ?ts ?j"
      by (rule collecting_upd [OF coll mem S(1), where s = "j_Status j"]) (use st in simp_all)
    then have "wf_manager (set_job (t_JobID t) ?j (set_task k ?t m))"
      by (intro wf_update [OF wf S(1,4)]) (simp_all add: job_ok_def)
    moreover have "allSegmentTasksCompletedLocked (j\<lparr>j_UpdatedAt := now\<rparr>) (set_task k ?t m)
        = all_done ?ts (j_TaskIDs j)"
      by (simp add: allSegmentTasksCompletedLocked_def set_task_def all)
    moreover have "(t_Status t \<noteq> TaskStatusAssigned \<and> t_Status t \<noteq> TaskStatusRunning) = False"
      using True by (auto simp: active_def)
    ultimately show ?thesis
      using Inr tj by (simp add: complete_segment_locked_def Let_def) blast
  qed
qed

lemma wf_fail_segment_locked [wf_intros]:
  assumes wf: "wf_manager m"
  shows "wf_manager (snd (fail_segment_locked k req now m))"
proof (cases "segmentTaskAndJobLocked k (tfr_WorkerID req) m")
  case (Inl e)
  with wf show ?thesis by (simp add: fail_segment_locked_def)
next
  case (Inr tj)
  obtain t j where tj: "tj = (t, j)" by (cases tj)
  note S = segmentTaskAndJobLocked_Inr [OF Inr [unfolded tj]]
  show ?thesis
  proof (cases "t_Status t = TaskStatusCompleted \<or> t_Status t = TaskStatusFailed")
    case True
    with wf Inr tj show ?thesis by (simp add: fail_segment_locked_def)
  next
    case False
    from wf_managerD(8) [OF wf S(1)] S(4) have mem: "k \<in> set (j_TaskIDs j)" by auto
    have "job_ok (jm_tasks m) j" by (rule wf_managerD(5) [OF wf S(4)])
    with mem S(1,2) False have coll: "collecting (jm_tasks m) j"
      by (auto dest: job_ok_seg_task)
    let ?t = "t\<lparr>t_Status := TaskStatusFailed, t_FailureReason := tfr_Reason req,
        t_Retryable := tfr_Retryable req, t_FailedAt := Some now, t_UpdatedAt := now\<rparr>"
    let ?j = "j\<lparr>j_Status := JobStatusFailed, j_UpdatedAt := now\<rparr>"
    have "collecting ((jm_tasks m)(k \<mapsto> ?t)) ?j"
      by (rule collecting_upd [OF coll mem S(1), where s = JobStatusFailed])
        (simp_all add: all_done_upd [OF mem])
    then have "wf_manager (set_job (t_JobID t) ?j (set_task k ?t m))"
      by (intro wf_update [OF wf S(1,4)]) (simp_all add: job_ok_def)
    with Inr tj False show ?thesis by (simp add: fail_segment_locked_def)
  qed
qed

subsection \<open>The assembly\<close>

lemma assembling_upd:
  assumes A: "assembling ts j" and k: "k \<in> set (j_TaskIDs j)" "ts k = Some t" "t_Type t = TaskTypeAssembleGIF"
    and t': "t_Type t' = t_Type t" "t_JobID t' = t_JobID t"
    and j': "j_ID j' = j_ID j" "j_TaskIDs j' = j_TaskIDs j"
      "j_Status j' \<in> {JobStatusAssembleAssigned, JobStatusAssembleRunning, JobStatusCompleted, JobStatusFailed}"
      "j_Status j' \<in> {JobStatusAssembleAssigned, JobStatusAssembleRunning} \<longrightarrow> active t'"
      "j_Status j' = JobStatusCompleted \<longrightarrow> t_Status t' = TaskStatusCompleted"
  shows "assembling (ts(k \<mapsto> t')) j'"
proof -
  from A obtain segs a u where *: "j_TaskIDs j = segs @ [a]" "seg_tasks ts (j_ID j) segs"
    "all_done ts segs" "ts a = Some u" "t_Type u = TaskTypeAssembleGIF" "t_JobID u = j_ID j"
    unfolding assembling_def by blast
  have "k \<notin> set segs" using *(2) k(2,3) by (auto simp: seg_tasks_def)
  with k(1) *(1) have "k = a" by simp
  with * k have "t = u" by simp
  from \<open>k \<notin> set segs\<close> have "seg_tasks (ts(k \<mapsto> t')) (j_ID j) segs" "all_done (ts(k \<mapsto> t')) segs"
    using *(2,3) seg_tasks_cong [of segs ts "ts(k \<mapsto> t')"] all_done_cong [of segs ts "ts(k \<mapsto> t')"] by auto
  with * j' t' \<open>k = a\<close> \<open>t = u\<close> show ?thesis
    unfolding assembling_def by (intro exI [of _ segs] exI [of _ a] exI [of _ t']) simp
qed

lemma assembling_of:
  assumes "job_ok ts j" and "k \<in> set (j_TaskIDs j)" and "ts k = Some t" and "t_Type t = TaskTypeAssembleGIF"
  shows "assembling ts j"
  using assms by (fastforce simp: job_ok_def collecting_def seg_tasks_def)

lemma wf_assemble_commit:
  assumes wf: "wf_manager m"
    and t: "t_JobID t = i" "t_Type t = TaskTypeAssembleGIF" "active t" "jm_tasks m (t_ID t) = None"
  shows "wf_manager (snd (assemble_commit i t now m))"
proof (cases "jm_jobs m i")
  case None
  with wf show ?thesis by (simp add: assemble_commit_def)
next
  case (Some j)
  note D = wf_managerD [OF wf]
  let ?j = "j\<lparr>j_TaskIDs := j_TaskIDs j @ [t_ID t], j_Status := JobStatusAssembleAssigned, j_UpdatedAt := now\<rparr>"
  let ?m = "set_job i ?j (set_task (t_ID t) t m)"
  have "wf_manager ?m" if st: "j_Status j = JobStatusSegmentCompleted"
  proof (rule wf_managerI)
    have fresh: "t_ID t \<notin> set (j_TaskIDs jj)" if "jm_jobs m k = Some jj" for k jj
      using task_job_unique [OF wf that, of "t_ID t"] t(4) by auto
    have coll: "collecting (jm_tasks m) j"
      using D(5) [OF Some] st by (auto simp: job_ok_def assembling_def)
    then have segs: "seg_tasks (jm_tasks m) (j_ID j) (j_TaskIDs j)" "all_done (jm_tasks m) (j_TaskIDs j)"
      using st by (auto simp: collecting_def)
    have same: "\<forall>k\<in>set (j_TaskIDs j). jm_tasks m k = ((jm_tasks m)(t_ID t \<mapsto> t)) k"
      using fresh [OF Some] by auto
    have ok: "job_ok ((jm_tasks m)(t_ID t \<mapsto> t)) ?j"
    proof -
      have "seg_tasks ((jm_tasks m)(t_ID t \<mapsto> t)) (j_ID j) (j_TaskIDs j)"
        and "all_done ((jm_tasks m)(t_ID t \<mapsto> t)) (j_TaskIDs j)"
        using segs(1) [unfolded seg_tasks_cong [OF same]] segs(2) [unfolded all_done_cong [OF same]]
        by (simp_all del: fun_upd_apply)
      with t D(3) [OF Some] show ?thesis by (simp add: job_ok_def assembling_def)
    qed
    show "finite (dom (jm_jobs ?m))" and "finite (dom (jm_tasks ?m))"
      using D(1,2) by (simp_all add: set_job_def set_task_def)
    show "j_ID jj = k \<and> jm_jobIDByIdentity ?m (j_IdentityKey jj) = Some k \<and> job_ok (jm_tasks ?m) jj"
      if jj: "jm_jobs ?m k = Some jj" for k jj
    proof (cases "k = i")
      case True
      with jj ok D(3,4) [OF Some] show ?thesis by (auto simp: set_job_def set_task_def)
    next
      case False
      with jj have old: "jm_jobs m k = Some jj" by (simp add: set_job_def set_task_def)
      have "job_ok (jm_tasks ?m) jj = job_ok (jm_tasks m) jj"
        using fresh [OF old] by (intro job_ok_cong) (auto simp: set_job_def set_task_def)
      with D(3-5) [OF old] show ?thesis by (simp add: set_job_def set_task_def)
    qed
    show "\<exists>jj. jm_jobs ?m k = Some jj \<and> j_IdentityKey jj = x" if "jm_jobIDByIdentity ?m x = Some k" for x k
      using D(6) [of x k] that Some by (cases "k = i") (auto simp: set_job_def set_task_def)
    show "t_ID u = k \<and> (\<exists>jj. jm_jobs ?m (t_JobID u) = Some jj \<and> k \<in> set (j_TaskIDs jj))"
      if u: "jm_tasks ?m k = Some u" for k u
    proof (cases "k = t_ID t")
      case True
      with u t show ?thesis by (simp add: set_job_def set_task_def)
    next
      case False
      with u have old: "jm_tasks m k = Some u" by (simp add: set_job_def set_task_def)
      from D(7,8) [OF old] Some show ?thesis
        by (cases "t_JobID u = i") (auto simp: set_job_def set_task_def)
    qed
  qed
  with wf Some show ?thesis by (simp add: assemble_commit_def)
qed

text \<open>The two lookups of \<open>assemble_started\<close> and \<open>assemble_start_failed_locked\<close> are of a task and
  its job, as stored by \<open>assemble_commit\<close>.\<close>

definition assemble_task_of :: "JobManager \<Rightarrow> string \<Rightarrow> string \<Rightarrow> bool" where
  "assemble_task_of m jobID taskID \<longleftrightarrow>
     (\<exists>t. jm_tasks m taskID = Some t \<and> t_JobID t = jobID \<and> t_Type t = TaskTypeAssembleGIF)"

lemma assemble_task_ofE:
  assumes wf: "wf_manager m" and "assemble_task_of m jobID taskID"
  obtains t j where "jm_tasks m taskID = Some t" "t_JobID t = jobID" "t_Type t = TaskTypeAssembleGIF"
    "jm_jobs m jobID = Some j" "taskID \<in> set (j_TaskIDs j)" "assembling (jm_tasks m) j" "t_ID t = taskID"
proof -
  from assms(2) obtain t where t: "jm_tasks m taskID = Some t" "t_JobID t = jobID" "t_Type t = TaskTypeAssembleGIF"
    by (auto simp: assemble_task_of_def)
  from wf_managerD(8) [OF wf t(1)] t(2) obtain j where j: "jm_jobs m jobID = Some j" "taskID \<in> set (j_TaskIDs j)"
    by auto
  with that t assembling_of [OF wf_managerD(5) [OF wf j(1)] j(2) t(1,3)] wf_managerD(7) [OF wf t(1)]
  show ?thesis by blast
qed

lemma assembling_status:
  "assembling ts j \<Longrightarrow>
   j_Status j \<in> {JobStatusAssembleAssigned, JobStatusAssembleRunning, JobStatusCompleted, JobStatusFailed}"
  by (auto simp: assembling_def)

lemma assembling_task:
  assumes "assembling ts j" and "k \<in> set (j_TaskIDs j)" and "ts k = Some t" and "t_Type t = TaskTypeAssembleGIF"
  shows "j_Status j \<in> {JobStatusAssembleAssigned, JobStatusAssembleRunning} \<Longrightarrow> active t"
    and "j_Status j = JobStatusCompleted \<Longrightarrow> t_Status t = TaskStatusCompleted"
proof -
  from assms(1) obtain segs a u where *: "j_TaskIDs j = segs @ [a]" "seg_tasks ts (j_ID j) segs" "ts a = Some u"
    "j_Status j \<in> {JobStatusAssembleAssigned, JobStatusAssembleRunning} \<longrightarrow> active u"
    "j_Status j = JobStatusCompleted \<longrightarrow> t_Status u = TaskStatusCompleted"
    unfolding assembling_def by blast
  have "k \<notin> set segs" using *(2) assms(3,4) by (auto simp: seg_tasks_def)
  with * assms(2,3) have "u = t" by simp
  with * show "j_Status j \<in> {JobStatusAssembleAssigned, JobStatusAssembleRunning} \<Longrightarrow> active t"
    and "j_Status j = JobStatusCompleted \<Longrightarrow> t_Status t = TaskStatusCompleted" by auto
qed

lemma wf_assemble_write:
  assumes wf: "wf_manager m" and t: "jm_tasks m k = Some t" "t_Type t = TaskTypeAssembleGIF"
    and j: "jm_jobs m (t_JobID t) = Some j"
    and t': "t_ID t' = t_ID t" "t_JobID t' = t_JobID t" "t_Type t' = t_Type t"
    and j': "j_ID j' = j_ID j" "j_IdentityKey j' = j_IdentityKey j" "j_TaskIDs j' = j_TaskIDs j"
      "j_Status j' \<in> {JobStatusAssembleAssigned, JobStatusAssembleRunning, JobStatusCompleted, JobStatusFailed}"
      "j_Status j' \<in> {JobStatusAssembleAssigned, JobStatusAssembleRunning} \<longrightarrow> active t'"
      "j_Status j' = JobStatusCompleted \<longrightarrow> t_Status t' = TaskStatusCompleted"
  shows "wf_manager (set_job (t_JobID t) j' (set_task k t' m))"
proof -
  from wf_managerD(8) [OF wf t(1)] j have mem: "k \<in> set (j_TaskIDs j)" by auto
  have "assembling (jm_tasks m) j"
    by (rule assembling_of [OF wf_managerD(5) [OF wf j] mem t])
  then have "assembling ((jm_tasks m)(k \<mapsto> t')) j'"
    using mem t t'(3,2) j'(1,3-6) by (rule assembling_upd)
  then show ?thesis by (intro wf_update [OF wf t(1) j t'(1,2) j'(1-3)]) (simp add: job_ok_def)
qed

lemma set_task_same: "jm_tasks m k = Some t \<Longrightarrow> set_task k t m = m"
  by (simp add: set_task_def map_upd_triv)

lemma set_job_same: "jm_jobs m k = Some j \<Longrightarrow> set_job k j m = m"
  by (simp add: set_job_def map_upd_triv)

text \<open>Both are one write of the task and one of the job.\<close>

lemma assemble_started_write:
  assumes "jm_tasks m taskID = Some t" and "jm_jobs m jobID = Some j"
  shows "assemble_started jobID taskID now m =
    set_job jobID
      (if j_Status j = JobStatusAssembleAssigned
       then j\<lparr>j_Status := JobStatusAssembleRunning, j_UpdatedAt := now\<rparr> else j)
      (set_task taskID
        (if t_Status t = TaskStatusAssigned
         then t\<lparr>t_Status := TaskStatusRunning, t_UpdatedAt := now, t_AcceptedAt := Some now\<rparr> else t) m)"
  using assms by (auto simp: assemble_started_def Let_def set_task_def set_job_def map_upd_triv)

lemma assemble_start_failed_write:
  assumes "jm_tasks m taskID = Some t" and "jm_jobs m jobID = Some j"
  shows "assemble_start_failed_locked jobID taskID reason retryable now m =
    set_job jobID (j\<lparr>j_Status := JobStatusFailed, j_UpdatedAt := now\<rparr>)
      (set_task taskID
        (if active t
         then t\<lparr>t_Status := TaskStatusFailed, t_FailureReason := reason, t_Retryable := retryable,
                t_FailedAt := Some now, t_UpdatedAt := now\<rparr> else t) m)"
proof -
  have "t_Status t \<noteq> TaskStatusCompleted \<and> t_Status t \<noteq> TaskStatusFailed \<longleftrightarrow> active t"
    by (cases "t_Status t") (simp_all add: active_def)
  with assms show ?thesis
    by (auto simp: assemble_start_failed_locked_def Let_def set_task_def set_job_def map_upd_triv)
qed

lemma wf_assemble_started:
  assumes wf: "wf_manager m" and a: "assemble_task_of m jobID taskID"
  shows "wf_manager (assemble_started jobID taskID now m)"
proof -
  from wf a obtain t j where t: "jm_tasks m taskID = Some t" "t_JobID t = jobID" "t_Type t = TaskTypeAssembleGIF"
    and j: "jm_jobs m jobID = Some j" "taskID \<in> set (j_TaskIDs j)" "assembling (jm_tasks m) j"
    by (rule assemble_task_ofE)
  note T = assembling_task [OF j(3,2) t(1,3)] and st = assembling_status [OF j(3)]
  show ?thesis
    unfolding assemble_started_write [OF t(1) j(1)]
    using wf_assemble_write [OF wf t(1,3), of j
        "if t_Status t = TaskStatusAssigned
         then t\<lparr>t_Status := TaskStatusRunning, t_UpdatedAt := now, t_AcceptedAt := Some now\<rparr> else t"
        "if j_Status j = JobStatusAssembleAssigned
         then j\<lparr>j_Status := JobStatusAssembleRunning, j_UpdatedAt := now\<rparr> else j"]
      t j st T by (auto simp: active_def)
qed

lemma wf_assemble_start_failed:
  assumes wf: "wf_manager m" and a: "assemble_task_of m jobID taskID"
  shows "wf_manager (assemble_start_failed_locked jobID taskID reason retryable now m)"
proof -
  from wf a obtain t j where t: "jm_tasks m taskID = Some t" "t_JobID t = jobID" "t_Type t = TaskTypeAssembleGIF"
    and j: "jm_jobs m jobID = Some j" "taskID \<in> set (j_TaskIDs j)" "assembling (jm_tasks m) j"
    by (rule assemble_task_ofE)
  show ?thesis
    unfolding assemble_start_failed_write [OF t(1) j(1)]
    by (rule wf_assemble_write [OF wf t(1,3), unfolded t(2), OF j(1)]) (use t in auto)
qed

subsection \<open>The assembly reports\<close>

lemma assemble_target_loop_Inr:
  "assemble_target_loop ts w ids = Inr (k, t) \<Longrightarrow>
   k \<in> set ids \<and> ts k = Some t \<and> t_Type t = TaskTypeAssembleGIF \<and> t_AssignedWorkerID t = w \<and> active t"
  by (induction ids) (auto simp: active_def split: option.splits if_splits)

lemma assembleCompletionTargetLocked_Inr:
  assumes "assembleCompletionTargetLocked j w m = Inr (k, t)"
  shows "k \<in> set (j_TaskIDs j)" "jm_tasks m k = Some t" "t_Type t = TaskTypeAssembleGIF"
    "t_AssignedWorkerID t = w" "active t"
  using assms by (auto simp: assembleCompletionTargetLocked_def dest: assemble_target_loop_Inr split: if_splits)

text \<open>A report that is not refused writes the assemble task and its job; every other one writes
  nothing.\<close>

lemma complete_assemble_locked_cases:
  "(\<exists>e. complete_assemble_locked i req w now m = (Inl e, m))
   \<or> (\<exists>j k t rep t' j'. jm_jobs m i = Some j \<and> assembleCompletionTargetLocked j (jar_WorkerID req) m = Inr (k, t)
        \<and> complete_assemble_locked i req w now m = (Inr rep, set_job i j' (set_task k t' m))
        \<and> ar_releaseWorkerID rep = t_AssignedWorkerID t \<and> ar_releaseDiskBytes rep = t_RequiredDiskBytes t
        \<and> t_ID t' = t_ID t \<and> t_JobID t' = t_JobID t \<and> t_Type t' = t_Type t
        \<and> t_AssignedWorkerID t' = t_AssignedWorkerID t \<and> t_Status t' = TaskStatusCompleted
        \<and> j_ID j' = j_ID j \<and> j_IdentityKey j' = j_IdentityKey j \<and> j_TaskIDs j' = j_TaskIDs j
        \<and> j_Status j' = JobStatusCompleted)"
  apply (auto simp: complete_assemble_locked_def Let_def split: option.splits sum.splits)
   apply (intro exI conjI, rule refl, simp_all)+
  done

lemma fail_assemble_locked_cases:
  "(\<exists>e. fail_assemble_locked i req now m = (Inl e, m))
   \<or> (\<exists>j k t rep t' j'. jm_jobs m i = Some j \<and> assembleCompletionTargetLocked j (jar_WorkerID req) m = Inr (k, t)
        \<and> fail_assemble_locked i req now m = (Inr rep, set_job i j' (set_task k t' m))
        \<and> ar_releaseWorkerID rep = t_AssignedWorkerID t \<and> ar_releaseDiskBytes rep = t_RequiredDiskBytes t
        \<and> t_ID t' = t_ID t \<and> t_JobID t' = t_JobID t \<and> t_Type t' = t_Type t
        \<and> t_AssignedWorkerID t' = t_AssignedWorkerID t \<and> t_Status t' = TaskStatusFailed
        \<and> j_ID j' = j_ID j \<and> j_IdentityKey j' = j_IdentityKey j \<and> j_TaskIDs j' = j_TaskIDs j
        \<and> j_Status j' = JobStatusFailed)"
  apply (auto simp: fail_assemble_locked_def Let_def split: option.splits sum.splits)
  apply (intro exI conjI, rule refl, simp_all)
  done

lemma wf_assembly_report:
  assumes wf: "wf_manager m" and j: "jm_jobs m i = Some j"
    and T: "assembleCompletionTargetLocked j w m = Inr (k, t)"
    and t': "t_ID t' = t_ID t" "t_JobID t' = t_JobID t" "t_Type t' = t_Type t"
    and j': "j_ID j' = j_ID j" "j_IdentityKey j' = j_IdentityKey j" "j_TaskIDs j' = j_TaskIDs j"
    and st: "j_Status j' = JobStatusCompleted \<and> t_Status t' = TaskStatusCompleted
      \<or> j_Status j' = JobStatusFailed \<and> t_Status t' = TaskStatusFailed"
  shows "wf_manager (set_job i j' (set_task k t' m))"
proof -
  note P = assembleCompletionTargetLocked_Inr [OF T]
  have i: "t_JobID t = i" using task_job_unique [OF wf j P(1)] P(2) by auto
  show ?thesis
    by (rule wf_assemble_write [OF wf P(2,3), unfolded i, OF j]) (use t' j' st i in auto)
qed

lemma wf_complete_assemble_locked [wf_intros]:
  assumes wf: "wf_manager m"
  shows "wf_manager (snd (complete_assemble_locked i req w now m))"
  using complete_assemble_locked_cases [of i req w now m] wf wf_assembly_report [OF wf] by auto

lemma wf_fail_assemble_locked [wf_intros]:
  assumes wf: "wf_manager m"
  shows "wf_manager (snd (fail_assemble_locked i req now m))"
  using fail_assemble_locked_cases [of i req now m] wf wf_assembly_report [OF wf] by auto

subsection \<open>A new job\<close>

text \<open>What the loop hands to the commit: tasks of one job with distinct unused identifiers.\<close>

definition fresh_batch :: "Job \<Rightarrow> Task list \<Rightarrow> JobManager \<Rightarrow> bool" where
  "fresh_batch j ts m \<longleftrightarrow>
     ts \<noteq> [] \<and> distinct (map t_ID ts) \<and> (\<forall>t\<in>set ts. jm_tasks m (t_ID t) = None)
     \<and> jm_jobs m (j_ID j) = None"

lemma add_tasks_other: "k \<notin> t_ID ` set ts \<Longrightarrow> add_tasks ts m k = m k"
  by (induction ts m rule: add_tasks.induct) auto

lemma add_tasks_mem: "distinct (map t_ID ts) \<Longrightarrow> t \<in> set ts \<Longrightarrow> add_tasks ts m (t_ID t) = Some t"
proof (induction ts m rule: add_tasks.induct)
  case (1 m)
  then show ?case by simp
next
  case (2 task ts m)
  show ?case
  proof (cases "t \<in> set ts")
    case True
    with "2.prems" show ?thesis unfolding add_tasks.simps by (intro "2.IH") simp_all
  next
    case False
    with "2.prems" have "t = task" by simp
    with "2.prems" show ?thesis by (simp add: add_tasks_other)
  qed
qed

lemma add_tasks_cases:
  assumes "distinct (map t_ID ts)" and "add_tasks ts m k = Some t"
  shows "t \<in> set ts \<and> k = t_ID t \<or> k \<notin> t_ID ` set ts \<and> m k = Some t"
proof (cases "k \<in> t_ID ` set ts")
  case True
  then obtain u where "u \<in> set ts" "k = t_ID u" by auto
  with assms add_tasks_mem [OF assms(1), of u m] show ?thesis by auto
next
  case False
  with assms(2) show ?thesis by (auto simp: add_tasks_other)
qed

lemma finite_add_tasks: "finite (dom m) \<Longrightarrow> finite (dom (add_tasks ts m))"
  by (induction ts m rule: add_tasks.induct) auto

lemma wf_commit_job:
  assumes wf: "wf_manager m" and new: "fresh_batch j ts m"
    and j: "j_IdentityKey j = key" "j_TaskIDs j = map t_ID ts" "j_Status j = JobStatusSegmentAssigned"
    and ts: "\<forall>t\<in>set ts. t_Type t = TaskTypeProcessSegment \<and> t_JobID t = j_ID j \<and> t_Status t = TaskStatusAssigned"
  shows "wf_manager (snd (commit_job key j ts m))"
proof (cases "jm_jobIDByIdentity m key")
  case (Some k)
  with wf show ?thesis by (simp add: commit_job_def)
next
  case None
  note D = wf_managerD [OF wf]
  from new have ne: "ts \<noteq> []" and dist: "distinct (map t_ID ts)"
    and fresh: "\<forall>t\<in>set ts. jm_tasks m (t_ID t) = None" and nojob: "jm_jobs m (j_ID j) = None"
    by (simp_all add: fresh_batch_def)
  let ?ts = "add_tasks ts (jm_tasks m)"
  let ?m = "m\<lparr>jm_jobs := (jm_jobs m)(j_ID j \<mapsto> j),
      jm_jobIDByIdentity := (jm_jobIDByIdentity m)(key \<mapsto> j_ID j), jm_tasks := ?ts\<rparr>"
  note mem = add_tasks_mem [OF dist]
  have "wf_manager ?m"
  proof (rule wf_managerI)
    show "finite (dom (jm_jobs ?m))" and "finite (dom (jm_tasks ?m))"
      using D(1,2) by (simp_all add: finite_add_tasks)
    obtain t0 where t0: "t0 \<in> set ts" using ne by (cases ts) auto
    have seg: "seg_tasks ?ts (j_ID j) (j_TaskIDs j)"
      using ne dist mem ts j(2) by (auto simp: seg_tasks_def)
    have "\<not> all_done ?ts (j_TaskIDs j)"
    proof
      assume "all_done ?ts (j_TaskIDs j)"
      with t0 j(2) obtain u where "?ts (t_ID t0) = Some u" "t_Status u = TaskStatusCompleted"
        by (auto simp: all_done_def)
      with mem [OF t0] ts t0 show False by auto
    qed
    with seg j have ok: "job_ok ?ts j" by (simp add: job_ok_def collecting_def)
    show "j_ID jj = k \<and> jm_jobIDByIdentity ?m (j_IdentityKey jj) = Some k \<and> job_ok (jm_tasks ?m) jj"
      if jj: "jm_jobs ?m k = Some jj" for k jj
    proof (cases "k = j_ID j")
      case True
      with jj ok j show ?thesis by simp
    next
      case False
      with jj have old: "jm_jobs m k = Some jj" by simp
      have "k \<notin> t_ID ` set ts" if "k \<in> set (j_TaskIDs jj)" for k
        using task_job_unique [OF wf old that] fresh by auto
      then have "job_ok ?ts jj = job_ok (jm_tasks m) jj"
        by (intro job_ok_cong) (auto simp: add_tasks_other)
      with D(3-5) [OF old] None show ?thesis by auto
    qed
    show "\<exists>jj. jm_jobs ?m k = Some jj \<and> j_IdentityKey jj = x" if "jm_jobIDByIdentity ?m x = Some k" for x k
    proof (cases "x = key")
      case True
      with that j(1) show ?thesis by auto
    next
      case False
      with that have "jm_jobIDByIdentity m x = Some k" by simp
      with D(6) [of x k] nojob show ?thesis by auto
    qed
    show "t_ID u = k \<and> (\<exists>jj. jm_jobs ?m (t_JobID u) = Some jj \<and> k \<in> set (j_TaskIDs jj))"
      if u: "jm_tasks ?m k = Some u" for k u
    proof -
      from u have "?ts k = Some u" by simp
      from add_tasks_cases [OF dist this] consider
        "u \<in> set ts" "k = t_ID u" | "jm_tasks m k = Some u" by blast
      then show ?thesis
      proof cases
        case 1
        with ts j(2) show ?thesis by simp
      next
        case 2
        with D(7) [OF 2] D(8) [OF 2] nojob show ?thesis by auto
      qed
    qed
  qed
  with None show ?thesis by (simp add: commit_job_def)
qed

end
