(* ===== verification/Entry_Steps.thy ===== *)
theory Entry_Steps
  imports Job_Create Job_Invariant "HOL-Library.Multiset"
begin

text \<open>
  Entry as an interleaving system. Requests are served by concurrent goroutines that hold a lock
  only inside one critical section, so a state of Entry is the registry, the manager and the
  requests under way, each at the point between two critical sections where it stands
  (\<open>Activity\<close>). \<open>entry_step\<close> has one rule per critical section; its effect is the definition of
  that section in \<open>Worker_Registry\<close>, \<open>Job_Manager\<close> or \<open>Job_Assembly\<close>. A rule that stores
  new tasks requires their random identifiers to be unused. (\<open>create_begin\<close> and \<open>assembled\<close> read the
  registry through \<open>GetWorker\<close> first; what they use of the worker, its identifier and its address, never
  changes.)

  \<open>wd_phantom\<close> and \<open>wd_phantom_disk\<close> are ghosts: they count, per worker, what the failure path of
  \<open>startAssembleGIF\<close> will release although the task it belongs to has already ended.
\<close>

datatype Activity =
    CreatingJob CreateJobRequest Worker string int "CreateJobTaskRequest list" "CreateJobTaskRequest list" TaskBatch
  | ReleasingSlots "string list" "string option"
  | StartingAssembly string
  | PickingAssembler string AssembleSnapshot
  | CommittingAssembly string AssembleSnapshot Worker string
  | PostingAssembly string string string int
  | ReleasingDisk string int "string option"
  | MarkingFailed string

record World =
  wd_registry :: WorkerRegistry
  wd_manager :: JobManager
  wd_active :: "Activity multiset"
  wd_phantom :: "string \<Rightarrow> int"
  wd_phantom_disk :: "string \<Rightarrow> int"

definition NewWorld :: World where
  "NewWorld =
     \<lparr>wd_registry = NewWorkerRegistry, wd_manager = NewJobManager, wd_active = {#},
      wd_phantom = (\<lambda>_. 0), wd_phantom_disk = (\<lambda>_. 0)\<rparr>"

definition batch_add :: "TaskBatch \<Rightarrow> string \<Rightarrow> string \<Rightarrow> CreateJobTaskRequest \<Rightarrow> Worker \<Rightarrow> int \<Rightarrow> TaskBatch" where
  "batch_add b taskID jobID taskReq worker now =
     \<lparr>tb_reserved = tb_reserved b @ [w_ID worker],
      tb_tasks = tb_tasks b @ [new_segment_task taskID jobID taskReq worker now],
      tb_assignments = tb_assignments b @ [new_assignment taskID taskReq worker]\<rparr>"

definition job_of_request ::
  "CreateJobRequest \<Rightarrow> Worker \<Rightarrow> string \<Rightarrow> int \<Rightarrow> CreateJobTaskRequest list \<Rightarrow> TaskBatch \<Rightarrow> Job" where
  "job_of_request req sw jobID now plan b =
     new_job jobID req sw (jobIdentityKey (w_Address sw) (cjr_VideoName req)) plan (tb_tasks b) now"

definition then_activity :: "(string \<Rightarrow> Activity) \<Rightarrow> string option \<Rightarrow> Activity multiset \<Rightarrow> Activity multiset" where
  "then_activity f nxt A = (case nxt of None \<Rightarrow> A | Some jobID \<Rightarrow> add_mset (f jobID) A)"

definition report_release :: "AssembleReport \<Rightarrow> Activity multiset \<Rightarrow> Activity multiset" where
  "report_release rep A =
     (if ar_releaseWorkerID rep \<noteq> []
      then add_mset (ReleasingDisk (ar_releaseWorkerID rep) (ar_releaseDiskBytes rep) None) A else A)"

definition task_active :: "string \<Rightarrow> JobManager \<Rightarrow> bool" where
  "task_active k m \<longleftrightarrow> (case jm_tasks m k of None \<Rightarrow> False | Some t \<Rightarrow> active t)"

text \<open>The registry after a reply that did not start the assembly.\<close>

definition observe_disk :: "string \<Rightarrow> StartAssembleGIFResponse HttpResult \<Rightarrow> int \<Rightarrow> WorkerRegistry \<Rightarrow> WorkerRegistry" where
  "observe_disk workerID reply now r =
     (case notifyAssembleWorker reply of
        Inl err \<Rightarrow> r
      | Inr resp \<Rightarrow>
          if sap_Status resp = StartAssembleGIFStatusInsufficientStorage \<and> 0 < sap_DiskFreeBytes resp
          then UpdateWorkerObservedDiskFree workerID (sap_DiskFreeBytes resp) now r else r)"

definition reply_started :: "StartAssembleGIFResponse HttpResult \<Rightarrow> bool" where
  "reply_started reply =
     (case notifyAssembleWorker reply of
        Inl err \<Rightarrow> False | Inr resp \<Rightarrow> sap_Status resp = StartAssembleGIFStatusSuccess)"

definition bind_reply :: "StartAssembleGIFResponse HttpResult \<Rightarrow> bool" where
  "bind_reply reply =
     (case reply of HttpResp code (Inr resp) \<Rightarrow> in64 (sap_DiskFreeBytes resp) | _ \<Rightarrow> True)"

inductive entry_step :: "World \<Rightarrow> World \<Rightarrow> bool" where
  register:
    "bind_RegisterWorkerRequest req \<Longrightarrow> RegisterWorker req now draws (wd_registry W) = Some (res, r')
     \<Longrightarrow> entry_step W (W\<lparr>wd_registry := r'\<rparr>)"
| heartbeat:
    "bind_HeartbeatWorkerRequest req \<Longrightarrow> HeartbeatWorker req now (wd_registry W) = (res, r')
     \<Longrightarrow> entry_step W (W\<lparr>wd_registry := r'\<rparr>)"
| expire:
    "MarkExpiredWorkers timeout ord now (wd_registry W) = (n, r') \<Longrightarrow> entry_step W (W\<lparr>wd_registry := r'\<rparr>)"
| backpressure:
    "RefreshBackpressureStatus ord (wd_registry W) = (st, r') \<Longrightarrow> entry_step W (W\<lparr>wd_registry := r'\<rparr>)"
| create_begin:
    "createJobTaskPlan req = Inr plan \<Longrightarrow> GetWorker (cjr_WorkerID req) (wd_registry W) = Some sw
     \<Longrightarrow> nextID ''job_'' d = Inr jobID
     \<Longrightarrow> entry_step W
           (W\<lparr>wd_active := add_mset (CreatingJob req sw jobID now plan plan zero_TaskBatch) (wd_active W)\<rparr>)"
| create_assign:
    "wd_active W = add_mset (CreatingJob req sw jobID now (q # rest) plan b) A
     \<Longrightarrow> assignSegmentWorker (w_ID sw) ev (cjt_Mode q) (wd_registry W) = (Some w, r')
     \<Longrightarrow> nextID ''task_'' (ev_draw ev) = Inr taskID
     \<Longrightarrow> entry_step W
           (W\<lparr>wd_registry := r',
             wd_active := add_mset (CreatingJob req sw jobID now rest plan (batch_add b taskID jobID q w now)) A\<rparr>)"
| create_refused:
    "wd_active W = add_mset (CreatingJob req sw jobID now (q # rest) plan b) A
     \<Longrightarrow> assignSegmentWorker (w_ID sw) ev (cjt_Mode q) (wd_registry W) = (None, r')
     \<Longrightarrow> entry_step W
           (W\<lparr>wd_registry := r', wd_active := add_mset (ReleasingSlots (tb_reserved b) None) A\<rparr>)"
| create_no_draw:
    "wd_active W = add_mset (CreatingJob req sw jobID now (q # rest) plan b) A
     \<Longrightarrow> assignSegmentWorker (w_ID sw) ev (cjt_Mode q) (wd_registry W) = (Some w, r')
     \<Longrightarrow> nextID ''task_'' (ev_draw ev) = Inl e
     \<Longrightarrow> entry_step W
           (W\<lparr>wd_registry := r',
             wd_active := add_mset (ReleasingSlots (tb_reserved b @ [w_ID w]) None) A\<rparr>)"
| create_commit:
    "wd_active W = add_mset (CreatingJob req sw jobID now [] plan b) A
     \<Longrightarrow> job = job_of_request req sw jobID now plan b
     \<Longrightarrow> fresh_batch job (tb_tasks b) (wd_manager W)
     \<Longrightarrow> commit_job (j_IdentityKey job) job (tb_tasks b) (wd_manager W) = (None, m')
     \<Longrightarrow> entry_step W (W\<lparr>wd_manager := m', wd_active := A\<rparr>)"
| create_exists:
    "wd_active W = add_mset (CreatingJob req sw jobID now [] plan b) A
     \<Longrightarrow> job = job_of_request req sw jobID now plan b
     \<Longrightarrow> commit_job (j_IdentityKey job) job (tb_tasks b) (wd_manager W) = (Some existing, m')
     \<Longrightarrow> entry_step W
           (W\<lparr>wd_manager := m', wd_active := add_mset (ReleasingSlots (tb_reserved b) None) A\<rparr>)"
| accept:
    "AcceptSegmentTask k areq now (wd_manager W) = (res, m') \<Longrightarrow> entry_step W (W\<lparr>wd_manager := m'\<rparr>)"
| complete_segment:
    "bind_TaskCompletedRequest creq
     \<Longrightarrow> complete_segment_locked k creq now (wd_manager W) = (Inr rep, m')
     \<Longrightarrow> entry_step W
           (W\<lparr>wd_manager := m',
             wd_active := add_mset (ReleasingSlots [sg_workerID rep]
                 (if sg_allCompleted rep then Some (sg_jobID rep) else None)) (wd_active W)\<rparr>)"
| fail_segment:
    "fail_segment_locked k freq now (wd_manager W) = (Inr rep, m')
     \<Longrightarrow> entry_step W
           (W\<lparr>wd_manager := m', wd_active := add_mset (ReleasingSlots [sg_workerID rep] None) (wd_active W)\<rparr>)"
| release_slots:
    "wd_active W = add_mset (ReleasingSlots ks nxt) A
     \<Longrightarrow> entry_step W
           (W\<lparr>wd_registry := ReleaseReservations ks now (wd_registry W),
             wd_active := then_activity StartingAssembly nxt A\<rparr>)"
| snapshot:
    "wd_active W = add_mset (StartingAssembly jobID) A
     \<Longrightarrow> assemble_snapshot jobID (wd_manager W) = Inr s
     \<Longrightarrow> entry_step W (W\<lparr>wd_active := add_mset (PickingAssembler jobID s) A\<rparr>)"
| snapshot_refused:
    "wd_active W = add_mset (StartingAssembly jobID) A
     \<Longrightarrow> assemble_snapshot jobID (wd_manager W) = Inl e
     \<Longrightarrow> entry_step W (W\<lparr>wd_active := A\<rparr>)"
| pick:
    "wd_active W = add_mset (PickingAssembler jobID s) A
     \<Longrightarrow> PickWorkerForDiskReservation TaskTypeAssembleGIF (required_disk s) (ev_ord (ev :: Env)) (ev_now ev)
           (wd_registry W) = (Some w, r')
     \<Longrightarrow> nextID ''task_'' (ev_draw ev) = Inr taskID
     \<Longrightarrow> entry_step W
           (W\<lparr>wd_registry := r', wd_active := add_mset (CommittingAssembly jobID s w taskID) A\<rparr>)"
| pick_no_draw:
    "wd_active W = add_mset (PickingAssembler jobID s) A
     \<Longrightarrow> PickWorkerForDiskReservation TaskTypeAssembleGIF (required_disk s) (ev_ord (ev :: Env)) (ev_now ev)
           (wd_registry W) = (Some w, r')
     \<Longrightarrow> nextID ''task_'' (ev_draw ev) = Inl e
     \<Longrightarrow> entry_step W
           (W\<lparr>wd_registry := r',
             wd_active := add_mset (ReleasingDisk (w_ID w) (required_disk s) (Some jobID)) A\<rparr>)"
| pick_none:
    "wd_active W = add_mset (PickingAssembler jobID s) A
     \<Longrightarrow> PickWorkerForDiskReservation TaskTypeAssembleGIF (required_disk s) ord now (wd_registry W) = (None, r')
     \<Longrightarrow> entry_step W (W\<lparr>wd_registry := r', wd_active := add_mset (MarkingFailed jobID) A\<rparr>)"
| commit:
    "wd_active W = add_mset (CommittingAssembly jobID s w taskID) A
     \<Longrightarrow> jm_tasks (wd_manager W) taskID = None
     \<Longrightarrow> assemble_commit jobID (new_assemble_task taskID jobID w (required_disk s) now) now (wd_manager W)
           = (True, m')
     \<Longrightarrow> entry_step W
           (W\<lparr>wd_manager := m',
             wd_active := add_mset (PostingAssembly jobID taskID (w_ID w) (required_disk s)) A\<rparr>)"
| commit_refused:
    "wd_active W = add_mset (CommittingAssembly jobID s w taskID) A
     \<Longrightarrow> assemble_commit jobID (new_assemble_task taskID jobID w (required_disk s) now) now (wd_manager W)
           = (False, m')
     \<Longrightarrow> entry_step W
           (W\<lparr>wd_manager := m', wd_active := add_mset (ReleasingDisk (w_ID w) (required_disk s) None) A\<rparr>)"
| started:
    "wd_active W = add_mset (PostingAssembly jobID taskID workerID d) A \<Longrightarrow> reply_started reply
     \<Longrightarrow> entry_step W
           (W\<lparr>wd_manager := assemble_started jobID taskID now (wd_manager W), wd_active := A\<rparr>)"
| disk_observed:
    "wd_active W = add_mset (PostingAssembly jobID taskID workerID d) A \<Longrightarrow> \<not> reply_started reply
     \<Longrightarrow> bind_reply reply
     \<Longrightarrow> entry_step W (W\<lparr>wd_registry := observe_disk workerID reply now (wd_registry W)\<rparr>)"
| start_failed:
    "wd_active W = add_mset (PostingAssembly jobID taskID workerID d) A \<Longrightarrow> \<not> reply_started reply
     \<Longrightarrow> over = (if task_active taskID (wd_manager W) then 0 else 1)
     \<Longrightarrow> entry_step W
           (W\<lparr>wd_manager := assemble_start_failed_locked jobID taskID reason False now (wd_manager W),
             wd_active := add_mset (ReleasingDisk workerID d None) A,
             wd_phantom := (wd_phantom W)(workerID := wd_phantom W workerID + over),
             wd_phantom_disk := (wd_phantom_disk W)(workerID := wd_phantom_disk W workerID + over * d)\<rparr>)"
| release_disk:
    "wd_active W = add_mset (ReleasingDisk workerID d nxt) A
     \<Longrightarrow> entry_step W
           (W\<lparr>wd_registry := ReleaseReservation workerID d now (wd_registry W),
             wd_active := then_activity MarkingFailed nxt A\<rparr>)"
| mark_failed:
    "wd_active W = add_mset (MarkingFailed jobID) A
     \<Longrightarrow> entry_step W (W\<lparr>wd_manager := markJobFailed jobID now (wd_manager W), wd_active := A\<rparr>)"
| assembled:
    "GetWorker (jar_WorkerID jreq) (wd_registry W) = Some w
     \<Longrightarrow> complete_assemble_locked jobID jreq w now (wd_manager W) = (Inr rep, m')
     \<Longrightarrow> entry_step W (W\<lparr>wd_manager := m', wd_active := report_release rep (wd_active W)\<rparr>)"
| assembly_failed:
    "fail_assemble_locked jobID jreq now (wd_manager W) = (Inr rep, m')
     \<Longrightarrow> entry_step W (W\<lparr>wd_manager := m', wd_active := report_release rep (wd_active W)\<rparr>)"

end
