(* ===== verification/Entry_Ledger.thy ===== *)
theory Entry_Ledger
  imports Entry_Steps
begin

text \<open>
  The ledger of reservations under all interleavings. A worker's counter (slots or disk) is
  compared with what is held on it: by the tasks that are assigned or running, and by the
  requests under way between a reservation and its release.
\<close>

subsection \<open>Holdings\<close>

datatype Resource = Slots | Disk

fun amount :: "Resource \<Rightarrow> int \<Rightarrow> int \<Rightarrow> int" where
  "amount Slots s d = s"
| "amount Disk s d = d"

definition counter :: "Resource \<Rightarrow> WorkerRegistry \<Rightarrow> string \<Rightarrow> int" where
  "counter R r k = amount R (slots_of r k) (disk_of r k)"

definition task_hold :: "Resource \<Rightarrow> string \<Rightarrow> Task \<Rightarrow> int" where
  "task_hold R k t = (if active t \<and> t_AssignedWorkerID t = k then amount R 1 (t_RequiredDiskBytes t) else 0)"

fun activity_hold :: "Resource \<Rightarrow> string \<Rightarrow> Activity \<Rightarrow> int" where
  "activity_hold R k (CreatingJob req sw jobID now rest plan b) = amount R (int (count_list (tb_reserved b) k)) 0"
| "activity_hold R k (ReleasingSlots ks nxt) = amount R (int (count_list ks k)) 0"
| "activity_hold R k (StartingAssembly jobID) = 0"
| "activity_hold R k (PickingAssembler jobID s) = 0"
| "activity_hold R k (CommittingAssembly jobID s w taskID) = (if w_ID w = k then amount R 1 (required_disk s) else 0)"
| "activity_hold R k (PostingAssembly jobID taskID workerID d) = 0"
| "activity_hold R k (ReleasingDisk workerID d nxt) = (if workerID = k then amount R 1 d else 0)"
| "activity_hold R k (MarkingFailed jobID) = 0"

definition held :: "Resource \<Rightarrow> string \<Rightarrow> World \<Rightarrow> int" where
  "held R k W = msum (task_hold R k) (jm_tasks (wd_manager W)) + (\<Sum>a\<in>#wd_active W. activity_hold R k a)"

definition phantom :: "Resource \<Rightarrow> string \<Rightarrow> World \<Rightarrow> int" where
  "phantom R k W = amount R (wd_phantom W k) (wd_phantom_disk W k)"

text \<open>The bounds under which no counter wraps: fewer than \<open>slot_limit\<close> slots are held on a worker,
  and the disk estimates of the assemblies being started did not overflow.\<close>

definition within :: "World \<Rightarrow> bool" where
  "within W \<longleftrightarrow>
     (\<forall>k. held Slots k W < slot_limit)
     \<and> (\<forall>jobID s. PickingAssembler jobID s \<in># wd_active W \<longrightarrow> 0 \<le> required_disk s)"

definition bounded_step :: "World \<Rightarrow> World \<Rightarrow> bool" where
  "bounded_step W W' \<longleftrightarrow> entry_step W W' \<and> within W'"

subsection \<open>The registry's side\<close>

definition reg_ok :: "WorkerRegistry \<Rightarrow> bool" where
  "reg_ok r \<longleftrightarrow> wf_registry r \<and> wr_byID r [] = None
     \<and> (\<forall>k w. wr_byID r k = Some w \<longrightarrow>
          0 \<le> w_DiskFreeBytes w \<and> 0 \<le> w_ReservedSlots w \<and> 0 \<le> w_ReservedDiskBytes w)"

lemma reg_okD:
  assumes "reg_ok r"
  shows "wf_registry r" "wr_byID r [] = None"
    "wr_byID r k = Some w \<Longrightarrow> 0 \<le> w_DiskFreeBytes w"
    "wr_byID r k = Some w \<Longrightarrow> 0 \<le> w_ReservedSlots w"
    "wr_byID r k = Some w \<Longrightarrow> 0 \<le> w_ReservedDiskBytes w"
  using assms by (auto simp: reg_ok_def)

lemma counter_nonneg: "reg_ok r \<Longrightarrow> 0 \<le> counter R r k"
  by (cases R; cases "wr_byID r k") (auto simp: counter_def slots_of_cases reg_ok_def)

lemma reg_ok_set_worker:
  assumes "reg_ok r" and "wr_byID r k = Some w" and "w_ID w' = w_ID w" and "w_Address w' = w_Address w"
    and "wf_worker w'" and "0 \<le> w_DiskFreeBytes w'" and "0 \<le> w_ReservedSlots w'" and "0 \<le> w_ReservedDiskBytes w'"
  shows "reg_ok (set_worker r k w')"
  using assms wf_set_worker [OF reg_okD(1) [OF assms(1)] assms(2-5)] by (auto simp: reg_ok_def)

lemma counter_set_worker:
  "counter R (set_worker r k w) j = (if j = k then amount R (w_ReservedSlots w) (w_ReservedDiskBytes w) else counter R r j)"
  by (cases R) (simp_all add: counter_def)

lemma counter_worker: "wr_byID r k = Some w \<Longrightarrow> counter R r k = amount R (w_ReservedSlots w) (w_ReservedDiskBytes w)"
  by (cases R) (simp_all add: counter_def slots_of_cases)

lemma counter_unknown: "wr_byID r k = None \<Longrightarrow> counter R r k = 0"
  by (cases R) (simp_all add: counter_def slots_of_cases)

text \<open>Every step of the registry keeps it well formed, forgets no worker and changes the counters
  as the ledger expects.\<close>

definition ledger_effect :: "(Resource \<Rightarrow> string \<Rightarrow> int) \<Rightarrow> WorkerRegistry \<Rightarrow> WorkerRegistry \<Rightarrow> bool" where
  "ledger_effect c r r' \<longleftrightarrow> reg_ok r' \<and> dom (wr_byID r) \<subseteq> dom (wr_byID r') \<and> (\<forall>R k. counter R r' k = c R k)"

lemma effect_set_worker:
  assumes "reg_ok r" and "wr_byID r k = Some w" and "w_ID w' = w_ID w" and "w_Address w' = w_Address w"
    and "wf_worker w'" and "0 \<le> w_DiskFreeBytes w'" and "0 \<le> w_ReservedSlots w'" and "0 \<le> w_ReservedDiskBytes w'"
  shows "ledger_effect (\<lambda>R j. if j = k then amount R (w_ReservedSlots w') (w_ReservedDiskBytes w') else counter R r j)
    r (set_worker r k w')"
  using reg_ok_set_worker [OF assms] assms(2) by (auto simp: ledger_effect_def counter_set_worker)

lemma effect_cong: "ledger_effect c r r' \<Longrightarrow> (\<And>R k. c R k = c' R k) \<Longrightarrow> ledger_effect c' r r'"
  by (simp add: ledger_effect_def)

lemma effect_refl: "reg_ok r \<Longrightarrow> ledger_effect (\<lambda>R k. counter R r k) r r"
  by (simp add: ledger_effect_def)

lemma effect_same:
  assumes "reg_ok r" and "wr_byID r k = Some w" and "w_ID w' = w_ID w" and "w_Address w' = w_Address w"
    and "wf_worker w'" and "0 \<le> w_DiskFreeBytes w'"
    and "w_ReservedSlots w' = w_ReservedSlots w" and "w_ReservedDiskBytes w' = w_ReservedDiskBytes w"
  shows "ledger_effect (\<lambda>R j. counter R r j) r (set_worker r k w')"
  by (rule effect_cong [OF effect_set_worker [OF assms(1-6)]])
    (use assms reg_okD [OF assms(1)] in \<open>auto simp: counter_worker\<close>)

lemma RegisterWorker_new:
  assumes "RegisterWorker req now draws r = Some (Inr p, r')" and "wr_idByAddr r (rwr_Address req) = None"
  shows "\<exists>k. nextWorkerIDLocked r draws = Some (Inr k)
    \<and> r' = r\<lparr>wr_byID := (wr_byID r)(k \<mapsto> fst p), wr_idByAddr := (wr_idByAddr r)(rwr_Address req \<mapsto> k),
          wr_addrByID := (wr_addrByID r)(k \<mapsto> rwr_Address req)\<rparr>
    \<and> w_ReservedSlots (fst p) = 0 \<and> w_ReservedDiskBytes (fst p) = 0
    \<and> w_DiskFreeBytes (fst p) = rwr_DiskFreeBytes req"
proof -
  from assms have v: "validateRegisterWorkerRequest req = None"
    by (auto simp: RegisterWorker_def split: option.splits)
  with assms obtain k where k: "nextWorkerIDLocked r draws = Some (Inr k)"
    by (auto simp: RegisterWorker_def split: option.splits sum.splits)
  from assms v k show ?thesis
    by (intro exI [of _ k]) (simp add: RegisterWorker_def Let_def, elim conjE, hypsubst, simp)
qed

lemma RegisterWorker_old:
  assumes "RegisterWorker req now draws r = Some (Inr p, r')" and "wr_idByAddr r (rwr_Address req) = Some k"
    and "wr_byID r k = Some w"
  shows "r' = set_worker r k (fst p) \<and> w_ReservedSlots (fst p) = w_ReservedSlots w
    \<and> w_ReservedDiskBytes (fst p) = w_ReservedDiskBytes w \<and> w_DiskFreeBytes (fst p) = rwr_DiskFreeBytes req"
proof -
  from assms have v: "validateRegisterWorkerRequest req = None"
    by (auto simp: RegisterWorker_def split: option.splits)
  from assms v show ?thesis
    by (simp add: RegisterWorker_def Let_def, elim conjE, hypsubst, simp)
qed

lemma effect_RegisterWorker:
  assumes ok: "reg_ok r" and b: "bind_RegisterWorkerRequest req"
    and R: "RegisterWorker req now draws r = Some (res, r')"
  shows "ledger_effect (\<lambda>R k. counter R r k) r r'"
proof -
  have wf': "wf_registry r'"
    using wf_RegisterWorker [OF reg_okD(1) [OF ok]] b R by (force simp: bind_RegisterWorkerRequest_def)
  show ?thesis
  proof (cases res)
    case (Inl e)
    with R have "r' = r" by (auto simp: RegisterWorker_def Let_def split: option.splits sum.splits)
    with ok show ?thesis by (simp add: effect_refl)
  next
    case (Inr p)
    note R = R [unfolded Inr]
    show ?thesis
    proof (cases "wr_idByAddr r (rwr_Address req)")
      case None
      from RegisterWorker_new [OF R None] obtain k where
        k: "nextWorkerIDLocked r draws = Some (Inr k)" and
        r': "r' = r\<lparr>wr_byID := (wr_byID r)(k \<mapsto> fst p), wr_idByAddr := (wr_idByAddr r)(rwr_Address req \<mapsto> k),
              wr_addrByID := (wr_addrByID r)(k \<mapsto> rwr_Address req)\<rparr>"
        and w: "w_ReservedSlots (fst p) = 0" "w_ReservedDiskBytes (fst p) = 0"
          "w_DiskFreeBytes (fst p) = rwr_DiskFreeBytes req"
        by blast
      have fresh: "wr_byID r k = None" and "k \<noteq> []"
        using k by (induction r draws rule: nextWorkerIDLocked.induct) (auto simp: Let_def split: if_splits)
      have "counter R r' j = counter R r j" for R j
        using fresh w by (cases R) (auto simp: r' counter_def slots_of_def disk_of_def)
      with wf' r' ok fresh w b \<open>k \<noteq> []\<close> show ?thesis
        by (auto simp: ledger_effect_def reg_ok_def bind_RegisterWorkerRequest_def)
    next
      case (Some k)
      from wf_registry_addr [OF reg_okD(1) [OF ok] Some] obtain w where w: "wr_byID r k = Some w" by blast
      from RegisterWorker_old [OF R Some w] have r': "r' = set_worker r k (fst p)"
        and w': "w_ReservedSlots (fst p) = w_ReservedSlots w" "w_ReservedDiskBytes (fst p) = w_ReservedDiskBytes w"
          "w_DiskFreeBytes (fst p) = rwr_DiskFreeBytes req"
        by simp_all
      have "counter R r' j = counter R r j" for R j
        using w w' by (simp add: r' counter_set_worker counter_worker)
      moreover have "reg_ok r'"
        using wf' ok w w' b reg_okD [OF ok] by (auto simp: reg_ok_def r' bind_RegisterWorkerRequest_def)
      ultimately show ?thesis using w by (auto simp: ledger_effect_def r')
    qed
  qed
qed

lemma effect_HeartbeatWorker:
  assumes ok: "reg_ok r" and b: "bind_HeartbeatWorkerRequest req"
  shows "ledger_effect (\<lambda>R k. counter R r k) r (snd (HeartbeatWorker req now r))"
proof (cases "validateHeartbeatWorkerRequest req = None \<and> wr_byID r (hwr_WorkerID req) \<noteq> None")
  case False
  with ok show ?thesis by (auto simp: HeartbeatWorker_def effect_refl split: option.splits)
next
  case True
  then obtain w where w: "wr_byID r (hwr_WorkerID req) = Some w" by auto
  with True b wf_registryD(4) [OF reg_okD(1) [OF ok] w] show ?thesis
    by (auto simp: HeartbeatWorker_def bind_HeartbeatWorkerRequest_def wf_worker_def
        intro!: effect_same [OF ok w])
qed

lemma effect_trans:
  assumes "ledger_effect (\<lambda>R k. counter R r k) r r1" and "ledger_effect (\<lambda>R k. counter R r1 k) r1 r2"
  shows "ledger_effect (\<lambda>R k. counter R r k) r r2"
  using assms unfolding ledger_effect_def by (metis subset_trans)

lemma effect_mark_expired_loop:
  "reg_ok (snd acc) \<Longrightarrow>
   ledger_effect (\<lambda>R k. counter R (snd acc) k) (snd acc) (snd (mark_expired_loop now timeout ks acc))"
proof (induction now timeout ks acc rule: mark_expired_loop.induct)
  case (1 now timeout acc)
  then show ?case by (simp add: effect_refl)
next
  case (2 now timeout k ks expired r)
  have step: "ledger_effect (\<lambda>R j. counter R r j) r
      (set_worker r k (w\<lparr>w_Online := False, w_FreeSlots := 0, w_UpdatedAt := now\<rparr>))"
    if w: "wr_byID r k = Some w" for w
    using 2(4) wf_registryD(4) [OF reg_okD(1) w] reg_okD(3) [OF _ w]
    by (intro effect_same [OF _ w]) (auto simp: wf_worker_def)
  then have ok: "reg_ok (set_worker r k (w\<lparr>w_Online := False, w_FreeSlots := 0, w_UpdatedAt := now\<rparr>))"
    if "wr_byID r k = Some w" for w
    using that by (auto simp: ledger_effect_def)
  show ?case
  proof (cases "wr_byID r k")
    case None
    with 2 show ?thesis by simp
  next
    case (Some w)
    with 2 show ?thesis
      using effect_trans [OF step [OF Some]] ok [OF Some] by (cases "worker_expired now timeout w") simp_all
  qed
qed

lemma effect_MarkExpiredWorkers:
  "reg_ok r \<Longrightarrow> ledger_effect (\<lambda>R k. counter R r k) r (snd (MarkExpiredWorkers timeout ord now r))"
  using effect_mark_expired_loop [of "(0, r)"] by (simp add: MarkExpiredWorkers_def)

lemma effect_RefreshBackpressureStatus:
  assumes "reg_ok r"
  shows "ledger_effect (\<lambda>R k. counter R r k) r (snd (RefreshBackpressureStatus ord r))"
proof -
  have "counter R (r\<lparr>wr_backpressure := b\<rparr>) k = counter R r k" for R k b
    by (cases R) (simp_all add: counter_def slots_of_def disk_of_def)
  with assms show ?thesis
    by (simp add: RefreshBackpressureStatus_def Let_def ledger_effect_def reg_ok_def split: prod.splits)
qed

lemma amount_diff: "amount R (a - b) (c - d) = amount R a c - amount R b d"
  and amount_add: "amount R (a + b) (c + d) = amount R a c + amount R b d"
  and amount_0 [simp]: "amount R 0 0 = 0"
  by (cases R; simp)+

lemma effect_assign:
  assumes ok: "reg_ok r" and a: "assignSegmentWorker src ev mode r = (Some w, r')"
    and lim: "slots_of r (w_ID w) < slot_limit"
  shows "ledger_effect (\<lambda>R k. counter R r k + amount R (if k = w_ID w then 1 else 0) 0) r r'"
    and "w_ID w \<in> dom (wr_byID r)"
proof -
  from reg_okD(1) [OF ok] a obtain u where u: "wr_byID r (w_ID u) = Some u" "w = reserve_slots 1 (ev_now ev) u"
    "w_ID w = w_ID u" "r' = set_worker r (w_ID u) w"
    by (rule assignSegmentWorker_Some)
  note D = reg_okD [OF ok]
  have n: "w_ReservedSlots w = w_ReservedSlots u + 1"
    using u(1,2) lim D(4) [OF u(1)] by (simp add: u(3) slots_of_cases slot_limit_def add64_eq in64_def)
  have "ledger_effect (\<lambda>R j. if j = w_ID u then amount R (w_ReservedSlots w) (w_ReservedDiskBytes w) else counter R r j)
      r (set_worker r (w_ID u) w)"
    using u(2) n D(3-5) [OF u(1)] wf_registryD(4) [OF D(1) u(1)]
    by (intro effect_set_worker [OF ok u(1)]) (simp_all add: wf_reserve_slots)
  then show "ledger_effect (\<lambda>R k. counter R r k + amount R (if k = w_ID w then 1 else 0) 0) r r'"
    unfolding u(4) by (rule effect_cong) (use u(2,3) n counter_worker [OF u(1)] in \<open>simp add: amount_add [symmetric]\<close>)
  show "w_ID w \<in> dom (wr_byID r)" using u(1,3) by auto
qed

lemma assign_None: "reg_ok r \<Longrightarrow> assignSegmentWorker src ev mode r = (None, r') \<Longrightarrow> r' = r"
  using assignSegmentWorker_cases [OF reg_okD(1), where src = src and ev = ev and mode = mode] by force

lemma effect_pick:
  assumes ok: "reg_ok r" and d: "0 \<le> d"
    and P: "PickWorkerForDiskReservation t d ord now r = (Some w, r')"
    and lim: "slots_of r (w_ID w) < slot_limit"
  shows "ledger_effect (\<lambda>R k. counter R r k + (if k = w_ID w then amount R 1 d else 0)) r r'"
    and "w_ID w \<in> dom (wr_byID r)"
proof -
  note D = reg_okD [OF ok]
  from P obtain u where f: "fold (pick_disk_step t d) (List.map_filter (wr_byID r) ord) None = Some u"
    and w: "w = reserve_disk d now u" and r': "r' = set_worker r (w_ID u) w"
    by (auto simp: PickWorkerForDiskReservation_def Let_def split: option.splits)
  note u = pick_disk_mem [OF D(1) f]
  have wid: "w_ID w = w_ID u" using w by simp
  have bounds: "in64 (w_DiskFreeBytes u)" using wf_registryD(4) [OF D(1) u(1)] by (simp add: wf_worker_def)
  have "in64 (w_DiskFreeBytes u - w_ReservedDiskBytes u)"
    using bounds D(3,5) [OF u(1)] wf_registryD(4) [OF D(1) u(1)] by (simp add: in64_def wf_worker_def)
  then have fit: "d \<le> w_DiskFreeBytes u - w_ReservedDiskBytes u"
    using u(2) by (simp add: has_disk_def schedulableDisk_def sub64_eq)
  have n: "w_ReservedSlots w = w_ReservedSlots u + 1" "w_ReservedDiskBytes w = w_ReservedDiskBytes u + d"
    using u(1) lim D(3-5) [OF u(1)] bounds fit d
    by (simp_all add: w slots_of_cases slot_limit_def add64_eq in64_def)
  have "ledger_effect (\<lambda>R j. if j = w_ID u then amount R (w_ReservedSlots w) (w_ReservedDiskBytes w) else counter R r j)
      r (set_worker r (w_ID u) w)"
    using n D(3-5) [OF u(1)] wf_registryD(4) [OF D(1) u(1)] d
    by (intro effect_set_worker [OF ok u(1)]) (simp_all add: w wf_reserve_disk)
  then show "ledger_effect (\<lambda>R k. counter R r k + (if k = w_ID w then amount R 1 d else 0)) r r'"
    unfolding r' by (rule effect_cong) (use wid n counter_worker [OF u(1)] in \<open>simp add: amount_add [symmetric]\<close>)
  show "w_ID w \<in> dom (wr_byID r)" using u(1) wid by auto
qed

lemma pick_None: "PickWorkerForDiskReservation t d ord now r = (None, r') \<Longrightarrow> r' = r"
  by (auto simp: PickWorkerForDiskReservation_def Let_def split: option.splits)

lemma reg_ok_with_worker:
  assumes "reg_ok r"
    and "\<And>w. wf_worker w \<Longrightarrow> w_ID (f w) = w_ID w \<and> w_Address (f w) = w_Address w \<and> wf_worker (f w)"
    and "\<And>w. wr_byID r k = Some w \<Longrightarrow>
      0 \<le> w_DiskFreeBytes (f w) \<and> 0 \<le> w_ReservedSlots (f w) \<and> 0 \<le> w_ReservedDiskBytes (f w)"
  shows "reg_ok (with_worker k f r)"
  using assms wf_registryD(4) [OF reg_okD(1) [OF assms(1)]]
  by (auto simp: with_worker_def intro!: reg_ok_set_worker split: option.splits)

lemma release_worker_nonneg:
  assumes "wf_worker w" and "0 \<le> w_ReservedSlots w"
  shows "w_ReservedSlots (release_worker now w) = max 0 (w_ReservedSlots w - 1)"
proof -
  from assms have "in64 (w_ReservedSlots w - 1)" by (simp add: wf_worker_def in64_def)
  with assms(2) show ?thesis by (simp add: release_worker_def Let_def sub64_eq)
qed

lemma release_disk_nonneg:
  assumes "wf_worker w" and "0 \<le> w_ReservedDiskBytes w" and "0 \<le> d" and "in64 d"
  shows "w_ReservedDiskBytes (release_disk d w) = max 0 (w_ReservedDiskBytes w - d)"
proof -
  from assms have "in64 (w_ReservedDiskBytes w - d)" by (simp add: wf_worker_def in64_def)
  with assms(2,3) show ?thesis by (simp add: release_disk_def Let_def sub64_eq)
qed

lemma counter_with_worker:
  "counter R (with_worker k f r) j =
     (if j = k then (case wr_byID r k of None \<Rightarrow> 0 | Some w \<Rightarrow> amount R (w_ReservedSlots (f w)) (w_ReservedDiskBytes (f w)))
      else counter R r j)"
  by (cases "wr_byID r k")
    (auto simp: with_worker_def counter_set_worker, auto simp: counter_def slots_of_cases)

lemma effect_ReleaseReservations:
  assumes ok: "reg_ok r"
  shows "ledger_effect (\<lambda>R k. max 0 (counter R r k - amount R (int (count_list ks k)) 0)) r
    (ReleaseReservations ks now r)"
  using ok
proof (induction ks now r rule: ReleaseReservations.induct)
  case (1 now r)
  then show ?case using counter_nonneg [OF 1] by (simp add: ledger_effect_def)
next
  case (2 k ks now r)
  let ?r = "with_worker k (release_worker now) r"
  note D = reg_okD [OF 2(2)]
  have slots: "w_ReservedSlots (release_worker now w) = max 0 (w_ReservedSlots w - 1)" if "wr_byID r k = Some w" for w
    using release_worker_nonneg [OF wf_registryD(4) [OF D(1) that] D(4) [OF that]] .
  have ok: "reg_ok ?r"
    using 2(2) D(3-5) slots by (intro reg_ok_with_worker) (simp_all add: wf_release_worker)
  have c: "counter R ?r j = max 0 (counter R r j - amount R (if j = k then 1 else 0) 0)" for R j
    using counter_nonneg [OF 2(2), of R j] slots D(5)
    by (cases "wr_byID r k"; cases R) (auto simp: counter_with_worker counter_worker counter_unknown)
  have "ledger_effect (\<lambda>R j. max 0 (counter R ?r j - amount R (int (count_list ks j)) 0)) ?r
      (ReleaseReservations ks now ?r)"
    by (rule 2(1) [OF ok])
  moreover have "max 0 (counter R ?r j - amount R (int (count_list ks j)) 0)
      = max 0 (counter R r j - amount R (int (count_list (k # ks) j)) 0)" for R j
    by (cases R) (simp_all add: c max_def)
  ultimately show ?case by (simp add: ledger_effect_def)
qed

lemma effect_ReleaseReservation:
  assumes ok: "reg_ok r" and d: "0 \<le> d" "in64 d"
  shows "ledger_effect (\<lambda>R k. if k = w then max 0 (counter R r k - amount R 1 d) else counter R r k) r
    (ReleaseReservation w d now r)"
proof -
  note D = reg_okD [OF ok]
  let ?f = "\<lambda>worker. release_worker now (release_disk d worker)"
  have vals: "w_ReservedSlots (?f u) = max 0 (w_ReservedSlots u - 1)
      \<and> w_ReservedDiskBytes (?f u) = max 0 (w_ReservedDiskBytes u - d)" if u: "wr_byID r w = Some u" for u
    using release_worker_nonneg [of "release_disk d u"] release_disk_nonneg [OF _ _ d, of u]
      wf_registryD(4) [OF D(1) u] D(4,5) [OF u] by (simp add: wf_release_disk)
  have ok': "reg_ok (with_worker w ?f r)"
    using ok D(3) vals by (intro reg_ok_with_worker) (simp_all add: wf_release_worker wf_release_disk)
  have "counter R (with_worker w ?f r) k = (if k = w then max 0 (counter R r k - amount R 1 d) else counter R r k)" for R k
    using vals d by (cases "wr_byID r w"; cases R) (auto simp: counter_with_worker counter_worker counter_unknown)
  with ok' show ?thesis by (simp add: ledger_effect_def ReleaseReservation_def)
qed

lemma effect_observe_disk:
  assumes ok: "reg_ok r" and b: "bind_reply reply"
  shows "ledger_effect (\<lambda>R k. counter R r k) r (observe_disk w reply now r)"
proof -
  have "ledger_effect (\<lambda>R k. counter R r k) r (UpdateWorkerObservedDiskFree w d now r)" if d: "0 < d" "in64 d" for d
  proof (cases "wr_byID r w")
    case None
    with ok show ?thesis by (simp add: UpdateWorkerObservedDiskFree_def with_worker_def effect_refl)
  next
    case (Some u)
    with d wf_registryD(4) [OF reg_okD(1) [OF ok] Some] show ?thesis
      by (auto simp: UpdateWorkerObservedDiskFree_def with_worker_def wf_worker_def intro!: effect_same [OF ok Some])
  qed
  with ok b show ?thesis
    by (auto simp: observe_disk_def notifyAssembleWorker_def bind_reply_def effect_refl split: HttpResult.splits sum.splits)
qed

subsection \<open>The manager's side\<close>

text \<open>Most sections write one task and leave alone what the ledger reads of it but its status.\<close>

definition task_write :: "JobManager \<Rightarrow> string \<Rightarrow> Task \<Rightarrow> Task \<Rightarrow> JobManager \<Rightarrow> bool" where
  "task_write m k t t' m' \<longleftrightarrow>
     jm_tasks m k = Some t \<and> jm_tasks m' = (jm_tasks m)(k \<mapsto> t') \<and> t_JobID t' = t_JobID t \<and> t_Type t' = t_Type t
     \<and> t_AssignedWorkerID t' = t_AssignedWorkerID t \<and> t_RequiredDiskBytes t' = t_RequiredDiskBytes t"

definition tasks_persist :: "JobManager \<Rightarrow> JobManager \<Rightarrow> bool" where
  "tasks_persist m m' \<longleftrightarrow>
     (\<forall>k t. jm_tasks m k = Some t \<longrightarrow> (\<exists>t'. jm_tasks m' k = Some t' \<and> t_JobID t' = t_JobID t \<and> t_Type t' = t_Type t
        \<and> t_AssignedWorkerID t' = t_AssignedWorkerID t \<and> t_RequiredDiskBytes t' = t_RequiredDiskBytes t))"

definition task_ok :: "string set \<Rightarrow> Task \<Rightarrow> bool" where
  "task_ok D t \<longleftrightarrow> t_AssignedWorkerID t \<in> D \<and> 0 \<le> t_RequiredDiskBytes t \<and> in64 (t_RequiredDiskBytes t)
     \<and> (t_Type t = TaskTypeProcessSegment \<longrightarrow> t_RequiredDiskBytes t = 0)"

definition tasks_ok :: "string set \<Rightarrow> JobManager \<Rightarrow> bool" where
  "tasks_ok D m \<longleftrightarrow> (\<forall>k t. jm_tasks m k = Some t \<longrightarrow> task_ok D t)"

lemma tasks_persist_refl [simp]: "tasks_persist m m"
  by (simp add: tasks_persist_def)

lemma tasks_persist_same: "jm_tasks m' = jm_tasks m \<Longrightarrow> tasks_persist m m'"
  by (simp add: tasks_persist_def)

lemma task_write_persist: "task_write m k t t' m' \<Longrightarrow> tasks_persist m m'"
  by (simp add: task_write_def tasks_persist_def)

lemma task_write_ok: "task_write m k t t' m' \<Longrightarrow> tasks_ok D m \<Longrightarrow> tasks_ok D m'"
  by (auto simp: task_write_def tasks_ok_def task_ok_def split: if_splits)

lemma tasks_ok_mono: "tasks_ok D m \<Longrightarrow> D \<subseteq> D' \<Longrightarrow> tasks_ok D' m"
  by (auto simp: tasks_ok_def task_ok_def)

lemma task_write_msum:
  assumes "task_write m k t t' m'" and "finite (dom (jm_tasks m))"
  shows "msum f (jm_tasks m') = msum f (jm_tasks m) - f t + f t'"
  using assms by (simp add: task_write_def msum_upd)

lemma task_write_hold:
  assumes "task_write m k t t' m'" and "active t \<longleftrightarrow> active t'"
  shows "task_hold R j t' = task_hold R j t"
  using assms by (simp add: task_write_def task_hold_def)

text \<open>The sections as task writes.\<close>

lemma AcceptSegmentTask_write:
  assumes "AcceptSegmentTask k req now m = (res, m')"
  shows "m' = m \<or> (\<exists>t t'. task_write m k t t' m' \<and> active t \<and> active t')"
proof (cases "segmentTaskAndJobLocked k (tar_WorkerID req) m")
  case (Inl e)
  with assms show ?thesis by (simp add: AcceptSegmentTask_def)
next
  case (Inr tj)
  obtain t j where tj: "tj = (t, j)" by (cases tj)
  let ?t = "t\<lparr>t_Status := TaskStatusRunning, t_AcceptedAt := Some now, t_UpdatedAt := now\<rparr>"
  show ?thesis
  proof (cases "t_Status t = TaskStatusAssigned")
    case False
    with assms Inr tj show ?thesis by (simp add: AcceptSegmentTask_def)
  next
    case True
    with assms Inr tj have "jm_tasks m' = (jm_tasks m)(k \<mapsto> ?t)"
      by (auto simp: AcceptSegmentTask_def set_job_def set_task_def)
    with True segmentTaskAndJobLocked_Inr [OF Inr [unfolded tj]] show ?thesis
      by (intro disjI2 exI [of _ t] exI [of _ ?t]) (simp add: task_write_def active_def)
  qed
qed

lemma complete_segment_write:
  assumes "complete_segment_locked k req now m = (Inr rep, m')"
  shows "\<exists>t t'. task_write m k t t' m' \<and> t_Type t = TaskTypeProcessSegment \<and> active t \<and> \<not> active t'
    \<and> sg_workerID rep = t_AssignedWorkerID t"
proof -
  obtain t j where S: "segmentTaskAndJobLocked k (tcr_WorkerID req) m = Inr (t, j)"
    using assms by (auto simp: complete_segment_locked_def split: sum.splits)
  have a: "active t"
    using assms S by (auto simp: complete_segment_locked_def active_def split: if_splits)
  let ?t = "t\<lparr>t_Status := TaskStatusCompleted, t_Checksum := tcr_Checksum req,
        t_FrameCount := tcr_FrameCount req, t_DurationMS := tcr_DurationMS req,
        t_OutputSizeBytes := tcr_OutputSizeBytes req, t_CompletedAt := Some now, t_UpdatedAt := now\<rparr>"
  have "jm_tasks m' = (jm_tasks m)(k \<mapsto> ?t)" and "sg_workerID rep = t_AssignedWorkerID t"
    using assms S by (auto simp: complete_segment_locked_def Let_def set_job_def set_task_def split: if_splits)
  with segmentTaskAndJobLocked_Inr [OF S] a show ?thesis
    by (intro exI [of _ t] exI [of _ ?t]) (simp add: task_write_def active_def)
qed

lemma fail_segment_write:
  assumes "fail_segment_locked k req now m = (Inr rep, m')"
  shows "\<exists>t t'. task_write m k t t' m' \<and> t_Type t = TaskTypeProcessSegment \<and> active t \<and> \<not> active t'
    \<and> sg_workerID rep = t_AssignedWorkerID t"
proof -
  obtain t j where S: "segmentTaskAndJobLocked k (tfr_WorkerID req) m = Inr (t, j)"
    using assms by (auto simp: fail_segment_locked_def split: sum.splits)
  have a: "active t"
    using assms S by (cases "t_Status t") (auto simp: fail_segment_locked_def active_def)
  let ?t = "t\<lparr>t_Status := TaskStatusFailed, t_FailureReason := tfr_Reason req,
        t_Retryable := tfr_Retryable req, t_FailedAt := Some now, t_UpdatedAt := now\<rparr>"
  have "jm_tasks m' = (jm_tasks m)(k \<mapsto> ?t)" and "sg_workerID rep = t_AssignedWorkerID t"
    using assms S by (auto simp: fail_segment_locked_def set_job_def set_task_def split: if_splits)
  with segmentTaskAndJobLocked_Inr [OF S] a show ?thesis
    by (intro exI [of _ t] exI [of _ ?t]) (simp add: task_write_def active_def)
qed

lemma complete_assemble_write:
  assumes "complete_assemble_locked i req w now m = (Inr rep, m')"
  shows "\<exists>k t t'. task_write m k t t' m' \<and> active t \<and> \<not> active t'
    \<and> ar_releaseWorkerID rep = t_AssignedWorkerID t \<and> ar_releaseDiskBytes rep = t_RequiredDiskBytes t"
proof -
  obtain j k t where S: "jm_jobs m i = Some j" "assembleCompletionTargetLocked j (jar_WorkerID req) m = Inr (k, t)"
    using assms(1) by (auto simp: complete_assemble_locked_def split: option.splits sum.splits)
  let ?t = "t\<lparr>t_Status := TaskStatusCompleted, t_Checksum := jar_Checksum req,
      t_DurationMS := jar_DurationMS req, t_OutputSizeBytes := jar_OutputSizeBytes req,
      t_CompletedAt := Some now, t_UpdatedAt := now\<rparr>"
  have "jm_tasks m' = (jm_tasks m)(k \<mapsto> ?t)" "ar_releaseWorkerID rep = t_AssignedWorkerID t"
    "ar_releaseDiskBytes rep = t_RequiredDiskBytes t"
    using assms S by (auto simp: complete_assemble_locked_def Let_def set_job_def set_task_def)
  with assembleCompletionTargetLocked_Inr [OF S(2)] show ?thesis
    by (intro exI [of _ k] exI [of _ t] exI [of _ ?t]) (simp add: task_write_def active_def)
qed

lemma fail_assemble_write:
  assumes "fail_assemble_locked i req now m = (Inr rep, m')"
  shows "\<exists>k t t'. task_write m k t t' m' \<and> active t \<and> \<not> active t'
    \<and> ar_releaseWorkerID rep = t_AssignedWorkerID t \<and> ar_releaseDiskBytes rep = t_RequiredDiskBytes t"
proof -
  obtain j k t where S: "jm_jobs m i = Some j" "assembleCompletionTargetLocked j (jar_WorkerID req) m = Inr (k, t)"
    using assms(1) by (auto simp: fail_assemble_locked_def split: option.splits sum.splits)
  let ?t = "t\<lparr>t_Status := TaskStatusFailed, t_FailureReason := jar_Reason req,
      t_Retryable := jar_Retryable req, t_FailedAt := Some now, t_UpdatedAt := now\<rparr>"
  have "jm_tasks m' = (jm_tasks m)(k \<mapsto> ?t)" "ar_releaseWorkerID rep = t_AssignedWorkerID t"
    "ar_releaseDiskBytes rep = t_RequiredDiskBytes t"
    using assms(1) S by (auto simp: fail_assemble_locked_def Let_def set_job_def set_task_def)
  with assembleCompletionTargetLocked_Inr [OF S(2)] show ?thesis
    by (intro exI [of _ k] exI [of _ t] exI [of _ ?t]) (simp add: task_write_def active_def)
qed

lemma assemble_started_tasks:
  assumes "jm_tasks m taskID = Some t"
  shows "\<exists>t'. task_write m taskID t t' (assemble_started jobID taskID now m) \<and> (active t \<longleftrightarrow> active t')"
proof -
  let ?t = "if t_Status t = TaskStatusAssigned
    then t\<lparr>t_Status := TaskStatusRunning, t_UpdatedAt := now, t_AcceptedAt := Some now\<rparr> else t"
  have "jm_tasks (assemble_started jobID taskID now m) = (jm_tasks m)(taskID \<mapsto> ?t)"
    using assms by (auto simp: assemble_started_def Let_def set_job_def set_task_def map_upd_triv split: option.splits)
  with assms show ?thesis
    by (intro exI [of _ ?t]) (simp add: task_write_def active_def)
qed

lemma assemble_start_failed_tasks:
  assumes "jm_tasks m taskID = Some t"
  shows "\<exists>t'. task_write m taskID t t' (assemble_start_failed_locked jobID taskID reason retryable now m)
    \<and> \<not> active t'"
proof -
  let ?t = "if t_Status t \<noteq> TaskStatusCompleted \<and> t_Status t \<noteq> TaskStatusFailed
    then t\<lparr>t_Status := TaskStatusFailed, t_FailureReason := reason, t_Retryable := retryable,
           t_FailedAt := Some now, t_UpdatedAt := now\<rparr> else t"
  have "jm_tasks (assemble_start_failed_locked jobID taskID reason retryable now m) = (jm_tasks m)(taskID \<mapsto> ?t)"
    using assms by (auto simp: assemble_start_failed_locked_def Let_def set_job_def set_task_def map_upd_triv split: option.splits)
  with assms show ?thesis
    by (intro exI [of _ ?t]) (auto simp: task_write_def active_def)
qed

lemma markJobFailed_tasks [simp]: "jm_tasks (markJobFailed i now m) = jm_tasks m"
  by (simp add: markJobFailed_def set_job_def split: option.splits)

lemma assemble_commit_tasks:
  assumes "assemble_commit i t now m = (True, m')"
  shows "jm_tasks m' = (jm_tasks m)(t_ID t \<mapsto> t)"
  using assms by (auto simp: assemble_commit_def set_job_def set_task_def split: option.splits if_splits)

lemma assemble_commit_False: "assemble_commit i t now m = (False, m') \<Longrightarrow> m' = m"
  by (auto simp: assemble_commit_def split: option.splits if_splits)

lemma msum_add_tasks:
  assumes "finite (dom ts)" and "distinct (map t_ID xs)" and "\<forall>t\<in>set xs. ts (t_ID t) = None"
  shows "msum f (add_tasks xs ts) = msum f ts + sum_list (map f xs)"
  using assms
proof (induction xs ts rule: add_tasks.induct)
  case (1 ts)
  then show ?case by simp
next
  case (2 t xs ts)
  have other: "t_ID u \<noteq> t_ID t" if "u \<in> set xs" for u
    using "2.prems"(2) that by (force simp: image_iff)
  have "msum f (add_tasks xs (ts(t_ID t \<mapsto> t))) = msum f (ts(t_ID t \<mapsto> t)) + sum_list (map f xs)"
  proof (rule "2.IH")
    show "finite (dom (ts(t_ID t \<mapsto> t)))" and "distinct (map t_ID xs)" using "2.prems"(1,2) by simp_all
    show "\<forall>u\<in>set xs. (ts(t_ID t \<mapsto> t)) (t_ID u) = None" using "2.prems"(3) other by simp
  qed
  with "2.prems" show ?case by (simp add: msum_fresh)
qed

lemma sum_list_task_hold:
  assumes "\<forall>t\<in>set ts. active t \<and> t_RequiredDiskBytes t = 0"
  shows "sum_list (map (task_hold R k) ts) = amount R (int (count_list (map t_AssignedWorkerID ts) k)) 0"
  using assms
proof (induction ts)
  case (Cons t ts)
  then show ?case by (cases R) (auto simp: task_hold_def)
qed simp

subsection \<open>The invariant\<close>

fun activity_ok :: "string set \<Rightarrow> JobManager \<Rightarrow> Activity \<Rightarrow> bool" where
  "activity_ok D m (CreatingJob req sw jobID now rest plan b) \<longleftrightarrow>
     plan \<noteq> [] \<and> length (tb_tasks b) + length rest = length plan
     \<and> tb_reserved b = map t_AssignedWorkerID (tb_tasks b) \<and> set (tb_reserved b) \<subseteq> D
     \<and> (\<forall>t\<in>set (tb_tasks b). t_Type t = TaskTypeProcessSegment \<and> t_JobID t = jobID
          \<and> t_Status t = TaskStatusAssigned \<and> t_RequiredDiskBytes t = 0)"
| "activity_ok D m (ReleasingSlots ks nxt) \<longleftrightarrow> set ks \<subseteq> D"
| "activity_ok D m (StartingAssembly jobID) \<longleftrightarrow> True"
| "activity_ok D m (PickingAssembler jobID s) \<longleftrightarrow> 0 \<le> required_disk s"
| "activity_ok D m (CommittingAssembly jobID s w taskID) \<longleftrightarrow> w_ID w \<in> D \<and> 0 \<le> required_disk s"
| "activity_ok D m (PostingAssembly jobID taskID workerID d) \<longleftrightarrow>
     workerID \<in> D
     \<and> (\<exists>t. jm_tasks m taskID = Some t \<and> t_JobID t = jobID \<and> t_Type t = TaskTypeAssembleGIF
          \<and> t_AssignedWorkerID t = workerID \<and> t_RequiredDiskBytes t = d)"
| "activity_ok D m (ReleasingDisk workerID d nxt) \<longleftrightarrow> workerID \<in> D \<and> 0 \<le> d \<and> in64 d"
| "activity_ok D m (MarkingFailed jobID) \<longleftrightarrow> True"

lemma activity_ok_mono:
  assumes "activity_ok D m a" and "D \<subseteq> D'" and "tasks_persist m m'"
  shows "activity_ok D' m' a"
proof (cases a)
  case (PostingAssembly jobID taskID workerID d)
  with assms(1) obtain t where t: "jm_tasks m taskID = Some t" "t_JobID t = jobID" "t_Type t = TaskTypeAssembleGIF"
    "t_AssignedWorkerID t = workerID" "t_RequiredDiskBytes t = d" "workerID \<in> D" by auto
  from assms(3) t(1) obtain t' where "jm_tasks m' taskID = Some t'" "t_JobID t' = t_JobID t" "t_Type t' = t_Type t"
    "t_AssignedWorkerID t' = t_AssignedWorkerID t" "t_RequiredDiskBytes t' = t_RequiredDiskBytes t"
    unfolding tasks_persist_def by blast
  with assms(2) t PostingAssembly show ?thesis by auto
next
  case (CreatingJob req sw jobID now rest plan b)
  note ok = assms(1) [unfolded CreatingJob activity_ok.simps]
  then have "set (tb_reserved b) \<subseteq> D'" using assms(2) by (elim conjE) (rule subset_trans)
  with ok show ?thesis unfolding CreatingJob activity_ok.simps by blast
qed (use assms in auto)

definition balanced :: "int \<Rightarrow> int \<Rightarrow> int \<Rightarrow> bool" where
  "balanced h p c \<longleftrightarrow> 0 \<le> p \<and> h - p \<le> c \<and> c \<le> h"

definition world_ok :: "World \<Rightarrow> bool" where
  "world_ok W \<longleftrightarrow>
     reg_ok (wd_registry W) \<and> wf_manager (wd_manager W)
     \<and> tasks_ok (dom (wr_byID (wd_registry W))) (wd_manager W)
     \<and> (\<forall>a\<in>#wd_active W. activity_ok (dom (wr_byID (wd_registry W))) (wd_manager W) a)
     \<and> (\<forall>R k. balanced (held R k W) (phantom R k W) (counter R (wd_registry W) k))"

lemma world_okD:
  assumes "world_ok W"
  shows "reg_ok (wd_registry W)" "wf_manager (wd_manager W)"
    "tasks_ok (dom (wr_byID (wd_registry W))) (wd_manager W)"
    "a \<in># wd_active W \<Longrightarrow> activity_ok (dom (wr_byID (wd_registry W))) (wd_manager W) a"
    "balanced (held R k W) (phantom R k W) (counter R (wd_registry W) k)"
  using assms by (auto simp: world_ok_def)

text \<open>The step rule: what has to be shown of the registry, of the manager, of the new activities
  \<open>N\<close> that replace the old ones, and of the balance. \<open>delta\<close> is the change of the holdings.\<close>

lemma world_ok_stepI:
  assumes W: "world_ok W" and old: "wd_active W = Old + A"
    and reg: "ledger_effect c (wd_registry W) (wd_registry W')"
    and man: "wf_manager (wd_manager W')" "tasks_persist (wd_manager W) (wd_manager W')"
      "tasks_ok (dom (wr_byID (wd_registry W'))) (wd_manager W')"
    and new: "wd_active W' = N + A"
      "\<forall>a\<in>#N. activity_ok (dom (wr_byID (wd_registry W'))) (wd_manager W') a"
    and held: "\<And>R k. held R k W' = held R k W + delta R k"
    and bal: "\<And>R k. balanced (held R k W) (phantom R k W) (counter R (wd_registry W) k) \<Longrightarrow>
      balanced (held R k W + delta R k) (phantom R k W') (c R k)"
  shows "world_ok W'"
proof -
  from reg have r: "reg_ok (wd_registry W')" "dom (wr_byID (wd_registry W)) \<subseteq> dom (wr_byID (wd_registry W'))"
    "\<And>R k. counter R (wd_registry W') k = c R k" by (simp_all add: ledger_effect_def)
  have "activity_ok (dom (wr_byID (wd_registry W'))) (wd_manager W') a" if "a \<in># A" for a
    using world_okD(4) [OF W, of a] that old r(2) man(2) by (auto intro: activity_ok_mono)
  with new have "\<forall>a\<in>#wd_active W'. activity_ok (dom (wr_byID (wd_registry W'))) (wd_manager W') a" by auto
  moreover have "balanced (held R k W') (phantom R k W') (counter R (wd_registry W') k)" for R k
    using bal [OF world_okD(5) [OF W]] by (simp add: held r(3))
  ultimately show ?thesis using r(1) man by (simp add: world_ok_def)
qed

text \<open>A section that writes one task: the holdings move from the task to the new activities.\<close>

lemma world_ok_write:
  assumes W: "world_ok W" and old: "wd_active W = Old + A"
    and tw: "task_write (wd_manager W) k t t' m'" and wf: "wf_manager m'"
    and N: "\<forall>a\<in>#N. activity_ok (dom (wr_byID (wd_registry W))) m' a"
    and eq: "\<And>R j. task_hold R j t' + (\<Sum>a\<in>#N. activity_hold R j a)
      = task_hold R j t + (\<Sum>a\<in>#Old. activity_hold R j a)"
  shows "world_ok (W\<lparr>wd_manager := m', wd_active := N + A\<rparr>)"
proof (rule world_ok_stepI [OF W old, where N = N and delta = "\<lambda>R k. 0" and c = "\<lambda>R k. counter R (wd_registry W) k"])
  note D = world_okD [OF W]
  show "ledger_effect (\<lambda>R k. counter R (wd_registry W) k) (wd_registry W) (wd_registry (W\<lparr>wd_manager := m', wd_active := N + A\<rparr>))"
    using effect_refl [OF D(1)] by simp
  show "tasks_persist (wd_manager W) (wd_manager (W\<lparr>wd_manager := m', wd_active := N + A\<rparr>))"
    using task_write_persist [OF tw] by simp
  show "tasks_ok (dom (wr_byID (wd_registry (W\<lparr>wd_manager := m', wd_active := N + A\<rparr>))))
      (wd_manager (W\<lparr>wd_manager := m', wd_active := N + A\<rparr>))"
    using task_write_ok [OF tw D(3)] by simp
  show "held R k (W\<lparr>wd_manager := m', wd_active := N + A\<rparr>) = held R k W + 0" for R k
    using eq [of R k] task_write_msum [OF tw wf_managerD(2) [OF D(2)], of "task_hold R k"]
    by (simp add: held_def old)
qed (use wf N in \<open>simp_all add: phantom_def\<close>)

text \<open>A section that leaves the tasks alone: the counters move with the activities.\<close>

lemma world_ok_activity:
  assumes W: "world_ok W" and old: "wd_active W = Old + A"
    and reg: "ledger_effect (\<lambda>R k. counter R (wd_registry W) k + delta R k) (wd_registry W) r'"
    and m: "wf_manager m'" "jm_tasks m' = jm_tasks (wd_manager W)"
    and N: "\<forall>a\<in>#N. activity_ok (dom (wr_byID r')) m' a"
    and eq: "\<And>R j. (\<Sum>a\<in>#N. activity_hold R j a) = (\<Sum>a\<in>#Old. activity_hold R j a) + delta R j"
  shows "world_ok (W\<lparr>wd_registry := r', wd_manager := m', wd_active := N + A\<rparr>)" (is "world_ok ?W")
proof (rule world_ok_stepI [OF W old, where N = N and delta = delta])
  note D = world_okD [OF W]
  show "ledger_effect (\<lambda>R k. counter R (wd_registry W) k + delta R k) (wd_registry W) (wd_registry ?W)"
    using reg by simp
  have "dom (wr_byID (wd_registry W)) \<subseteq> dom (wr_byID r')" using reg by (simp add: ledger_effect_def)
  with D(3) have "tasks_ok (dom (wr_byID r')) (wd_manager W)" by (rule tasks_ok_mono)
  then show "tasks_ok (dom (wr_byID (wd_registry ?W))) (wd_manager ?W)"
    using m(2) by (simp add: tasks_ok_def)
  show "held R k ?W = held R k W + delta R k" for R k
    using eq [of R k] by (simp add: held_def old m(2))
qed (use m N in \<open>simp_all add: tasks_persist_same phantom_def balanced_def\<close>)

text \<open>A release of what one activity holds: the counter may be clamped at zero.\<close>

lemma held_ge_activity:
  assumes W: "world_ok W" and old: "wd_active W = add_mset a A"
  shows "activity_hold R k a \<le> held R k W"
proof -
  note D = world_okD [OF W]
  have "0 \<le> task_hold R k t" if "jm_tasks (wd_manager W) i = Some t" for i t
    using D(3) that by (cases R) (auto simp: task_hold_def tasks_ok_def task_ok_def)
  then have "0 \<le> msum (task_hold R k) (jm_tasks (wd_manager W))"
    unfolding msum_def by (intro sum_nonneg) auto
  moreover have "0 \<le> (\<Sum>a\<in>#A. activity_hold R k a)"
  proof -
    have "0 \<le> activity_hold R k b" if "b \<in># A" for b
      using D(4) [of b] that old by (cases b; cases R) auto
    then show ?thesis by (induction A) auto
  qed
  ultimately show ?thesis by (simp add: held_def old)
qed

lemma balanced_release:
  assumes "balanced h p c" and "x \<le> h" and "0 \<le> c"
  shows "balanced (h - x) p (max 0 (c - x))"
  using assms by (auto simp: balanced_def)

lemma world_ok_release:
  assumes W: "world_ok W" and old: "wd_active W = add_mset a A"
    and reg: "ledger_effect c (wd_registry W) r'"
    and c: "\<And>R k. c R k = max 0 (counter R (wd_registry W) k - activity_hold R k a)"
    and N: "\<forall>a\<in>#N. activity_ok (dom (wr_byID r')) (wd_manager W) a \<and> (\<forall>R k. activity_hold R k a = 0)"
  shows "world_ok (W\<lparr>wd_registry := r', wd_active := N + A\<rparr>)" (is "world_ok ?W")
proof (rule world_ok_stepI [OF W, where Old = "{#a#}" and N = N and delta = "\<lambda>R k. - activity_hold R k a"])
  note D = world_okD [OF W]
  show "wd_active W = {#a#} + A" using old by simp
  show "ledger_effect c (wd_registry W) (wd_registry ?W)" using reg by simp
  have "dom (wr_byID (wd_registry W)) \<subseteq> dom (wr_byID r')" using reg by (simp add: ledger_effect_def)
  with D(3) show "tasks_ok (dom (wr_byID (wd_registry ?W))) (wd_manager ?W)" by (simp add: tasks_ok_mono)
  have "(\<Sum>b\<in>#N. activity_hold R k b) = 0" for R k
    using N by (simp add: sum_mset.neutral)
  then show "held R k ?W = held R k W + - activity_hold R k a" for R k
    by (simp add: held_def old)
  show "balanced (held R k W + - activity_hold R k a) (phantom R k ?W) (c R k)"
    if "balanced (held R k W) (phantom R k W) (counter R (wd_registry W) k)" for R k
    using balanced_release [OF that held_ge_activity [OF W old] counter_nonneg [OF D(1)]] by (simp add: c phantom_def)
qed (use world_okD(2) [OF W] N in simp_all)

end
