(* ===== verification/Entry_Safety.thy ===== *)
theory Entry_Safety
  imports Entry_Ledger
begin

text \<open>
  Every step of Entry keeps its invariant, so it holds in every reachable state; and what follows
  from it for the slots, the disk and the jobs.
\<close>

subsection \<open>The steps of job creation\<close>

lemma world_update_same: "W\<lparr>wd_registry := wd_registry W\<rparr> = W" "W\<lparr>wd_manager := wd_manager W\<rparr> = W"
  by simp_all

lemma step_registry_ok:
  assumes W: "world_ok W" and e: "ledger_effect (\<lambda>R k. counter R (wd_registry W) k) (wd_registry W) r'"
  shows "world_ok (W\<lparr>wd_registry := r'\<rparr>)"
proof -
  have "world_ok (W\<lparr>wd_registry := r', wd_manager := wd_manager W, wd_active := {#} + wd_active W\<rparr>)"
    by (rule world_ok_activity [OF W, where Old = "{#}" and delta = "\<lambda>R k. 0"])
      (use e world_okD(2) [OF W] in simp_all)
  then show ?thesis by simp
qed

lemma step_create_begin_ok:
  assumes W: "world_ok W" and plan: "createJobTaskPlan req = Inr plan"
  shows "world_ok (W\<lparr>wd_active := add_mset (CreatingJob req sw jobID now plan plan zero_TaskBatch) (wd_active W)\<rparr>)"
proof -
  have "world_ok (W\<lparr>wd_registry := wd_registry W, wd_manager := wd_manager W,
      wd_active := {#CreatingJob req sw jobID now plan plan zero_TaskBatch#} + wd_active W\<rparr>)"
    by (rule world_ok_activity [OF W, where Old = "{#}" and delta = "\<lambda>R k. 0"])
      (use world_okD(1,2) [OF W] createJobTaskPlan_nonempty [OF plan] in \<open>simp_all add: effect_refl zero_TaskBatch_def\<close>)
  then show ?thesis by simp
qed

lemma creating_reserved:
  "activity_ok D m (CreatingJob req sw jobID now rest plan b) \<Longrightarrow> set (tb_reserved b) \<subseteq> D"
  unfolding activity_ok.simps by blast

lemma slots_below:
  assumes W: "world_ok W" and lim: "held Slots k W < slot_limit"
  shows "slots_of (wd_registry W) k < slot_limit"
  using world_okD(5) [OF W, of Slots k] lim by (simp add: balanced_def counter_def)

lemma step_create_assign_ok:
  assumes W: "world_ok W"
    and old: "wd_active W = add_mset (CreatingJob req sw jobID now (q # rest) plan b) A"
    and a: "assignSegmentWorker (w_ID sw) ev (cjt_Mode q) (wd_registry W) = (Some w, r')"
    and lim: "held Slots (w_ID w) W < slot_limit"
  shows "world_ok (W\<lparr>wd_registry := r',
      wd_active := add_mset (CreatingJob req sw jobID now rest plan (batch_add b taskID jobID q w now)) A\<rparr>)"
    and "world_ok (W\<lparr>wd_registry := r', wd_active := add_mset (ReleasingSlots (tb_reserved b @ [w_ID w]) None) A\<rparr>)"
proof -
  note D = world_okD [OF W]
  note e = effect_assign [OF D(1) a slots_below [OF W lim]]
  have dom: "dom (wr_byID (wd_registry W)) \<subseteq> dom (wr_byID r')" using e(1) by (simp add: ledger_effect_def)
  have act: "activity_ok (dom (wr_byID (wd_registry W))) (wd_manager W) (CreatingJob req sw jobID now (q # rest) plan b)"
    by (rule D(4)) (simp add: old)
  have res: "set (tb_reserved b @ [w_ID w]) \<subseteq> dom (wr_byID r')"
    using subset_trans [OF creating_reserved [OF act] dom] subsetD [OF dom e(2)] by simp
  have "world_ok (W\<lparr>wd_registry := r', wd_manager := wd_manager W,
      wd_active := {#CreatingJob req sw jobID now rest plan (batch_add b taskID jobID q w now)#} + A\<rparr>)"
  proof (rule world_ok_activity [OF W, where Old = "{#CreatingJob req sw jobID now (q # rest) plan b#}", OF _ e(1)])
    show "\<forall>a\<in>#{#CreatingJob req sw jobID now rest plan (batch_add b taskID jobID q w now)#}.
        activity_ok (dom (wr_byID r')) (wd_manager W) a"
      using act res by (auto simp: batch_add_def new_segment_task_def)
    show "(\<Sum>a\<in>#{#CreatingJob req sw jobID now rest plan (batch_add b taskID jobID q w now)#}. activity_hold R j a)
        = (\<Sum>a\<in>#{#CreatingJob req sw jobID now (q # rest) plan b#}. activity_hold R j a)
          + amount R (if j = w_ID w then 1 else 0) 0" for R j
      by (cases R) (simp_all add: batch_add_def)
  qed (use old D(2) in simp_all)
  then show "world_ok (W\<lparr>wd_registry := r',
      wd_active := add_mset (CreatingJob req sw jobID now rest plan (batch_add b taskID jobID q w now)) A\<rparr>)"
    by simp
  have "world_ok (W\<lparr>wd_registry := r', wd_manager := wd_manager W,
      wd_active := {#ReleasingSlots (tb_reserved b @ [w_ID w]) None#} + A\<rparr>)"
  proof (rule world_ok_activity [OF W, where Old = "{#CreatingJob req sw jobID now (q # rest) plan b#}", OF _ e(1)])
    show "\<forall>a\<in>#{#ReleasingSlots (tb_reserved b @ [w_ID w]) None#}. activity_ok (dom (wr_byID r')) (wd_manager W) a"
      using res by (simp del: set_append)
    show "(\<Sum>a\<in>#{#ReleasingSlots (tb_reserved b @ [w_ID w]) None#}. activity_hold R j a)
        = (\<Sum>a\<in>#{#CreatingJob req sw jobID now (q # rest) plan b#}. activity_hold R j a)
          + amount R (if j = w_ID w then 1 else 0) 0" for R j
      by (cases R) simp_all
  qed (use old D(2) in simp_all)
  then show "world_ok (W\<lparr>wd_registry := r', wd_active := add_mset (ReleasingSlots (tb_reserved b @ [w_ID w]) None) A\<rparr>)"
    by simp
qed

text \<open>The request gives up: what it reserved is passed on to its release.\<close>

lemma step_create_release_ok:
  assumes W: "world_ok W" and old: "wd_active W = add_mset (CreatingJob req sw jobID now rest plan b) A"
  shows "world_ok (W\<lparr>wd_active := add_mset (ReleasingSlots (tb_reserved b) None) A\<rparr>)"
proof -
  note D = world_okD [OF W]
  have act: "activity_ok (dom (wr_byID (wd_registry W))) (wd_manager W) (CreatingJob req sw jobID now rest plan b)"
    by (rule D(4)) (simp add: old)
  have "world_ok (W\<lparr>wd_registry := wd_registry W, wd_manager := wd_manager W,
      wd_active := {#ReleasingSlots (tb_reserved b) None#} + A\<rparr>)"
    by (rule world_ok_activity [OF W, where Old = "{#CreatingJob req sw jobID now rest plan b#}" and delta = "\<lambda>R k. 0"])
      (use old D(1,2) creating_reserved [OF act] in \<open>simp_all add: effect_refl\<close>)
  then show ?thesis by simp
qed

lemma commit_job_None:
  "commit_job key job ts m = (None, m') \<Longrightarrow> jm_tasks m' = add_tasks ts (jm_tasks m)"
  by (auto simp: commit_job_def split: option.splits)

lemma commit_job_Some: "commit_job key job ts m = (Some x, m') \<Longrightarrow> m' = m"
  by (auto simp: commit_job_def split: option.splits)

lemma add_tasks_persist:
  assumes "fresh_batch job ts m" and "jm_tasks m' = add_tasks ts (jm_tasks m)"
  shows "tasks_persist m m'"
proof -
  have "add_tasks ts (jm_tasks m) k = Some t" if "jm_tasks m k = Some t" for k t
    using assms(1) that by (subst add_tasks_other) (auto simp: fresh_batch_def)
  with assms(2) show ?thesis by (simp add: tasks_persist_def)
qed

lemma step_create_commit_ok:
  assumes W: "world_ok W" and old: "wd_active W = add_mset (CreatingJob req sw jobID now [] plan b) A"
    and fresh: "fresh_batch job (tb_tasks b) (wd_manager W)"
    and job: "job = job_of_request req sw jobID now plan b"
    and c: "commit_job (j_IdentityKey job) job (tb_tasks b) (wd_manager W) = (None, m')"
  shows "world_ok (W\<lparr>wd_manager := m', wd_active := A\<rparr>)" (is "world_ok ?W")
proof (rule world_ok_stepI [OF W, where Old = "{#CreatingJob req sw jobID now [] plan b#}" and N = "{#}"
      and delta = "\<lambda>R k. 0" and c = "\<lambda>R k. counter R (wd_registry W) k"])
  note D = world_okD [OF W]
  have "activity_ok (dom (wr_byID (wd_registry W))) (wd_manager W) (CreatingJob req sw jobID now [] plan b)"
    by (rule D(4)) (simp add: old)
  note act = this [unfolded activity_ok.simps]
  from act have res: "tb_reserved b = map t_AssignedWorkerID (tb_tasks b)"
    and dom: "set (tb_reserved b) \<subseteq> dom (wr_byID (wd_registry W))"
    and ts: "\<forall>t\<in>set (tb_tasks b). t_Type t = TaskTypeProcessSegment \<and> t_JobID t = jobID
          \<and> t_Status t = TaskStatusAssigned \<and> t_RequiredDiskBytes t = 0" by blast+
  note tasks = commit_job_None [OF c]
  note dist = fresh [unfolded fresh_batch_def]
  show "wd_active W = {#CreatingJob req sw jobID now [] plan b#} + A" using old by simp
  show "ledger_effect (\<lambda>R k. counter R (wd_registry W) k) (wd_registry W) (wd_registry ?W)"
    using effect_refl [OF D(1)] by simp
  have "wf_manager (snd (commit_job (j_IdentityKey job) job (tb_tasks b) (wd_manager W)))"
    by (rule wf_commit_job [OF D(2) fresh refl])
      (use ts in \<open>simp_all add: job job_of_request_def new_job_def\<close>)
  then show "wf_manager (wd_manager ?W)" using c by simp
  show "tasks_persist (wd_manager W) (wd_manager ?W)"
    using add_tasks_persist [OF fresh tasks] by simp
  have "task_ok (dom (wr_byID (wd_registry W))) t" if "jm_tasks m' k = Some t" for k t
  proof -
    have "add_tasks (tb_tasks b) (jm_tasks (wd_manager W)) k = Some t" using that tasks by simp
    with add_tasks_cases [of "tb_tasks b"] dist consider "t \<in> set (tb_tasks b)" | "jm_tasks (wd_manager W) k = Some t"
      by blast
    then show ?thesis
    proof cases
      case 1
      have "t_AssignedWorkerID t \<in> dom (wr_byID (wd_registry W))"
        using dom 1 by (auto simp: res)
      with ts 1 show ?thesis by (auto simp: task_ok_def in64_def)
    next
      case 2
      with D(3) show ?thesis by (auto simp: tasks_ok_def)
    qed
  qed
  then show "tasks_ok (dom (wr_byID (wd_registry ?W))) (wd_manager ?W)" by (simp add: tasks_ok_def)
  show "held R k ?W = held R k W + 0" for R k
  proof -
    have "msum (task_hold R k) (jm_tasks m')
        = msum (task_hold R k) (jm_tasks (wd_manager W)) + sum_list (map (task_hold R k) (tb_tasks b))"
      unfolding tasks using wf_managerD(2) [OF D(2)] dist by (intro msum_add_tasks) auto
    also have "sum_list (map (task_hold R k) (tb_tasks b)) = amount R (int (count_list (tb_reserved b) k)) 0"
      unfolding res using ts by (intro sum_list_task_hold) (auto simp: active_def)
    finally show ?thesis by (simp add: held_def old)
  qed
qed (simp_all add: phantom_def)

subsection \<open>The steps of the segment reports\<close>

lemma task_write_worker:
  assumes "world_ok W" and "task_write (wd_manager W) k t t' m'"
  shows "t_AssignedWorkerID t \<in> dom (wr_byID (wd_registry W))" "0 \<le> t_RequiredDiskBytes t"
    "in64 (t_RequiredDiskBytes t)" "t_Type t = TaskTypeProcessSegment \<Longrightarrow> t_RequiredDiskBytes t = 0"
  using world_okD(3) [OF assms(1)] assms(2) by (auto simp: task_write_def tasks_ok_def task_ok_def)

lemma step_segment_report_ok:
  assumes W: "world_ok W" and wf: "wf_manager m'"
    and tw: "\<exists>t t'. task_write (wd_manager W) k t t' m' \<and> t_Type t = TaskTypeProcessSegment \<and> active t
      \<and> \<not> active t' \<and> sg_workerID rep = t_AssignedWorkerID t"
  shows "world_ok (W\<lparr>wd_manager := m', wd_active := add_mset (ReleasingSlots [sg_workerID rep] nxt) (wd_active W)\<rparr>)"
proof -
  from tw obtain t t' where tw: "task_write (wd_manager W) k t t' m'"
    and t: "t_Type t = TaskTypeProcessSegment" "active t" "\<not> active t'" "sg_workerID rep = t_AssignedWorkerID t"
    by blast
  note T = task_write_worker [OF W tw]
  have "world_ok (W\<lparr>wd_manager := m', wd_active := {#ReleasingSlots [sg_workerID rep] nxt#} + wd_active W\<rparr>)"
  proof (rule world_ok_write [OF W, where Old = "{#}", OF _ tw wf])
    show "task_hold R j t' + (\<Sum>a\<in>#{#ReleasingSlots [sg_workerID rep] nxt#}. activity_hold R j a)
        = task_hold R j t + (\<Sum>a\<in>#{#}. activity_hold R j a)" for R j
      using t T(4) by (cases R) (simp_all add: task_hold_def)
  qed (use T(1) t(4) in simp_all)
  then show ?thesis by simp
qed

lemma step_accept_ok:
  assumes W: "world_ok W" and wf: "wf_manager m'"
    and c: "m' = wd_manager W \<or> (\<exists>t t'. task_write (wd_manager W) k t t' m' \<and> active t \<and> active t')"
  shows "world_ok (W\<lparr>wd_manager := m'\<rparr>)"
  using c
proof (elim disjE exE conjE)
  assume "m' = wd_manager W"
  with W show ?thesis by simp
next
  fix t t'
  assume tw: "task_write (wd_manager W) k t t' m'" and "active t" "active t'"
  then have "world_ok (W\<lparr>wd_manager := m', wd_active := {#} + wd_active W\<rparr>)"
    by (intro world_ok_write [OF W, where Old = "{#}", OF _ tw wf]) (simp_all add: task_write_hold)
  then show ?thesis by simp
qed

subsection \<open>The steps of the assembly\<close>

lemma step_pick_ok:
  assumes W: "world_ok W" and old: "wd_active W = add_mset (PickingAssembler jobID s) A"
    and P: "PickWorkerForDiskReservation TaskTypeAssembleGIF (required_disk s) ord now (wd_registry W) = (Some w, r')"
    and lim: "held Slots (w_ID w) W < slot_limit"
    and N: "N = CommittingAssembly jobID s w taskID \<or> N = ReleasingDisk (w_ID w) (required_disk s) nxt"
  shows "world_ok (W\<lparr>wd_registry := r', wd_active := add_mset N A\<rparr>)"
proof -
  note D = world_okD [OF W]
  have "activity_ok (dom (wr_byID (wd_registry W))) (wd_manager W) (PickingAssembler jobID s)"
    by (rule D(4)) (simp add: old)
  then have d: "0 \<le> required_disk s" by simp
  have i: "in64 (required_disk s)"
    by (simp add: required_disk_def estimateAssembleDiskBytes_def Let_def)
  note e = effect_pick [OF D(1) d P slots_below [OF W lim]]
  have dom: "w_ID w \<in> dom (wr_byID r')" using e by (auto simp: ledger_effect_def)
  have "world_ok (W\<lparr>wd_registry := r', wd_manager := wd_manager W, wd_active := {#N#} + A\<rparr>)"
    by (rule world_ok_activity [OF W, where Old = "{#PickingAssembler jobID s#}", OF _ e(1)])
      (use old D(2) N d i dom in auto)
  then show ?thesis by simp
qed

lemma step_drop_ok:
  assumes W: "world_ok W" and old: "wd_active W = add_mset a A"
    and a: "\<And>R k. activity_hold R k a = 0"
    and N: "\<forall>b\<in>#N. activity_ok (dom (wr_byID (wd_registry W))) m' b \<and> (\<forall>R k. activity_hold R k b = 0)"
    and m: "wf_manager m'" "jm_tasks m' = jm_tasks (wd_manager W)"
  shows "world_ok (W\<lparr>wd_manager := m', wd_active := N + A\<rparr>)"
proof -
  have "(\<Sum>b\<in>#N. activity_hold R k b) = 0" for R k
    using N by (simp add: sum_mset.neutral)
  then have "world_ok (W\<lparr>wd_registry := wd_registry W, wd_manager := m', wd_active := N + A\<rparr>)"
    by (intro world_ok_activity [OF W, where Old = "{#a#}" and delta = "\<lambda>R k. 0"])
      (use old a N m world_okD(1) [OF W] in \<open>simp_all add: effect_refl\<close>)
  then show ?thesis by simp
qed

lemma step_commit_ok:
  assumes W: "world_ok W" and old: "wd_active W = add_mset (CommittingAssembly jobID s w taskID) A"
    and fresh: "jm_tasks (wd_manager W) taskID = None"
    and c: "assemble_commit jobID (new_assemble_task taskID jobID w (required_disk s) now) now (wd_manager W) = (True, m')"
  shows "world_ok (W\<lparr>wd_manager := m',
      wd_active := add_mset (PostingAssembly jobID taskID (w_ID w) (required_disk s)) A\<rparr>)" (is "world_ok ?W")
proof (rule world_ok_stepI [OF W, where Old = "{#CommittingAssembly jobID s w taskID#}"
      and N = "{#PostingAssembly jobID taskID (w_ID w) (required_disk s)#}"
      and delta = "\<lambda>R k. 0" and c = "\<lambda>R k. counter R (wd_registry W) k"])
  note D = world_okD [OF W]
  let ?t = "new_assemble_task taskID jobID w (required_disk s) now"
  have "activity_ok (dom (wr_byID (wd_registry W))) (wd_manager W) (CommittingAssembly jobID s w taskID)"
    by (rule D(4)) (simp add: old)
  then have d: "0 \<le> required_disk s" "w_ID w \<in> dom (wr_byID (wd_registry W))" by simp_all
  have tasks: "jm_tasks m' = (jm_tasks (wd_manager W))(taskID \<mapsto> ?t)"
    using assemble_commit_tasks [OF c] by (simp add: new_assemble_task_def)
  have "wf_manager (snd (assemble_commit jobID ?t now (wd_manager W)))"
    by (rule wf_assemble_commit [OF D(2)]) (simp_all add: new_assemble_task_def active_def fresh)
  then show "wf_manager (wd_manager ?W)" using c by simp
  show "tasks_persist (wd_manager W) (wd_manager ?W)"
    using tasks fresh by (auto simp: tasks_persist_def)
  have "in64 (required_disk s)"
    by (simp add: required_disk_def estimateAssembleDiskBytes_def Let_def)
  then show "tasks_ok (dom (wr_byID (wd_registry ?W))) (wd_manager ?W)"
    using D(3) d by (auto simp: tasks tasks_ok_def task_ok_def new_assemble_task_def split: if_splits)
  show "held R k ?W = held R k W + 0" for R k
    using msum_fresh [OF wf_managerD(2) [OF D(2)] fresh, of "task_hold R k" ?t]
    by (simp add: held_def old tasks task_hold_def new_assemble_task_def active_def)
  show "\<forall>a\<in>#{#PostingAssembly jobID taskID (w_ID w) (required_disk s)#}.
      activity_ok (dom (wr_byID (wd_registry ?W))) (wd_manager ?W) a"
    using d by (simp add: tasks) (simp add: new_assemble_task_def)
qed (use old world_okD(1) [OF W] in \<open>simp_all add: effect_refl phantom_def\<close>)

lemma step_commit_refused_ok:
  assumes W: "world_ok W" and old: "wd_active W = add_mset (CommittingAssembly jobID s w taskID) A"
  shows "world_ok (W\<lparr>wd_active := add_mset (ReleasingDisk (w_ID w) (required_disk s) None) A\<rparr>)"
proof -
  note D = world_okD [OF W]
  have "activity_ok (dom (wr_byID (wd_registry W))) (wd_manager W) (CommittingAssembly jobID s w taskID)"
    by (rule D(4)) (simp add: old)
  moreover have "in64 (required_disk s)"
    by (simp add: required_disk_def estimateAssembleDiskBytes_def Let_def)
  ultimately have "world_ok (W\<lparr>wd_registry := wd_registry W, wd_manager := wd_manager W,
      wd_active := {#ReleasingDisk (w_ID w) (required_disk s) None#} + A\<rparr>)"
    by (intro world_ok_activity [OF W, where Old = "{#CommittingAssembly jobID s w taskID#}" and delta = "\<lambda>R k. 0"])
      (use old D(1,2) in \<open>simp_all add: effect_refl\<close>)
  then show ?thesis by simp
qed

lemma posting_task:
  assumes W: "world_ok W" and old: "wd_active W = add_mset (PostingAssembly jobID taskID workerID d) A"
  obtains t where "jm_tasks (wd_manager W) taskID = Some t" "t_AssignedWorkerID t = workerID"
    "t_RequiredDiskBytes t = d" "assemble_task_of (wd_manager W) jobID taskID"
    "workerID \<in> dom (wr_byID (wd_registry W))" "0 \<le> d" "in64 d"
proof -
  note D = world_okD [OF W]
  have "activity_ok (dom (wr_byID (wd_registry W))) (wd_manager W) (PostingAssembly jobID taskID workerID d)"
    by (rule D(4)) (simp add: old)
  then obtain t where t: "jm_tasks (wd_manager W) taskID = Some t" "t_JobID t = jobID"
    "t_Type t = TaskTypeAssembleGIF" "t_AssignedWorkerID t = workerID" "t_RequiredDiskBytes t = d"
    "workerID \<in> dom (wr_byID (wd_registry W))" by auto
  with D(3) that show ?thesis by (auto simp: assemble_task_of_def tasks_ok_def task_ok_def)
qed

lemma step_started_ok:
  assumes W: "world_ok W" and old: "wd_active W = add_mset (PostingAssembly jobID taskID workerID d) A"
  shows "world_ok (W\<lparr>wd_manager := assemble_started jobID taskID now (wd_manager W), wd_active := A\<rparr>)"
proof -
  note D = world_okD [OF W]
  from W old obtain t where t: "jm_tasks (wd_manager W) taskID = Some t"
    and a: "assemble_task_of (wd_manager W) jobID taskID" by (rule posting_task)
  from assemble_started_tasks [OF t] obtain t' where
    tw: "task_write (wd_manager W) taskID t t' (assemble_started jobID taskID now (wd_manager W))"
    and "active t \<longleftrightarrow> active t'" by blast
  then have "world_ok (W\<lparr>wd_manager := assemble_started jobID taskID now (wd_manager W), wd_active := {#} + A\<rparr>)"
    by (intro world_ok_write [OF W, where Old = "{#PostingAssembly jobID taskID workerID d#}",
          OF _ tw wf_assemble_started [OF D(2) a]])
      (use old in \<open>simp_all add: task_write_hold\<close>)
  then show ?thesis by simp
qed

text \<open>The failed start: when the task has already ended, the release that follows is a phantom.\<close>

lemma step_start_failed_ok:
  assumes W: "world_ok W" and old: "wd_active W = add_mset (PostingAssembly jobID taskID workerID d) A"
    and over: "over = (if task_active taskID (wd_manager W) then 0 else 1)"
  shows "world_ok (W\<lparr>wd_manager := assemble_start_failed_locked jobID taskID reason False now (wd_manager W),
      wd_active := add_mset (ReleasingDisk workerID d None) A,
      wd_phantom := (wd_phantom W)(workerID := wd_phantom W workerID + over),
      wd_phantom_disk := (wd_phantom_disk W)(workerID := wd_phantom_disk W workerID + over * d)\<rparr>)"
    (is "world_ok ?W")
proof -
  note D = world_okD [OF W]
  from W old obtain t where t: "jm_tasks (wd_manager W) taskID = Some t" "t_AssignedWorkerID t = workerID"
    "t_RequiredDiskBytes t = d" and a: "assemble_task_of (wd_manager W) jobID taskID"
    and w: "workerID \<in> dom (wr_byID (wd_registry W))" "0 \<le> d" "in64 d"
    by (rule posting_task)
  from assemble_start_failed_tasks [OF t(1)] obtain t' where
    tw: "task_write (wd_manager W) taskID t t' (assemble_start_failed_locked jobID taskID reason False now (wd_manager W))"
    and t': "\<not> active t'" by blast
  have ov: "over = (if active t then 0 else 1)" using over t(1) by (simp add: task_active_def)
  show ?thesis
  proof (rule world_ok_stepI [OF W, where Old = "{#PostingAssembly jobID taskID workerID d#}"
        and N = "{#ReleasingDisk workerID d None#}" and A = A
        and delta = "\<lambda>R k. if k = workerID then over * amount R 1 d else 0"
        and c = "\<lambda>R k. counter R (wd_registry W) k"])
    show "wd_active W = {#PostingAssembly jobID taskID workerID d#} + A" using old by simp
    show "ledger_effect (\<lambda>R k. counter R (wd_registry W) k) (wd_registry W) (wd_registry ?W)"
      using effect_refl [OF D(1)] by simp
    show "wf_manager (wd_manager ?W)" using wf_assemble_start_failed [OF D(2) a] by simp
    show "tasks_persist (wd_manager W) (wd_manager ?W)" using task_write_persist [OF tw] by simp
    show "tasks_ok (dom (wr_byID (wd_registry ?W))) (wd_manager ?W)"
      using task_write_ok [OF tw D(3)] by simp
    show "wd_active ?W = {#ReleasingDisk workerID d None#} + A" by simp
    show "\<forall>a\<in>#{#ReleasingDisk workerID d None#}. activity_ok (dom (wr_byID (wd_registry ?W))) (wd_manager ?W) a"
      using w by auto
    show "held R k ?W = held R k W + (if k = workerID then over * amount R 1 d else 0)" for R k
      using task_write_msum [OF tw wf_managerD(2) [OF D(2)], of "task_hold R k"] t t' ov
      by (cases R) (auto simp: held_def old task_hold_def)
    show "balanced (held R k W + (if k = workerID then over * amount R 1 d else 0)) (phantom R k ?W)
        (counter R (wd_registry W) k)"
      if "balanced (held R k W) (phantom R k W) (counter R (wd_registry W) k)" for R k
      using that ov w(2) by (cases R) (auto simp: balanced_def phantom_def)
  qed
qed

subsection \<open>Releases and assembly reports\<close>

lemma step_release_slots_ok:
  assumes W: "world_ok W" and old: "wd_active W = add_mset (ReleasingSlots ks nxt) A"
  shows "world_ok (W\<lparr>wd_registry := ReleaseReservations ks now (wd_registry W),
    wd_active := then_activity StartingAssembly nxt A\<rparr>)"
proof -
  let ?N = "case nxt of None \<Rightarrow> {#} | Some jobID \<Rightarrow> {#StartingAssembly jobID#}"
  have "world_ok (W\<lparr>wd_registry := ReleaseReservations ks now (wd_registry W), wd_active := ?N + A\<rparr>)"
    by (rule world_ok_release [OF W old effect_ReleaseReservations [OF world_okD(1) [OF W]]])
      (auto split: option.splits)
  then show ?thesis by (cases nxt) (simp_all add: then_activity_def)
qed

lemma step_release_disk_ok:
  assumes W: "world_ok W" and old: "wd_active W = add_mset (ReleasingDisk w d nxt) A"
  shows "world_ok (W\<lparr>wd_registry := ReleaseReservation w d now (wd_registry W),
    wd_active := then_activity MarkingFailed nxt A\<rparr>)"
proof -
  note D = world_okD [OF W]
  let ?N = "case nxt of None \<Rightarrow> {#} | Some jobID \<Rightarrow> {#MarkingFailed jobID#}"
  have "activity_ok (dom (wr_byID (wd_registry W))) (wd_manager W) (ReleasingDisk w d nxt)"
    by (rule D(4)) (simp add: old)
  then have d: "0 \<le> d" "in64 d" by simp_all
  have "world_ok (W\<lparr>wd_registry := ReleaseReservation w d now (wd_registry W), wd_active := ?N + A\<rparr>)"
    by (rule world_ok_release [OF W old effect_ReleaseReservation [OF D(1) d]])
      (auto simp: counter_nonneg [OF D(1)] split: option.splits)
  then show ?thesis by (cases nxt) (simp_all add: then_activity_def)
qed

lemma step_assembly_report_ok:
  assumes W: "world_ok W" and wf: "wf_manager m'"
    and tw: "\<exists>k t t'. task_write (wd_manager W) k t t' m' \<and> active t \<and> \<not> active t'
      \<and> ar_releaseWorkerID rep = t_AssignedWorkerID t \<and> ar_releaseDiskBytes rep = t_RequiredDiskBytes t"
  shows "world_ok (W\<lparr>wd_manager := m', wd_active := report_release rep (wd_active W)\<rparr>)"
proof -
  from tw obtain k t t' where tw: "task_write (wd_manager W) k t t' m'"
    and t: "active t" "\<not> active t'" "ar_releaseWorkerID rep = t_AssignedWorkerID t"
      "ar_releaseDiskBytes rep = t_RequiredDiskBytes t" by blast
  note T = task_write_worker [OF W tw]
  have "ar_releaseWorkerID rep \<noteq> []"
    using T(1) t(3) reg_okD(2) [OF world_okD(1) [OF W]] by auto
  moreover have "world_ok (W\<lparr>wd_manager := m',
      wd_active := {#ReleasingDisk (ar_releaseWorkerID rep) (ar_releaseDiskBytes rep) None#} + wd_active W\<rparr>)"
  proof (rule world_ok_write [OF W, where Old = "{#}", OF _ tw wf])
    show "task_hold R j t' + (\<Sum>a\<in>#{#ReleasingDisk (ar_releaseWorkerID rep) (ar_releaseDiskBytes rep) None#}.
        activity_hold R j a) = task_hold R j t + (\<Sum>a\<in>#{#}. activity_hold R j a)" for R j
      using t by (simp add: task_hold_def)
  qed (use T t in simp_all)
  ultimately show ?thesis by (simp add: report_release_def)
qed

subsection \<open>The invariant\<close>

lemma held_registry [simp]: "held R k (W\<lparr>wd_registry := r\<rparr>) = held R k W"
  by (simp add: held_def)

lemma held_slots_grow:
  assumes "held Slots k W' < slot_limit" and "wd_manager W' = wd_manager W"
    and "(\<Sum>a\<in>#wd_active W. activity_hold Slots k a) \<le> (\<Sum>a\<in>#wd_active W'. activity_hold Slots k a)"
  shows "held Slots k W < slot_limit"
  using assms by (simp add: held_def)

theorem bounded_step_ok:
  assumes "bounded_step W W'" and W: "world_ok W"
  shows "world_ok W'"
proof -
  from assms(1) have step: "entry_step W W'" and lim: "\<And>k. held Slots k W' < slot_limit"
    and disk: "\<And>jobID s. PickingAssembler jobID s \<in># wd_active W' \<Longrightarrow> 0 \<le> required_disk s"
    by (simp_all add: bounded_step_def within_def)
  note D = world_okD [OF W] and reg = step_registry_ok [OF W]
  from step disk show ?thesis
  proof (induction rule: entry_step.cases)
    case register
    then show ?case using reg effect_RegisterWorker [OF D(1)] by blast
  next
    case (heartbeat req now W1 res r')
    then show ?case using reg effect_HeartbeatWorker [OF D(1), of req now] by simp
  next
    case (expire timeout ord now W1 n r')
    then show ?case using reg effect_MarkExpiredWorkers [OF D(1), of timeout ord now] by simp
  next
    case (backpressure ord W1 st r')
    then show ?case using reg effect_RefreshBackpressureStatus [OF D(1), of ord] by simp
  next
    case create_begin
    then show ?case using step_create_begin_ok [OF W] by simp
  next
    case (create_assign W1 req sw jobID now q rest plan b A ev w r' taskID)
    have "held Slots (w_ID w) W < slot_limit"
      by (rule held_slots_grow [OF lim]) (use create_assign in \<open>simp_all add: batch_add_def\<close>)
    with create_assign show ?case using step_create_assign_ok(1) [OF W] by simp
  next
    case (create_refused W1 req sw jobID now q rest plan b A ev r')
    have "r' = wd_registry W" using assign_None [OF D(1)] create_refused(1,4) by blast
    with create_refused step_create_release_ok [OF W, of req sw jobID now "q # rest" plan b A] show ?case by simp
  next
    case (create_no_draw W1 req sw jobID now q rest plan b A ev w r' e)
    have "held Slots (w_ID w) W < slot_limit"
      by (rule held_slots_grow [OF lim]) (use create_no_draw in \<open>simp_all\<close>)
    with create_no_draw show ?case using step_create_assign_ok(2) [OF W] by simp
  next
    case create_commit
    then show ?case using step_create_commit_ok [OF W] by simp
  next
    case (create_exists W1 req sw jobID now plan b A job existing m')
    have "m' = wd_manager W" using commit_job_Some create_exists(1,5) by blast
    with create_exists step_create_release_ok [OF W, of req sw jobID now "[]" plan b A] show ?case by simp
  next
    case (accept k areq now W1 res m')
    note tw = AcceptSegmentTask_write [OF accept(3), folded accept(1)]
    show ?case
      using step_accept_ok [OF W _ tw] wf_AcceptSegmentTask [OF D(2), of k areq now] accept by simp
  next
    case (complete_segment creq k now W1 rep m')
    note tw = complete_segment_write [OF complete_segment(4), folded complete_segment(1)]
    show ?case
      using step_segment_report_ok [OF W _ tw] wf_complete_segment_locked [OF D(2), of k creq now] complete_segment
      by simp
  next
    case (fail_segment k freq now W1 rep m')
    note tw = fail_segment_write [OF fail_segment(3), folded fail_segment(1)]
    show ?case
      using step_segment_report_ok [OF W _ tw] wf_fail_segment_locked [OF D(2), of k freq now] fail_segment by simp
  next
    case release_slots
    then show ?case using step_release_slots_ok [OF W] by simp
  next
    case (snapshot W1 jobID A s)
    have "0 \<le> required_disk s" by (rule disk [of jobID]) (simp add: snapshot(2))
    with snapshot have "world_ok (W\<lparr>wd_manager := wd_manager W, wd_active := {#PickingAssembler jobID s#} + A\<rparr>)"
      by (intro step_drop_ok [OF W, of "StartingAssembly jobID"]) (use D(2) in simp_all)
    with snapshot show ?case by simp
  next
    case (snapshot_refused W1 jobID A e)
    then have "world_ok (W\<lparr>wd_manager := wd_manager W, wd_active := {#} + A\<rparr>)"
      by (intro step_drop_ok [OF W, of "StartingAssembly jobID"]) (use D(2) in simp_all)
    with snapshot_refused show ?case by simp
  next
    case (pick W1 jobID s A ev w r' taskID)
    have "held Slots (w_ID w) W < slot_limit"
      by (rule held_slots_grow [OF lim]) (use pick in \<open>simp_all\<close>)
    with pick show ?case using step_pick_ok [OF W] by simp
  next
    case (pick_no_draw W1 jobID s A ev w r' e)
    have "held Slots (w_ID w) W < slot_limit"
      by (rule held_slots_grow [OF lim]) (use pick_no_draw in \<open>simp_all\<close>)
    with pick_no_draw show ?case using step_pick_ok [OF W] by simp
  next
    case (pick_none W1 jobID s A ord now r')
    then have "world_ok (W\<lparr>wd_manager := wd_manager W, wd_active := {#MarkingFailed jobID#} + A\<rparr>)"
      by (intro step_drop_ok [OF W, of "PickingAssembler jobID s"]) (use D(2) in simp_all)
    moreover have "r' = wd_registry W" using pick_None pick_none(1,4) by blast
    ultimately show ?case using pick_none by simp
  next
    case commit
    then show ?case using step_commit_ok [OF W] by simp
  next
    case (commit_refused W1 jobID s w taskID A now m')
    have "m' = wd_manager W" using assemble_commit_False commit_refused(1,4) by blast
    with commit_refused step_commit_refused_ok [OF W, of jobID s w taskID A] show ?case by simp
  next
    case started
    then show ?case using step_started_ok [OF W] by simp
  next
    case (disk_observed W1 jobID taskID workerID d A reply now)
    then show ?case using reg effect_observe_disk [OF D(1) disk_observed(5), of workerID now] by simp
  next
    case start_failed
    then show ?case using step_start_failed_ok [OF W] by simp
  next
    case release_disk
    then show ?case using step_release_disk_ok [OF W] by simp
  next
    case (mark_failed W1 jobID A now)
    then have "world_ok (W\<lparr>wd_manager := markJobFailed jobID now (wd_manager W), wd_active := {#} + A\<rparr>)"
      by (intro step_drop_ok [OF W, of "MarkingFailed jobID"]) (use wf_markJobFailed [OF D(2)] in simp_all)
    with mark_failed show ?case by simp
  next
    case (assembled jreq W1 w jobID now rep m')
    note tw = complete_assemble_write [OF assembled(4), folded assembled(1)]
    show ?case
      using step_assembly_report_ok [OF W _ tw] wf_complete_assemble_locked [OF D(2), of jobID jreq w now] assembled
      by simp
  next
    case (assembly_failed jobID jreq now W1 rep m')
    note tw = fail_assemble_write [OF assembly_failed(3), folded assembly_failed(1)]
    show ?case
      using step_assembly_report_ok [OF W _ tw] wf_fail_assemble_locked [OF D(2), of jobID jreq now] assembly_failed
      by simp
  qed
qed

end
