(* ===== verification/Entry_Refinement.thy ===== *)
theory Entry_Refinement
  imports Entry_Safety
begin

text \<open>
  The operations of \<open>Job_Manager\<close> and \<open>Job_Assembly\<close>, each run without interruption, are runs
  of the interleaving system: the same critical sections in the order of the code. So what holds
  of every interleaving holds of them.
\<close>

definition world_of :: "(string \<Rightarrow> int) \<times> (string \<Rightarrow> int) \<Rightarrow> Activity multiset \<Rightarrow> Entry \<Rightarrow> World" where
  "world_of ph A E =
     \<lparr>wd_registry = en_workers E, wd_manager = en_manager E, wd_active = A,
      wd_phantom = fst ph, wd_phantom_disk = snd ph\<rparr>"

lemma world_of_simps [simp]:
  "wd_registry (world_of ph A E) = en_workers E" "wd_manager (world_of ph A E) = en_manager E"
  "wd_active (world_of ph A E) = A"
  "(world_of ph A E)\<lparr>wd_active := B\<rparr> = world_of ph B E"
  "(world_of ph A E)\<lparr>wd_registry := r\<rparr> = world_of ph A (E\<lparr>en_workers := r\<rparr>)"
  "(world_of ph A E)\<lparr>wd_manager := m\<rparr> = world_of ph A (E\<lparr>en_manager := m\<rparr>)"
  by (simp_all add: world_of_def)

lemma entry_eta: "\<lparr>en_workers = r, en_manager = m\<rparr> = E\<lparr>en_workers := r, en_manager := m\<rparr>"
  by (cases E) simp

lemma entry_eta': "\<lparr>en_workers = r, en_manager = m\<rparr> = E\<lparr>en_manager := m, en_workers := r\<rparr>"
  by (cases E) simp

lemma release_run:
  "entry_step\<^sup>*\<^sup>* (world_of ph (add_mset (ReleasingSlots ks None) A) E)
     (world_of ph A (E\<lparr>en_workers := ReleaseReservations ks now (en_workers E)\<rparr>))"
  using entry_step.release_slots [of "world_of ph (add_mset (ReleasingSlots ks None) A) E" ks None A now]
  by (auto simp: then_activity_def)

lemma release_disk_run:
  "entry_step\<^sup>*\<^sup>* (world_of ph (add_mset (ReleasingDisk w d None) A) E)
     (world_of ph A (E\<lparr>en_workers := ReleaseReservation w d now (en_workers E)\<rparr>))"
  using entry_step.release_disk [of "world_of ph (add_mset (ReleasingDisk w d None) A) E" w d None A now]
  by (auto simp: then_activity_def)

subsection \<open>Job creation\<close>

lemma create_tasks_run:
  assumes "create_tasks (assignSegmentWorker (w_ID sw)) ReleaseReservations jobID now n env rest b (en_workers E) = (out, r')"
  shows "case out of
      Inl _ \<Rightarrow> entry_step\<^sup>*\<^sup>* (world_of ph (add_mset (CreatingJob req sw jobID now rest plan b) A) E)
                (world_of ph A (E\<lparr>en_workers := r'\<rparr>))
    | Inr b' \<Rightarrow> entry_step\<^sup>*\<^sup>* (world_of ph (add_mset (CreatingJob req sw jobID now rest plan b) A) E)
                (world_of ph (add_mset (CreatingJob req sw jobID now [] plan b') A) (E\<lparr>en_workers := r'\<rparr>))"
  using assms
proof (induction rest arbitrary: env b E)
  case Nil
  then show ?case by auto
next
  case (Cons q rest)
  let ?W = "world_of ph (add_mset (CreatingJob req sw jobID now (q # rest) plan b) A) E"
  obtain w r1 where a: "assignSegmentWorker (w_ID sw) (env 0) (cjt_Mode q) (en_workers E) = (w, r1)"
    by (metis prod.exhaust)
  have old: "wd_active ?W = add_mset (CreatingJob req sw jobID now (q # rest) plan b) A" by simp
  show ?case
  proof (cases w)
    case None
    have "entry_step ?W (world_of ph (add_mset (ReleasingSlots (tb_reserved b) None) A) (E\<lparr>en_workers := r1\<rparr>))"
      using entry_step.create_refused [OF old, of "env 0" r1] a None by simp
    from converse_rtranclp_into_rtranclp [OF this release_run [of ph _ A _ "ev_now (env 0)"]] Cons.prems a None
    show ?thesis by auto
  next
    case (Some u)
    show ?thesis
    proof (cases "nextID ''task_'' (ev_draw (env 0))")
      case (Inl e)
      have "entry_step ?W (world_of ph (add_mset (ReleasingSlots (tb_reserved b @ [w_ID u]) None) A) (E\<lparr>en_workers := r1\<rparr>))"
        using entry_step.create_no_draw [OF old, of "env 0" u r1 e] a Some Inl by simp
      from converse_rtranclp_into_rtranclp [OF this release_run [of ph _ A _ "ev_now (env 0)"]] Cons.prems a Some Inl
      show ?thesis by auto
    next
      case (Inr taskID)
      let ?b = "batch_add b taskID jobID q u now"
      have s: "entry_step ?W (world_of ph (add_mset (CreatingJob req sw jobID now rest plan ?b) A) (E\<lparr>en_workers := r1\<rparr>))"
        using entry_step.create_assign [OF old, of "env 0" u r1 taskID] a Some Inr by simp
      have "create_tasks (assignSegmentWorker (w_ID sw)) ReleaseReservations jobID now n (\<lambda>n. env (Suc n)) rest ?b
          (en_workers (E\<lparr>en_workers := r1\<rparr>)) = (out, r')"
        using Cons.prems a Some Inr by (simp add: batch_add_def)
      from Cons.IH [OF this] s show ?thesis
        by (cases out) (auto intro: converse_rtranclp_into_rtranclp)
    qed
  qed
qed

text \<open>The end of the loop: the commit, or the release when the job exists by now.\<close>

lemma create_commit_run:
  assumes b: "create_tasks (assignSegmentWorker (w_ID sw)) ReleaseReservations jobID now n env0 plan zero_TaskBatch
      (en_workers E) = (Inr b, r)"
    and plan: "plan \<noteq> []"
    and job: "job = job_of_request req sw jobID now plan b"
    and fresh: "jm_jobIDByIdentity (en_manager E) (j_IdentityKey job) = None \<longrightarrow>
      jm_jobs (en_manager E) jobID = None \<and> distinct (map ta_TaskID (tb_assignments b))
      \<and> (\<forall>a\<in>set (tb_assignments b). jm_tasks (en_manager E) (ta_TaskID a) = None)"
  shows "entry_step\<^sup>*\<^sup>* (world_of ph (add_mset (CreatingJob req sw jobID now [] plan b) A) (E\<lparr>en_workers := r\<rparr>))
    (world_of ph A
      (case commit_job (j_IdentityKey job) job (tb_tasks b) (en_manager E) of
         (None, m) \<Rightarrow> \<lparr>en_workers = r, en_manager = m\<rparr>
       | (Some _, m) \<Rightarrow> \<lparr>en_workers = ReleaseReservations (tb_reserved b) later r, en_manager = m\<rparr>))"
    (is "entry_step\<^sup>*\<^sup>* ?W _")
proof (cases "commit_job (j_IdentityKey job) job (tb_tasks b) (en_manager E)")
  case (Pair found m)
  have old: "wd_active ?W = add_mset (CreatingJob req sw jobID now [] plan b) A" by simp
  have cj: "commit_job (j_IdentityKey job) job (tb_tasks b) (wd_manager ?W) = (found, m)" using Pair by simp
  show ?thesis
  proof (cases found)
    case None
    with Pair have new: "jm_jobIDByIdentity (en_manager E) (j_IdentityKey job) = None"
      by (auto simp: commit_job_def split: option.splits)
    obtain ts where ts: "tb_tasks b = ts" "tb_assignments b = map assignment_for ts"
      "list_all2 (task_for jobID now) plan ts"
      using create_tasks_batch [OF b] by (auto simp: zero_TaskBatch_def)
    have "ts \<noteq> []" using ts(3) plan by auto
    moreover have "ta_TaskID (assignment_for t) = t_ID t" for t by (simp add: assignment_for_def)
    moreover have "j_ID job = jobID" by (simp add: job job_of_request_def new_job_def)
    ultimately have "fresh_batch job (tb_tasks b) (wd_manager ?W)"
      using fresh new ts by (simp add: fresh_batch_def comp_def)
    from entry_step.create_commit [OF old job this cj [unfolded None]] Pair None show ?thesis
      by (auto simp: entry_eta [of _ _ E])
  next
    case (Some other)
    then have m: "m = en_manager E" using Pair commit_job_Some by blast
    have "entry_step ?W (world_of ph (add_mset (ReleasingSlots (tb_reserved b) None) A) (E\<lparr>en_workers := r\<rparr>))"
      using entry_step.create_exists [OF old job cj [unfolded Some]] m by simp
    from converse_rtranclp_into_rtranclp [OF this release_run [of ph _ A _ later]] Pair Some m show ?thesis
      by (simp add: entry_eta [of _ _ E])
  qed
qed

lemma createJobWithTaskPlan_run:
  assumes R: "createJobWithTaskPlan req sw (jobIdentityKey (w_Address sw) (cjr_VideoName req)) plan env E
      = ((res, err), E')"
    and plan: "createJobTaskPlan req = Inr plan" and sw: "GetWorker (cjr_WorkerID req) (en_workers E) = Some sw"
    and id: "nextID ''job_'' (ev_draw (env 0)) = Inr jobID"
    and fresh: "err = None \<and> \<not> cr_AlreadyExists res \<longrightarrow>
      jm_jobs (en_manager E) (cr_JobID res) = None
      \<and> distinct (map ta_TaskID (cr_Assignments res))
      \<and> (\<forall>a\<in>set (cr_Assignments res). jm_tasks (en_manager E) (ta_TaskID a) = None)"
  shows "entry_step\<^sup>*\<^sup>* (world_of ph A E) (world_of ph A E')"
proof -
  let ?now = "ev_now (env 0)"
  obtain out r where C: "create_tasks (assignSegmentWorker (w_ID sw)) ReleaseReservations jobID ?now
      (int (length plan)) (\<lambda>n. env (Suc n)) plan zero_TaskBatch (en_workers E) = (out, r)"
    by (metis prod.exhaust)
  have start: "entry_step (world_of ph A E)
      (world_of ph (add_mset (CreatingJob req sw jobID ?now plan plan zero_TaskBatch) A) E)"
    using entry_step.create_begin [OF plan, of "world_of ph A E" sw "ev_draw (env 0)" jobID ?now] sw id by simp
  note run = create_tasks_run [OF C, of ph req plan A] and R = R [unfolded createJobWithTaskPlan_def]
  show ?thesis
  proof (cases out)
    case (Inl f)
    with R id C have "E' = E\<lparr>en_workers := r\<rparr>" by (cases f) (auto simp: Let_def)
    with Inl run start show ?thesis by (auto intro: converse_rtranclp_into_rtranclp)
  next
    case b: (Inr b)
    let ?job = "job_of_request req sw jobID ?now plan b"
    have job: "?job = new_job jobID req sw (j_IdentityKey ?job) plan (tb_tasks b) ?now"
      "j_IdentityKey ?job = jobIdentityKey (w_Address sw) (cjr_VideoName req)" "j_ID ?job = jobID"
      by (simp_all add: job_of_request_def new_job_def)
    let ?fin = "case commit_job (j_IdentityKey ?job) ?job (tb_tasks b) (en_manager E) of
        (None, m) \<Rightarrow> \<lparr>en_workers = r, en_manager = m\<rparr>
      | (Some _, m) \<Rightarrow> \<lparr>en_workers = ReleaseReservations (tb_reserved b) (ev_now (env (Suc (length plan)))) r,
          en_manager = m\<rparr>"
    from R id C b job have E': "E' = ?fin"
      by (auto simp: Let_def commit_job_def split: option.splits)
    have "res = created ?job (int (length plan)) b \<and> err = None"
      if "jm_jobIDByIdentity (en_manager E) (j_IdentityKey ?job) = None"
      using R id C b job that by (auto simp: Let_def commit_job_def)
    with fresh job(3) have "jm_jobIDByIdentity (en_manager E) (j_IdentityKey ?job) = None \<longrightarrow>
        jm_jobs (en_manager E) jobID = None \<and> distinct (map ta_TaskID (tb_assignments b))
        \<and> (\<forall>a\<in>set (tb_assignments b). jm_tasks (en_manager E) (ta_TaskID a) = None)"
      by (auto simp: created_def)
    from create_commit_run [OF C [unfolded b] createJobTaskPlan_nonempty [OF plan] refl this,
        of ph A "ev_now (env (Suc (length plan)))"] b run start E'
    show ?thesis by (auto intro: converse_rtranclp_into_rtranclp rtranclp_trans)
  qed
qed

text \<open>
  C11. \<open>CreateJob\<close> run without interruption is a run of the interleaving system that starts and ends
  with the same other requests under way, provided the identifiers it draws are unused.
\<close>

theorem CreateJob_is_run:
  assumes R: "CreateJob req env E = ((res, err), E')"
    and fresh: "err = None \<and> \<not> cr_AlreadyExists res \<longrightarrow>
      jm_jobs (en_manager E) (cr_JobID res) = None
      \<and> distinct (map ta_TaskID (cr_Assignments res))
      \<and> (\<forall>a\<in>set (cr_Assignments res). jm_tasks (en_manager E) (ta_TaskID a) = None)"
  shows "entry_step\<^sup>*\<^sup>* (world_of ph A E) (world_of ph A E')"
proof (cases "\<exists>plan sw jobID. createJobTaskPlan req = Inr plan \<and> GetWorker (cjr_WorkerID req) (en_workers E) = Some sw
    \<and> findJobByIdentity (jobIdentityKey (w_Address sw) (cjr_VideoName req)) (en_manager E) = None
    \<and> nextID ''job_'' (ev_draw (env 0)) = Inr jobID")
  case False
  with R have "E' = E"
    by (auto simp: CreateJob_def createJobWithTaskPlan_def Let_def split: option.splits sum.splits)
  then show ?thesis by simp
next
  case True
  then obtain plan sw jobID where c: "createJobTaskPlan req = Inr plan"
    "GetWorker (cjr_WorkerID req) (en_workers E) = Some sw" "nextID ''job_'' (ev_draw (env 0)) = Inr jobID"
    "findJobByIdentity (jobIdentityKey (w_Address sw) (cjr_VideoName req)) (en_manager E) = None" by blast
  with R have "createJobWithTaskPlan req sw (jobIdentityKey (w_Address sw) (cjr_VideoName req)) plan env E
      = ((res, err), E')" by (simp add: CreateJob_def Let_def)
  from createJobWithTaskPlan_run [OF this c(1-3) fresh] show ?thesis .
qed

subsection \<open>Reports\<close>

lemma FailSegmentTask_run:
  "entry_step\<^sup>*\<^sup>* (world_of ph A E) (world_of ph A (snd (FailSegmentTask taskID req ev E)))"
proof (cases "fail_segment_locked taskID req (ev_now ev) (en_manager E)")
  case (Pair res m)
  show ?thesis
  proof (cases res)
    case (Inl e)
    with Pair have "m = en_manager E"
      by (auto simp: fail_segment_locked_def split: sum.splits if_splits)
    with Pair Inl show ?thesis by (simp add: FailSegmentTask_def)
  next
    case (Inr rep)
    have "entry_step (world_of ph A E)
        (world_of ph (add_mset (ReleasingSlots [sg_workerID rep] None) A) (E\<lparr>en_manager := m\<rparr>))"
      using entry_step.fail_segment [of taskID req "ev_now ev" "world_of ph A E" rep m] Pair Inr by simp
    from converse_rtranclp_into_rtranclp [OF this release_run [of ph _ A _ "ev_now ev"]]
    show ?thesis using Pair Inr by (simp add: FailSegmentTask_def entry_eta' [of _ _ E])
  qed
qed

lemma assemble_reported_run:
  assumes step: "\<And>rep m. res = (Inr rep, m) \<Longrightarrow>
      entry_step (world_of ph A E) (world_of ph (report_release rep A) (E\<lparr>en_manager := m\<rparr>))"
    and same: "\<And>e m. res = (Inl e, m) \<Longrightarrow> m = en_manager E"
  shows "entry_step\<^sup>*\<^sup>* (world_of ph A E) (world_of ph A (snd (assemble_reported res now E)))"
proof (cases res)
  case (Pair out m)
  show ?thesis
  proof (cases out)
    case (Inl e)
    with Pair same [of e m] show ?thesis by (simp add: assemble_reported_def)
  next
    case (Inr rep)
    have s: "entry_step (world_of ph A E) (world_of ph (report_release rep A) (E\<lparr>en_manager := m\<rparr>))"
      by (rule step) (simp add: Pair Inr)
    show ?thesis
    proof (cases "ar_releaseWorkerID rep = []")
      case True
      with s Pair Inr show ?thesis
        by (auto simp: assemble_reported_def report_release_def entry_eta [of _ _ E])
    next
      case False
      with s have "entry_step (world_of ph A E) (world_of ph (add_mset
          (ReleasingDisk (ar_releaseWorkerID rep) (ar_releaseDiskBytes rep) None) A) (E\<lparr>en_manager := m\<rparr>))"
        by (simp add: report_release_def)
      from converse_rtranclp_into_rtranclp [OF this release_disk_run [of ph _ _ A _ now]] False Pair Inr
      show ?thesis by (simp add: assemble_reported_def entry_eta' [of _ _ E])
    qed
  qed
qed

lemma AssembleJob_run:
  "entry_step\<^sup>*\<^sup>* (world_of ph A E) (world_of ph A (snd (AssembleJob jobID req now E)))"
proof -
  have "entry_step\<^sup>*\<^sup>* (world_of ph A E) (world_of ph A (snd (completeAssembleJob jobID req now E)))"
  proof (cases "GetWorker (jar_WorkerID req) (en_workers E)")
    case None
    then show ?thesis by (simp add: completeAssembleJob_def)
  next
    case (Some w)
    have "entry_step\<^sup>*\<^sup>* (world_of ph A E)
        (world_of ph A (snd (assemble_reported (complete_assemble_locked jobID req w now (en_manager E)) now E)))"
    proof (rule assemble_reported_run)
      show "entry_step (world_of ph A E) (world_of ph (report_release rep A) (E\<lparr>en_manager := m\<rparr>))"
        if "complete_assemble_locked jobID req w now (en_manager E) = (Inr rep, m)" for rep m
        using entry_step.assembled [of req "world_of ph A E" w jobID now rep m] Some that by simp
      show "m = en_manager E" if "complete_assemble_locked jobID req w now (en_manager E) = (Inl e, m)" for e m
        using complete_assemble_locked_cases [of jobID req w now "en_manager E"] that by auto
    qed
    with Some show ?thesis by (simp add: completeAssembleJob_def)
  qed
  moreover have "entry_step\<^sup>*\<^sup>* (world_of ph A E) (world_of ph A (snd (failAssembleJob jobID req now E)))"
    unfolding failAssembleJob_def
  proof (rule assemble_reported_run)
    show "entry_step (world_of ph A E) (world_of ph (report_release rep A) (E\<lparr>en_manager := m\<rparr>))"
      if "fail_assemble_locked jobID req now (en_manager E) = (Inr rep, m)" for rep m
      using entry_step.assembly_failed [of jobID req now "world_of ph A E" rep m] that by simp
    show "m = en_manager E" if "fail_assemble_locked jobID req now (en_manager E) = (Inl e, m)" for e m
      using fail_assemble_locked_cases [of jobID req now "en_manager E"] that by auto
  qed
  ultimately show ?thesis by (simp add: AssembleJob_def split: JobResultStatus.splits)
qed

text \<open>
  C12. \<open>FailSegmentTask\<close> and \<open>AssembleJob\<close> run without interruption are runs of the interleaving
  system (a registered worker never has the empty identifier).
\<close>

theorem reports_are_runs:
  "entry_step\<^sup>*\<^sup>* (world_of ph A E) (world_of ph A (snd (FailSegmentTask taskID freq ev E)))
   \<and> entry_step\<^sup>*\<^sup>* (world_of ph A E) (world_of ph A (snd (AssembleJob jobID areq now E)))"
  using FailSegmentTask_run AssembleJob_run by blast

subsection \<open>The last segment and the assembly it starts\<close>

text \<open>What the model asks of the POST: what Entry does meanwhile is a run during which the request
  stays at the POST.\<close>

definition post_is_run :: "assemble_post \<Rightarrow> bool" where
  "post_is_run post \<longleftrightarrow>
     (\<forall>addr req E ph A jobID taskID w d. bind_reply (fst (post addr req E))
        \<and> (\<exists>ph'. entry_step\<^sup>*\<^sup>* (world_of ph (add_mset (PostingAssembly jobID taskID w d) A) E)
             (world_of ph' (add_mset (PostingAssembly jobID taskID w d) A) (snd (post addr req E)))))"

lemma replied_run:
  assumes b: "bind_reply reply"
  shows "\<exists>ph'. entry_step\<^sup>*\<^sup>* (world_of ph (add_mset (PostingAssembly jobID taskID w d) A) E)
    (world_of ph' A (snd (assemble_replied jobID taskID w d reply now E)))"
proof (cases "reply_started reply")
  case True
  then have "assemble_replied jobID taskID w d reply now E
      = (None, E\<lparr>en_manager := assemble_started jobID taskID now (en_manager E)\<rparr>)"
    by (auto simp: assemble_replied_def reply_started_def split: sum.splits)
  then show ?thesis
    using entry_step.started [of "world_of ph (add_mset (PostingAssembly jobID taskID w d) A) E" jobID taskID w d A reply now] True
    by (intro exI [of _ ph]) auto
next
  case False
  then obtain reason where R: "snd (assemble_replied jobID taskID w d reply now E)
      = \<lparr>en_workers = ReleaseReservation w d now (observe_disk w reply now (en_workers E)),
         en_manager = assemble_start_failed_locked jobID taskID reason False now (en_manager E)\<rparr>"
  proof (cases "notifyAssembleWorker reply")
    case (Inl err)
    then show thesis
      by (intro that [of err]) (simp add: assemble_replied_def observe_disk_def markAssembleStartFailed_def)
  next
    case (Inr resp)
    with False show thesis
      by (intro that [of "''assemble worker returned status '' @ start_assemble_status_name (sap_Status resp)"])
        (simp add: assemble_replied_def reply_started_def observe_disk_def markAssembleStartFailed_def Let_def)
  qed
  let ?over = "if task_active taskID (en_manager E) then 0 else (1 :: int)"
  let ?ph = "((fst ph)(w := fst ph w + ?over), (snd ph)(w := snd ph w + ?over * d))"
  let ?E = "\<lparr>en_workers = observe_disk w reply now (en_workers E),
      en_manager = assemble_start_failed_locked jobID taskID reason False now (en_manager E)\<rparr>"
  let ?O = "E\<lparr>en_workers := observe_disk w reply now (en_workers E)\<rparr>"
  have 1: "entry_step (world_of ph (add_mset (PostingAssembly jobID taskID w d) A) E)
      (world_of ph (add_mset (PostingAssembly jobID taskID w d) A) ?O)"
    using entry_step.disk_observed [where W = "world_of ph (add_mset (PostingAssembly jobID taskID w d) A) E"
        and A = A and reply = reply and now = now, OF _ False b]
    by (simp add: world_of_def)
  have "entry_step (world_of ph (add_mset (PostingAssembly jobID taskID w d) A) ?O)
      (world_of ?ph (add_mset (ReleasingDisk w d None) A) ?E)"
    using entry_step.start_failed [where W = "world_of ph (add_mset (PostingAssembly jobID taskID w d) A) ?O"
        and A = A and reply = reply and now = now and reason = reason, OF _ False refl]
    by (simp add: world_of_def)
  from converse_rtranclp_into_rtranclp [OF 1 converse_rtranclp_into_rtranclp [OF this release_disk_run [of ?ph w d A ?E now]]]
  show ?thesis using R by (intro exI [of _ ?ph]) simp
qed

lemma mark_failed_run:
  "entry_step\<^sup>*\<^sup>* (world_of ph (add_mset (MarkingFailed jobID) A) E)
     (world_of ph A (E\<lparr>en_manager := markJobFailed jobID now (en_manager E)\<rparr>))"
  using entry_step.mark_failed [of "world_of ph (add_mset (MarkingFailed jobID) A) E" jobID A now] by auto

lemma release_then_failed_run:
  "entry_step\<^sup>*\<^sup>* (world_of ph (add_mset (ReleasingDisk w d (Some jobID)) A) E)
     (world_of ph A \<lparr>en_workers = ReleaseReservation w d now (en_workers E),
        en_manager = markJobFailed jobID now (en_manager E)\<rparr>)"
proof -
  have "entry_step (world_of ph (add_mset (ReleasingDisk w d (Some jobID)) A) E)
      (world_of ph (add_mset (MarkingFailed jobID) A) (E\<lparr>en_workers := ReleaseReservation w d now (en_workers E)\<rparr>))"
    using entry_step.release_disk [of "world_of ph (add_mset (ReleasingDisk w d (Some jobID)) A) E" w d "Some jobID" A now]
    by (simp add: then_activity_def)
  from converse_rtranclp_into_rtranclp [OF this mark_failed_run [of ph jobID A _ now]]
  show ?thesis by (simp add: entry_eta [of _ _ E])
qed

text \<open>From the choice of the worker on.\<close>

lemma commit_then_run:
  assumes post: "post_is_run post" and fresh: "jm_tasks (en_manager E) taskID = None"
  shows "\<exists>ph'. entry_step\<^sup>*\<^sup>* (world_of ph (add_mset (CommittingAssembly jobID s w taskID) A) (E\<lparr>en_workers := r\<rparr>))
    (world_of ph' A (snd
      (case assemble_commit jobID (new_assemble_task taskID jobID w (required_disk s) now) now (en_manager E) of
         (False, m) \<Rightarrow>
           (Some ErrTaskInvalidState,
            \<lparr>en_workers = ReleaseReservation (w_ID w) (required_disk s) now r, en_manager = m\<rparr>)
       | (True, m) \<Rightarrow>
           (case post (w_Address w) (assemble_request jobID taskID s) \<lparr>en_workers = r, en_manager = m\<rparr> of
              (reply, E') \<Rightarrow> assemble_replied jobID taskID (w_ID w) (required_disk s) reply later E'))))"
    (is "\<exists>ph'. entry_step\<^sup>*\<^sup>* ?C (world_of ph' A ?fin)")
proof (cases "assemble_commit jobID (new_assemble_task taskID jobID w (required_disk s) now) now (en_manager E)")
  case c: (Pair ok m)
  let ?d = "required_disk s"
  have oldC: "wd_active ?C = add_mset (CommittingAssembly jobID s w taskID) A" by simp
  show ?thesis
  proof (cases ok)
    case False
    have "entry_step ?C (world_of ph (add_mset (ReleasingDisk (w_ID w) ?d None) A)
        (E\<lparr>en_workers := r, en_manager := m\<rparr>))"
      using entry_step.commit_refused [OF oldC, of now m] c False by simp
    from converse_rtranclp_into_rtranclp [OF this release_disk_run [of ph _ _ A _ now]] c False
    show ?thesis by (intro exI [of _ ph]) (simp add: entry_eta' [of _ _ E])
  next
    case True
    let ?E = "\<lparr>en_workers = r, en_manager = m\<rparr>"
    let ?P = "\<lambda>ph E. world_of ph (add_mset (PostingAssembly jobID taskID (w_ID w) ?d) A) E"
    obtain reply E' where po: "post (w_Address w) (assemble_request jobID taskID s) ?E = (reply, E')"
      by (metis prod.exhaust)
    have commit: "entry_step ?C (?P ph ?E)"
      using entry_step.commit [OF oldC, of now m] c True fresh by (simp add: entry_eta [of _ _ E])
    from post po obtain ph1 where p: "entry_step\<^sup>*\<^sup>* (?P ph ?E) (?P ph1 E')" and br: "bind_reply reply"
      unfolding post_is_run_def by (metis fst_conv snd_conv)
    from replied_run [OF br, of ph1 jobID taskID "w_ID w" ?d A E' later] obtain ph2 where
      "entry_step\<^sup>*\<^sup>* (?P ph1 E') (world_of ph2 A (snd (assemble_replied jobID taskID (w_ID w) ?d reply later E')))"
      by blast
    with commit p have "entry_step\<^sup>*\<^sup>* ?C
        (world_of ph2 A (snd (assemble_replied jobID taskID (w_ID w) ?d reply later E')))"
      by (meson converse_rtranclp_into_rtranclp rtranclp_trans)
    with c True po show ?thesis by (intro exI [of _ ph2]) simp
  qed
qed

lemma startAssembleGIF_run:
  assumes post: "post_is_run post"
    and fresh: "\<forall>taskID. nextID ''task_'' (ev_draw (env 0)) = Inr taskID \<longrightarrow> jm_tasks (en_manager E) taskID = None"
  shows "\<exists>ph'. entry_step\<^sup>*\<^sup>* (world_of ph (add_mset (StartingAssembly jobID) A) E)
    (world_of ph' A (snd (startAssembleGIF post jobID env E)))"
proof (cases "assemble_snapshot jobID (en_manager E)")
  case (Inl e)
  then show ?thesis
    using entry_step.snapshot_refused [of "world_of ph (add_mset (StartingAssembly jobID) A) E" jobID A e]
    by (intro exI [of _ ph]) (auto simp: startAssembleGIF_def)
next
  case (Inr s)
  let ?d = "required_disk s" and ?now = "ev_now (env 0)"
  let ?P = "world_of ph (add_mset (PickingAssembler jobID s) A) E"
  have snap: "entry_step (world_of ph (add_mset (StartingAssembly jobID) A) E) ?P"
    using entry_step.snapshot [of "world_of ph (add_mset (StartingAssembly jobID) A) E" jobID A s] Inr by simp
  have "\<exists>ph'. entry_step\<^sup>*\<^sup>* ?P (world_of ph' A (snd (startAssembleGIF post jobID env E)))"
  proof (cases "PickWorkerForDiskReservation TaskTypeAssembleGIF ?d (ev_ord (env 0)) ?now (en_workers E)")
    case (Pair res r)
    have old: "wd_active ?P = add_mset (PickingAssembler jobID s) A" by simp
    show ?thesis
    proof (cases res)
      case None
      have "entry_step ?P (world_of ph (add_mset (MarkingFailed jobID) A) (E\<lparr>en_workers := r\<rparr>))"
        using entry_step.pick_none [OF old, of "ev_ord (env 0)" ?now r] Pair None by simp
      from converse_rtranclp_into_rtranclp [OF this mark_failed_run [of ph jobID A _ ?now]] Inr Pair None
      show ?thesis by (intro exI [of _ ph]) (simp add: startAssembleGIF_def Let_def entry_eta [of _ _ E])
    next
      case (Some w)
      note pk = Pair [unfolded Some]
      show ?thesis
      proof (cases "nextID ''task_'' (ev_draw (env 0))")
        case (Inl e)
        have "entry_step ?P (world_of ph (add_mset (ReleasingDisk (w_ID w) ?d (Some jobID)) A) (E\<lparr>en_workers := r\<rparr>))"
          using entry_step.pick_no_draw [OF old, of "env 0" w r e] pk Inl by simp
        from converse_rtranclp_into_rtranclp [OF this release_then_failed_run [of ph _ _ jobID A _ ?now]]
          \<open>assemble_snapshot _ _ = Inr s\<close> pk Inl
        show ?thesis by (intro exI [of _ ph]) (simp add: startAssembleGIF_def Let_def)
      next
        case id: (Inr taskID)
        let ?C = "world_of ph (add_mset (CommittingAssembly jobID s w taskID) A) (E\<lparr>en_workers := r\<rparr>)"
        have pick: "entry_step ?P ?C"
          using entry_step.pick [OF old, of "env 0" w r taskID] pk id by simp
        have "jm_tasks (en_manager E) taskID = None" using fresh id by simp
        from commit_then_run [OF post this, where ph = ph and jobID = jobID and s = s and w = w and A = A
            and r = r and now = ?now and later = "ev_now (env 1)"] obtain ph' where
          "entry_step\<^sup>*\<^sup>* ?C (world_of ph' A (snd (startAssembleGIF post jobID env E)))"
          using \<open>assemble_snapshot _ _ = Inr s\<close> pk id by (auto simp: startAssembleGIF_def Let_def)
        with pick show ?thesis by (intro exI [of _ ph']) (rule converse_rtranclp_into_rtranclp)
      qed
    qed
  qed
  then obtain ph' where "entry_step\<^sup>*\<^sup>* ?P (world_of ph' A (snd (startAssembleGIF post jobID env E)))" ..
  with snap show ?thesis by (intro exI [of _ ph']) (rule converse_rtranclp_into_rtranclp)
qed

text \<open>
  C10. \<open>CompleteSegmentTask\<close>, with the assembly it may start and whatever Entry serves during the
  POST, is a run of the interleaving system, provided the identifier it draws is unused.
\<close>

theorem CompleteSegmentTask_is_run:
  assumes "bind_TaskCompletedRequest req" and "post_is_run post"
    and "\<forall>taskID. nextID ''task_'' (ev_draw (env 1)) = Inr taskID \<longrightarrow> jm_tasks (en_manager E) taskID = None"
  shows "\<exists>ph'. entry_step\<^sup>*\<^sup>* (world_of ph A E) (world_of ph' A (snd (CompleteSegmentTask post k req env E)))"
proof (cases "complete_segment_locked k req (ev_now (env 0)) (en_manager E)")
  case (Pair res m)
  show ?thesis
  proof (cases res)
    case (Inl e)
    with Pair have "m = en_manager E"
      by (auto simp: complete_segment_locked_def Let_def split: sum.splits if_splits)
    with Pair Inl show ?thesis by (intro exI [of _ ph]) (simp add: CompleteSegmentTask_def)
  next
    case (Inr rep)
    note P = Pair [unfolded Inr]
    let ?nxt = "if sg_allCompleted rep then Some (sg_jobID rep) else None"
    let ?E = "\<lparr>en_workers = ReleaseReservations [sg_workerID rep] (ev_now (env 0)) (en_workers E), en_manager = m\<rparr>"
    let ?R = "world_of ph (add_mset (ReleasingSlots [sg_workerID rep] ?nxt) A) (E\<lparr>en_manager := m\<rparr>)"
    have rep: "entry_step (world_of ph A E) ?R"
      using entry_step.complete_segment [OF assms(1), of k "ev_now (env 0)" "world_of ph A E" rep m] P by simp
    have rel: "entry_step ?R (world_of ph (then_activity StartingAssembly ?nxt A) ?E)"
      using entry_step.release_slots [of ?R "[sg_workerID rep]" ?nxt A "ev_now (env 0)"]
      by (simp add: entry_eta' [of _ _ E])
    from rep rel have to: "entry_step\<^sup>*\<^sup>* (world_of ph A E) (world_of ph (then_activity StartingAssembly ?nxt A) ?E)"
      by auto
    show ?thesis
    proof (cases "sg_allCompleted rep")
      case False
      with to P show ?thesis by (intro exI [of _ ph]) (simp add: CompleteSegmentTask_def then_activity_def)
    next
      case True
      have "jm_tasks m taskID = None" if "jm_tasks (en_manager E) taskID = None" for taskID
        using complete_segment_write [OF P] that by (auto simp: task_write_def)
      with assms(3) have "\<forall>taskID. nextID ''task_'' (ev_draw ((\<lambda>n. env (Suc n)) 0)) = Inr taskID \<longrightarrow>
          jm_tasks (en_manager ?E) taskID = None" by simp
      from startAssembleGIF_run [where env = "\<lambda>n. env (Suc n)" and E = ?E and ph = ph and jobID = "sg_jobID rep"
          and A = A, OF assms(2) this] obtain ph' where
        "entry_step\<^sup>*\<^sup>* (world_of ph (add_mset (StartingAssembly (sg_jobID rep)) A) ?E)
          (world_of ph' A (snd (startAssembleGIF post (sg_jobID rep) (\<lambda>n. env (Suc n)) ?E)))" by blast
      with to True have "entry_step\<^sup>*\<^sup>* (world_of ph A E)
          (world_of ph' A (snd (startAssembleGIF post (sg_jobID rep) (\<lambda>n. env (Suc n)) ?E)))"
        by (simp add: then_activity_def)
      with True P show ?thesis by (intro exI [of _ ph']) (simp add: CompleteSegmentTask_def Let_def)
    qed
  qed
qed

end
