(* ===== verification/Entry_Properties.thy ===== *)
theory Entry_Properties
  imports Entry_Safety
begin

text \<open>
  What holds of Entry under every interleaving of its requests: the ledger of slots and disk
  balances up to the phantom releases, nothing leaks, jobs follow the pipeline, an ended task
  never changes.
\<close>

subsection \<open>Reachable worlds\<close>

lemma world_ok_new: "world_ok NewWorld"
proof -
  have "reg_ok NewWorkerRegistry"
    using wf_NewWorkerRegistry by (simp add: reg_ok_def NewWorkerRegistry_def)
  moreover have "counter R NewWorkerRegistry k = 0" for R k
    by (rule counter_unknown) (simp add: NewWorkerRegistry_def)
  moreover have "msum f (jm_tasks NewJobManager) = 0" for f
    by (simp add: NewJobManager_def)
  moreover have "tasks_ok D NewJobManager" for D
    by (simp add: tasks_ok_def NewJobManager_def)
  ultimately show ?thesis
    by (simp add: world_ok_def NewWorld_def wf_NewJobManager held_def phantom_def balanced_def)
qed

interpretation entry: transition_system NewWorld bounded_step world_ok
  by unfold_locales (auto intro: world_ok_new bounded_step_ok)

definition reachable_world :: "World \<Rightarrow> bool" where
  "reachable_world W \<longleftrightarrow> reachable_from NewWorld bounded_step W"

lemma reachable_world_ok: "reachable_world W \<Longrightarrow> world_ok W"
  unfolding reachable_world_def by (rule entry.reachable_inv)

lemma reachable_world_new: "reachable_world NewWorld"
  unfolding reachable_world_def by (rule reach_init)

lemma reachable_world_step: "reachable_world W \<Longrightarrow> bounded_step W W' \<Longrightarrow> reachable_world W'"
  unfolding reachable_world_def by (rule reach_step)

subsection \<open>A run\<close>

text \<open>A worker registers, then asks for a job with one segment it processes itself.\<close>

definition run_worker :: "int \<Rightarrow> int \<Rightarrow> Worker" where
  "run_worker reserved updated =
     \<lparr>w_ID = ''wrk_01'', w_Address = ''h:1'', w_TotalSlots = 2,
      w_SupportedTasks = [TaskTypeProcessSegment, TaskTypeAssembleGIF],
      w_ReportedTotalSlots = 2, w_DiskTotalBytes = 1000, w_DiskFreeBytes = 800,
      w_FreeSlots = 2 - reserved, w_Online = True,
      w_RunningProcessSegment = 0, w_RunningAssembleGIF = 0, w_RunningTasks = [], w_Metrics = [],
      w_ReservedSlots = reserved, w_ReservedDiskBytes = 0,
      w_RegisteredAt = 10, w_LastHeartbeatAt = 10, w_UpdatedAt = updated\<rparr>"

definition run_registry :: "Worker \<Rightarrow> WorkerRegistry" where
  "run_registry w =
     \<lparr>wr_byID = [''wrk_01'' \<mapsto> w], wr_idByAddr = [''h:1'' \<mapsto> ''wrk_01''],
      wr_addrByID = [''wrk_01'' \<mapsto> ''h:1''], wr_backpressure = wr_backpressure NewWorkerRegistry\<rparr>"

definition run_request :: CreateJobRequest where
  "run_request =
     \<lparr>cjr_WorkerID = ''wrk_01'', cjr_VideoName = ''v'', cjr_SegmentCount = 1, cjr_TotalSizeBytes = 9,
      cjr_Mode = JobModeInternal, cjr_Tasks = []\<rparr>"

abbreviation run_plan :: "CreateJobTaskRequest list" where
  "run_plan \<equiv> [\<lparr>cjt_SegmentIndex = 0, cjt_Mode = TaskProcessingModeInternal\<rparr>]"

definition run_batch :: TaskBatch where
  "run_batch = batch_add zero_TaskBatch ''task_03'' ''job_02'' (hd run_plan) (run_worker 1 30) 20"

definition run_job :: Job where
  "run_job = job_of_request run_request (run_worker 0 10) ''job_02'' 20 run_plan run_batch"

definition run_task :: Task where
  "run_task = new_segment_task ''task_03'' ''job_02'' (hd run_plan) (run_worker 1 30) 20"

definition run_registered :: World where
  "run_registered = NewWorld\<lparr>wd_registry := run_registry (run_worker 0 10)\<rparr>"

definition run_creating :: World where
  "run_creating = run_registered
     \<lparr>wd_active := {#CreatingJob run_request (run_worker 0 10) ''job_02'' 20 run_plan run_plan zero_TaskBatch#}\<rparr>"

definition run_assigned :: World where
  "run_assigned = run_creating
     \<lparr>wd_registry := run_registry (run_worker 1 30),
      wd_active := {#CreatingJob run_request (run_worker 0 10) ''job_02'' 20 [] run_plan run_batch#}\<rparr>"

definition run_created :: World where
  "run_created = run_assigned
     \<lparr>wd_manager := \<lparr>jm_jobs = [''job_02'' \<mapsto> run_job], jm_tasks = [''task_03'' \<mapsto> run_task],
                    jm_jobIDByIdentity = [j_IdentityKey run_job \<mapsto> ''job_02'']\<rparr>,
      wd_active := {#}\<rparr>"

lemmas run_defs = run_worker_def run_registry_def run_request_def run_batch_def run_task_def
  NewWorkerRegistry_def NewJobManager_def NewWorld_def batch_add_def zero_TaskBatch_def
  new_segment_task_def new_assignment_def

lemmas run_worlds = run_registered_def run_creating_def run_assigned_def run_created_def

lemma run_within:
  "within run_registered" "within run_creating" "within run_assigned" "within run_created"
  by (simp_all add: within_def held_def run_worlds run_defs msum_def task_hold_def active_def slot_limit_def)

lemma run_steps:
  "entry_step NewWorld run_registered" (is ?register)
  "entry_step run_registered run_creating" (is ?opened)
  "entry_step run_creating run_assigned" (is ?assign)
  "entry_step run_assigned run_created" (is ?commit)
proof -
  let ?req = "\<lparr>rwr_Address = ''h:1'', rwr_TotalSlots = 2,
    rwr_SupportedTasks = [TaskTypeProcessSegment, TaskTypeAssembleGIF],
    rwr_DiskTotalBytes = 1000, rwr_DiskFreeBytes = 800\<rparr>"
  have "bind_RegisterWorkerRequest ?req" by (simp add: bind_RegisterWorkerRequest_def in64_def)
  moreover have "RegisterWorker ?req 10 [Some [1]] (wd_registry NewWorld)
      = Some (Inr (run_worker 0 10, False), run_registry (run_worker 0 10))"
  proof -
    have "validateRegisterWorkerRequest ?req = None" by code_simp
    moreover have "''wrk_'' @ EncodeToString [1] = ''wrk_01''" by code_simp
    ultimately show ?thesis by (simp add: RegisterWorker_def run_defs Let_def)
  qed
  ultimately show ?register unfolding run_registered_def by (rule entry_step.register)
  have "createJobTaskPlan run_request = Inr run_plan"
    by (simp add: createJobTaskPlan_def run_request_def numeral_1_eq_Suc_0)
  moreover have "GetWorker (cjr_WorkerID run_request) (wd_registry run_registered) = Some (run_worker 0 10)"
    by (simp add: GetWorker_def run_request_def run_registered_def run_registry_def)
  moreover have "nextID ''job_'' (Some [2]) = Inr ''job_02''" by code_simp
  ultimately have "entry_step run_registered (run_registered
      \<lparr>wd_active := add_mset (CreatingJob run_request (run_worker 0 10) ''job_02'' 20 run_plan run_plan zero_TaskBatch)
        (wd_active run_registered)\<rparr>)"
    by (rule entry_step.create_begin)
  then show ?opened by (simp add: run_worlds NewWorld_def)
  have "wd_active run_creating
      = add_mset (CreatingJob run_request (run_worker 0 10) ''job_02'' 20 (hd run_plan # []) run_plan zero_TaskBatch) {#}"
    by (simp add: run_creating_def)
  moreover have "assignSegmentWorker (w_ID (run_worker 0 10)) \<lparr>ev_ord = [], ev_now = 30, ev_draw = Some [3]\<rparr>
      (cjt_Mode (hd run_plan)) (wd_registry run_creating) = (Some (run_worker 1 30), run_registry (run_worker 1 30))"
    by (simp add: assignSegmentWorker_def ReserveWorkerSlots_def run_worlds run_defs Let_def reserve_slots_def
        calculateFreeSlots_def set_worker_def add64_eq sub64_eq in64_def)
  moreover have "nextID ''task_'' (ev_draw \<lparr>ev_ord = [], ev_now = 30, ev_draw = Some [3]\<rparr>) = Inr ''task_03''"
    by code_simp
  ultimately have "entry_step run_creating (run_creating\<lparr>wd_registry := run_registry (run_worker 1 30),
      wd_active := add_mset (CreatingJob run_request (run_worker 0 10) ''job_02'' 20 [] run_plan
        (batch_add zero_TaskBatch ''task_03'' ''job_02'' (hd run_plan) (run_worker 1 30) 20)) {#}\<rparr>)"
    by (rule entry_step.create_assign)
  then show ?assign by (simp add: run_assigned_def run_batch_def)
  have "wd_active run_assigned = add_mset (CreatingJob run_request (run_worker 0 10) ''job_02'' 20 [] run_plan run_batch) {#}"
    by (simp add: run_assigned_def)
  moreover have "fresh_batch run_job (tb_tasks run_batch) (wd_manager run_assigned)"
    by (simp add: fresh_batch_def run_worlds run_defs)
  moreover have "commit_job (j_IdentityKey run_job) run_job (tb_tasks run_batch) (wd_manager run_assigned)
      = (None, wd_manager run_created)"
    by (simp add: commit_job_def run_worlds run_defs) (simp add: run_job_def job_of_request_def new_job_def)
  ultimately have "entry_step run_assigned (run_assigned\<lparr>wd_manager := wd_manager run_created, wd_active := {#}\<rparr>)"
    using run_job_def by (intro entry_step.create_commit) auto
  then show ?commit by (simp add: run_created_def)
qed

lemma run_reachable: "reachable_world run_created"
proof -
  have "reachable_world run_registered"
    using reachable_world_new run_steps(1) run_within(1) reachable_world_step by (simp add: bounded_step_def)
  then have "reachable_world run_creating"
    using run_steps(2) run_within(2) reachable_world_step by (simp add: bounded_step_def)
  then have "reachable_world run_assigned"
    using run_steps(3) run_within(3) reachable_world_step by (simp add: bounded_step_def)
  then show ?thesis
    using run_steps(4) run_within(4) reachable_world_step by (simp add: bounded_step_def)
qed

text \<open>The worker reports the segment failed, and Entry releases its slot.\<close>

definition run_failed :: World where
  "run_failed = run_created
     \<lparr>wd_manager := snd (fail_segment_locked ''task_03''
        \<lparr>tfr_WorkerID = ''wrk_01'', tfr_Reason = ''x'', tfr_Retryable = False\<rparr> 40 (wd_manager run_created)),
      wd_active := {#ReleasingSlots [''wrk_01''] None#}\<rparr>"

definition run_released :: World where
  "run_released = run_failed
     \<lparr>wd_registry := ReleaseReservations [''wrk_01''] 50 (wd_registry run_failed), wd_active := {#}\<rparr>"

lemma run_failed_manager:
  "wd_manager run_failed = (wd_manager run_created)
     \<lparr>jm_jobs := [''job_02'' \<mapsto> run_job\<lparr>j_Status := JobStatusFailed, j_UpdatedAt := 40\<rparr>],
      jm_tasks := [''task_03'' \<mapsto> run_task\<lparr>t_Status := TaskStatusFailed, t_FailureReason := ''x'',
        t_Retryable := False, t_FailedAt := Some 40, t_UpdatedAt := 40\<rparr>]\<rparr>"
  by (simp add: run_failed_def run_created_def fail_segment_locked_def segmentTaskAndJobLocked_def set_job_def
      set_task_def run_defs fun_upd_def cong: if_cong)

lemma run_fail_steps: "entry_step run_created run_failed" "entry_step run_failed run_released"
proof -
  have "fail_segment_locked ''task_03'' \<lparr>tfr_WorkerID = ''wrk_01'', tfr_Reason = ''x'', tfr_Retryable = False\<rparr> 40
      (wd_manager run_created)
    = (Inr \<lparr>sg_workerID = ''wrk_01'', sg_jobID = ''job_02'', sg_allCompleted = False\<rparr>, wd_manager run_failed)"
    by (simp add: run_failed_def fail_segment_locked_def segmentTaskAndJobLocked_def run_created_def run_defs
        run_job_def job_of_request_def new_job_def)
  from entry_step.fail_segment [OF this] show "entry_step run_created run_failed"
    by (simp add: run_failed_def run_created_def)
  have "wd_active run_failed = add_mset (ReleasingSlots [''wrk_01''] None) {#}" by (simp add: run_failed_def)
  from entry_step.release_slots [OF this, of 50] show "entry_step run_failed run_released"
    by (simp add: run_released_def then_activity_def)
qed

lemma run_fail_within: "within run_failed" "within run_released"
proof -
  have "msum f (jm_tasks (wd_manager run_failed)) = f (run_task\<lparr>t_Status := TaskStatusFailed, t_FailureReason := ''x'',
        t_Retryable := False, t_FailedAt := Some 40, t_UpdatedAt := 40\<rparr>)" for f
    by (simp add: run_failed_manager msum_def)
  then show "within run_failed" "within run_released"
    by (simp_all add: within_def held_def run_released_def task_hold_def active_def slot_limit_def)
      (simp_all add: run_failed_def)
qed

lemma run_failed_reachable: "reachable_world run_failed" "bounded_step\<^sup>*\<^sup>* run_failed run_released"
  using run_reachable run_fail_steps run_fail_within reachable_world_step
  by (auto simp: bounded_step_def)

subsection \<open>The ledger\<close>

text \<open>
  C1. In every reachable state of Entry, for slots and for disk alike, a worker's counter is never
  negative and never more than what is held on it by its unfinished tasks and by the requests
  between a reservation and its release; it is less only by the releases for assemblies that had
  already ended (the phantoms), so it is exact on a worker without such releases.
\<close>

theorem ledger_balanced:
  assumes "reachable_world W"
  shows "0 \<le> counter R (wd_registry W) k
    \<and> counter R (wd_registry W) k \<le> held R k W
    \<and> held R k W - phantom R k W \<le> counter R (wd_registry W) k
    \<and> 0 \<le> phantom R k W"
  using world_okD(5) [OF reachable_world_ok [OF assms], of R k]
    counter_nonneg [OF world_okD(1) [OF reachable_world_ok [OF assms]], of R k]
  by (simp add: balanced_def)

theorem ledger_balanced_witness:
  "counter Slots (wd_registry run_created) ''wrk_01'' = held Slots ''wrk_01'' run_created
   \<and> held Slots ''wrk_01'' run_created = 1"
proof -
  have "held Slots ''wrk_01'' run_created = 1"
    by (simp add: held_def run_worlds run_defs msum_def task_hold_def active_def)
  moreover have "phantom Slots ''wrk_01'' run_created = 0" by (simp add: phantom_def run_worlds NewWorld_def)
  ultimately show ?thesis
    using ledger_balanced [OF run_reachable, of Slots "''wrk_01''"] by simp
qed

text \<open>
  C2. Nothing leaks: whenever no request is under way and no task is assigned or running, every
  worker's reserved slots and reserved disk are zero, however the requests interleaved, failed or
  reported late.
\<close>

theorem no_leak:
  assumes "reachable_world W" and "wd_active W = {#}"
    and "\<forall>t\<in>ran (jm_tasks (wd_manager W)). \<not> active t"
  shows "slots_of (wd_registry W) k = 0 \<and> disk_of (wd_registry W) k = 0"
proof -
  have "msum (task_hold R k) (jm_tasks (wd_manager W)) = msum (\<lambda>_. 0) (jm_tasks (wd_manager W))" for R
    using assms(3) by (intro msum_cong_None) (auto simp: task_hold_def ran_def)
  then have "held R k W = 0" for R
    using assms(2) by (simp add: held_def msum_def)
  note h = this
  have "counter R (wd_registry W) k = 0" for R
    using world_okD(5) [OF reachable_world_ok [OF assms(1)], of R k] h [of R]
      counter_nonneg [OF world_okD(1) [OF reachable_world_ok [OF assms(1)]], of R k]
    by (simp add: balanced_def)
  from this [of Slots] this [of Disk] show ?thesis by (simp add: counter_def)
qed

theorem no_leak_witness:
  "slots_of (wd_registry run_created) ''wrk_01'' = 1
   \<and> slots_of (wd_registry run_released) ''wrk_01'' = 0 \<and> disk_of (wd_registry run_released) ''wrk_01'' = 0"
proof -
  have "reachable_world run_released"
    using run_failed_reachable(1) run_fail_steps(2) run_fail_within(2) reachable_world_step by (simp add: bounded_step_def)
  moreover have "slots_of (wd_registry run_created) ''wrk_01'' = 1"
    by (simp add: slots_of_def run_worlds run_defs)
  moreover have "\<forall>t\<in>ran (jm_tasks (wd_manager run_released)). \<not> active t"
    by (simp add: run_released_def run_failed_manager active_def)
  ultimately show ?thesis using no_leak [of run_released] by (simp add: run_released_def)
qed

subsection \<open>Ended tasks\<close>

lemma task_write_ended:
  assumes "task_write m k t t' m'" and "active t" and "jm_tasks m i = Some u" and "\<not> active u"
  shows "jm_tasks m' i = Some u"
  using assms by (auto simp: task_write_def)

lemma assemble_started_ended:
  assumes "jm_tasks m i = Some u" and "\<not> active u"
  shows "jm_tasks (assemble_started jobID k now m) i = Some u"
proof -
  have "jm_tasks (assemble_started jobID k now m) = (case jm_tasks m k of None \<Rightarrow> jm_tasks m
      | Some t \<Rightarrow> if t_Status t = TaskStatusAssigned
          then (jm_tasks m)(k \<mapsto> t\<lparr>t_Status := TaskStatusRunning, t_UpdatedAt := now, t_AcceptedAt := Some now\<rparr>)
          else jm_tasks m)"
    by (simp add: assemble_started_def Let_def set_job_def set_task_def split: option.splits)
  with assms show ?thesis by (cases "k = i") (auto simp: active_def split: option.splits)
qed

lemma assemble_start_failed_ended:
  assumes "jm_tasks m i = Some u" and "\<not> active u"
  shows "jm_tasks (assemble_start_failed_locked jobID k reason retryable now m) i = Some u"
proof -
  have "jm_tasks (assemble_start_failed_locked jobID k reason retryable now m) = (case jm_tasks m k of None \<Rightarrow> jm_tasks m
      | Some t \<Rightarrow> if t_Status t \<noteq> TaskStatusCompleted \<and> t_Status t \<noteq> TaskStatusFailed
          then (jm_tasks m)(k \<mapsto> t\<lparr>t_Status := TaskStatusFailed, t_FailureReason := reason,
            t_Retryable := retryable, t_FailedAt := Some now, t_UpdatedAt := now\<rparr>)
          else jm_tasks m)"
    by (simp add: assemble_start_failed_locked_def Let_def set_job_def set_task_def split: option.splits)
  moreover have "(t_Status u \<noteq> TaskStatusCompleted \<and> t_Status u \<noteq> TaskStatusFailed) = False"
    using assms(2) by (cases "t_Status u") (simp_all add: active_def)
  ultimately show ?thesis using assms(1)
    by (cases "k = i"; cases "jm_tasks m k") simp_all
qed

lemma ended_task_step:
  assumes "entry_step W W'" and "jm_tasks (wd_manager W) i = Some u" and "\<not> active u"
  shows "jm_tasks (wd_manager W') i = Some u"
  using assms
proof (induction rule: entry_step.cases)
  case (create_commit W1 req sw jobID now plan b A job m')
  from create_commit(1,5,7) have "i \<notin> t_ID ` set (tb_tasks b)" by (auto simp: fresh_batch_def)
  with create_commit commit_job_None [OF create_commit(6)] show ?case by (simp add: add_tasks_other)
next
  case (create_exists W1 req sw jobID now plan b A job existing m')
  with commit_job_Some [OF create_exists(5)] show ?case by simp
next
  case (accept k areq now W1 res m')
  then show ?case using AcceptSegmentTask_write [OF accept(3)] task_write_ended by auto
next
  case (complete_segment creq k now W1 rep m')
  then show ?case using complete_segment_write [OF complete_segment(4)] task_write_ended by auto
next
  case (fail_segment k freq now W1 rep m')
  then show ?case using fail_segment_write [OF fail_segment(3)] task_write_ended by auto
next
  case (commit W1 jobID s w taskID A now m')
  then show ?case using assemble_commit_tasks [OF commit(5)] by (auto simp: new_assemble_task_def)
next
  case (commit_refused W1 jobID s w taskID A now m')
  then show ?case using assemble_commit_False [OF commit_refused(4)] by simp
next
  case (started W1 jobID taskID workerID d A reply now)
  then show ?case by (simp add: assemble_started_ended)
next
  case (start_failed W1 jobID taskID workerID d A reply over now reason)
  then show ?case by (simp add: assemble_start_failed_ended)
next
  case (assembled jreq W1 w jobID now rep m')
  then show ?case using complete_assemble_write [OF assembled(4)] task_write_ended by auto
next
  case (assembly_failed jobID jreq now W1 rep m')
  then show ?case using fail_assemble_write [OF assembly_failed(3)] task_write_ended by auto
qed simp_all

text \<open>
  C7. A task that has ended is final: once it is completed or failed, no step of Entry changes
  anything in it, so a late or repeated report never overwrites an earlier one.
\<close>

theorem ended_tasks_final:
  assumes "entry_step\<^sup>*\<^sup>* W W'" and "jm_tasks (wd_manager W) i = Some u"
    and "t_Status u \<in> {TaskStatusCompleted, TaskStatusFailed}"
  shows "jm_tasks (wd_manager W') i = Some u"
proof -
  have "\<not> active u" using assms(3) by (auto simp: active_def)
  with assms(1,2) show ?thesis
    by (induction rule: rtranclp.induct) (auto intro: ended_task_step)
qed

theorem ended_tasks_final_witness:
  "jm_tasks (wd_manager run_released) ''task_03''
     = Some (run_task\<lparr>t_Status := TaskStatusFailed, t_FailureReason := ''x'', t_Retryable := False,
              t_FailedAt := Some 40, t_UpdatedAt := 40\<rparr>)"
  by (rule ended_tasks_final [OF r_into_rtranclp [of entry_step, OF run_fail_steps(2)]])
    (simp_all add: run_failed_manager)

subsection \<open>The pipeline of a job\<close>

definition is_assembly :: "(string \<rightharpoonup> Task) \<Rightarrow> string \<Rightarrow> bool" where
  "is_assembly tasks k \<longleftrightarrow> (case tasks k of None \<Rightarrow> False | Some t \<Rightarrow> t_Type t = TaskTypeAssembleGIF)"

definition is_done :: "(string \<rightharpoonup> Task) \<Rightarrow> string \<Rightarrow> bool" where
  "is_done tasks k \<longleftrightarrow> (case tasks k of None \<Rightarrow> False | Some t \<Rightarrow> t_Status t = TaskStatusCompleted)"

lemma seg_tasks_not_assembly: "seg_tasks ts i ids \<Longrightarrow> filter (is_assembly ts) ids = []"
  by (auto simp: seg_tasks_def is_assembly_def filter_empty_conv)

lemma all_done_iff: "all_done ts ids \<longleftrightarrow> (\<forall>k\<in>set ids. is_done ts k)"
  by (auto simp: all_done_def is_done_def split: option.splits)

lemma job_ok_pipeline:
  assumes "job_ok ts j"
  shows "length (filter (is_assembly ts) (j_TaskIDs j)) \<le> 1"
    and "j_Status j \<in> {JobStatusAssembleAssigned, JobStatusAssembleRunning, JobStatusCompleted} \<Longrightarrow>
      length (filter (is_assembly ts) (j_TaskIDs j)) = 1
      \<and> (\<forall>k\<in>set (j_TaskIDs j). \<not> is_assembly ts k \<longrightarrow> is_done ts k)"
    and "j_Status j = JobStatusCompleted \<Longrightarrow> \<forall>k\<in>set (j_TaskIDs j). is_done ts k"
    and "\<forall>k\<in>set (j_TaskIDs j). is_done ts k \<Longrightarrow>
      j_Status j \<notin> {JobStatusSegmentAssigned, JobStatusSegmentRunning}"
proof -
  consider (c) "collecting ts j" | (a) segs x t where "j_TaskIDs j = segs @ [x]" "seg_tasks ts (j_ID j) segs"
      "all_done ts segs" "ts x = Some t" "t_Type t = TaskTypeAssembleGIF"
      "j_Status j \<in> {JobStatusAssembleAssigned, JobStatusAssembleRunning, JobStatusCompleted, JobStatusFailed}"
      "j_Status j = JobStatusCompleted \<longrightarrow> t_Status t = TaskStatusCompleted"
    using assms unfolding job_ok_def assembling_def by blast
  note cases = this
  show "length (filter (is_assembly ts) (j_TaskIDs j)) \<le> 1"
    by (cases rule: cases) (auto simp: collecting_def seg_tasks_not_assembly)
  show "length (filter (is_assembly ts) (j_TaskIDs j)) = 1
      \<and> (\<forall>k\<in>set (j_TaskIDs j). \<not> is_assembly ts k \<longrightarrow> is_done ts k)"
    if "j_Status j \<in> {JobStatusAssembleAssigned, JobStatusAssembleRunning, JobStatusCompleted}"
    using that by (cases rule: cases) (auto simp: collecting_def seg_tasks_not_assembly all_done_iff is_assembly_def)
  show "\<forall>k\<in>set (j_TaskIDs j). is_done ts k" if "j_Status j = JobStatusCompleted"
    using that by (cases rule: cases) (auto simp: collecting_def all_done_iff is_done_def)
  show "j_Status j \<notin> {JobStatusSegmentAssigned, JobStatusSegmentRunning}"
    if "\<forall>k\<in>set (j_TaskIDs j). is_done ts k"
    using that by (cases rule: cases) (auto simp: collecting_def all_done_iff)
qed

text \<open>
  C5. The pipeline of a job, in every reachable state: at most one of its tasks is an assembly; an
  assembly is under way or the job completed only when all its segments are done; a completed job
  has only completed tasks; and a job whose tasks are all done is no longer waiting for segments.
\<close>

theorem job_pipeline:
  assumes "reachable_world W" and "jm_jobs (wd_manager W) i = Some j"
  shows "length (filter (is_assembly (jm_tasks (wd_manager W))) (j_TaskIDs j)) \<le> 1
    \<and> (j_Status j \<in> {JobStatusAssembleAssigned, JobStatusAssembleRunning, JobStatusCompleted} \<longrightarrow>
        length (filter (is_assembly (jm_tasks (wd_manager W))) (j_TaskIDs j)) = 1
        \<and> (\<forall>k\<in>set (j_TaskIDs j). \<not> is_assembly (jm_tasks (wd_manager W)) k \<longrightarrow> is_done (jm_tasks (wd_manager W)) k))
    \<and> (j_Status j = JobStatusCompleted \<longrightarrow> (\<forall>k\<in>set (j_TaskIDs j). is_done (jm_tasks (wd_manager W)) k))
    \<and> ((\<forall>k\<in>set (j_TaskIDs j). is_done (jm_tasks (wd_manager W)) k) \<longrightarrow>
        j_Status j \<notin> {JobStatusSegmentAssigned, JobStatusSegmentRunning})"
  using job_ok_pipeline [OF wf_managerD(5) [OF world_okD(2) [OF reachable_world_ok [OF assms(1)]] assms(2)]]
  by blast

lemma run_created_job: "jm_jobs (wd_manager run_created) ''job_02'' = Some run_job"
  by (simp add: run_created_def)

lemma run_job_simps: "j_TaskIDs run_job = [''task_03'']" "j_Status run_job = JobStatusSegmentAssigned"
    "j_IdentityKey run_job = jobIdentityKey ''h:1'' ''v''" "j_ID run_job = ''job_02''"
  by (simp_all add: run_job_def job_of_request_def new_job_def run_defs)

theorem job_pipeline_witness:
  "\<not> (\<forall>k\<in>set (j_TaskIDs run_job). is_done (jm_tasks (wd_manager run_created)) k)"
  using job_pipeline [OF run_reachable run_created_job] by (simp add: run_job_simps)

text \<open>
  C8. A job with a failed segment never gets to its assembly: from any reachable state in which a
  segment task has failed, whatever happens next, its job is neither ready for the assembly, nor
  assembling, nor completed. (\<open>AcceptSegmentTask\<close> of another segment may still show it as running.)
\<close>

theorem failed_segment_never_completes:
  assumes "reachable_world W" and "bounded_step\<^sup>*\<^sup>* W W'"
    and "jm_tasks (wd_manager W) k = Some t" and "t_Type t = TaskTypeProcessSegment"
    and "t_Status t = TaskStatusFailed" and "jm_jobs (wd_manager W') (t_JobID t) = Some j"
  shows "j_Status j \<in> {JobStatusSegmentAssigned, JobStatusSegmentRunning, JobStatusFailed}"
proof -
  have steps: "entry_step\<^sup>*\<^sup>* W W'"
    using assms(2) by (rule rtranclp_mono [THEN predicate2D, rotated]) (auto simp: bounded_step_def)
  from steps assms(3) have t: "jm_tasks (wd_manager W') k = Some t"
  proof (induction rule: rtranclp.induct)
    case (rtrancl_into_rtrancl a b c)
    have "\<not> active t" using assms(5) by (simp add: active_def)
    with rtrancl_into_rtrancl show ?case by (auto intro: ended_task_step)
  qed simp
  have "world_ok W'"
    using entry.path_inv [OF assms(2) reachable_world_ok [OF assms(1)]] .
  note D = wf_managerD [OF world_okD(2) [OF this]]
  from D(8) [OF t] assms(6) have mem: "k \<in> set (j_TaskIDs j)" by auto
  from D(5) [OF assms(6)] mem t assms(4,5) have "collecting (jm_tasks (wd_manager W')) j"
    by (auto dest: job_ok_seg_task)
  moreover have "\<not> all_done (jm_tasks (wd_manager W')) (j_TaskIDs j)"
    using mem t assms(5) by (auto simp: all_done_def intro!: bexI [of _ k])
  ultimately show ?thesis by (rule collecting_status)
qed

theorem failed_segment_never_completes_witness:
  "\<exists>j. jm_jobs (wd_manager run_released) ''job_02'' = Some j
     \<and> j_Status j \<in> {JobStatusSegmentAssigned, JobStatusSegmentRunning, JobStatusFailed}"
proof -
  let ?t = "run_task\<lparr>t_Status := TaskStatusFailed, t_FailureReason := ''x'', t_Retryable := False,
      t_FailedAt := Some 40, t_UpdatedAt := 40\<rparr>"
  have t: "jm_tasks (wd_manager run_failed) ''task_03'' = Some ?t" "t_Type ?t = TaskTypeProcessSegment"
    "t_Status ?t = TaskStatusFailed" "t_JobID ?t = ''job_02''"
    by (simp_all add: run_failed_manager) (simp_all add: run_defs)
  have "jm_jobs (wd_manager run_released) ''job_02'' = Some (run_job\<lparr>j_Status := JobStatusFailed, j_UpdatedAt := 40\<rparr>)"
    by (simp add: run_released_def run_failed_manager)
  with failed_segment_never_completes [OF run_failed_reachable t(1-3), unfolded t(4)] show ?thesis by blast
qed

end
