(* ===== verification/Job_Create_Spec.thy ===== *)
theory Job_Create_Spec
  imports Job_Create Job_Invariant
begin

text \<open>
  What \<open>CreateJob\<close> promises: the plan it makes from a request, all or nothing on jobs and slots,
  one job per source address and video, and the disk estimate the assembly reserves.
\<close>

subsection \<open>The plan and the identity\<close>

text \<open>
  The plan of a request is its task list, if every mode is known; without one it is
  \<open>SegmentCount\<close> tasks numbered from 0 in the request's mode. It is never empty, every mode in
  it is internal or external, and any other request is refused as an invalid state.
\<close>

theorem createJobTaskPlan_correct:
  "createJobTaskPlan req =
     (if cjr_Tasks req \<noteq> [] \<and> (\<forall>t\<in>set (cjr_Tasks req). cjt_Mode t \<in> {JobModeInternal, JobModeExternal})
      then Inr (cjr_Tasks req)
      else if cjr_Tasks req = [] \<and> 0 < cjr_SegmentCount req \<and> cjr_Mode req \<in> {JobModeInternal, JobModeExternal}
      then Inr (map (\<lambda>i. \<lparr>cjt_SegmentIndex = int i, cjt_Mode = cjr_Mode req\<rparr>) [0..<nat (cjr_SegmentCount req)])
      else Inl ErrTaskInvalidState)"
  by (auto simp: createJobTaskPlan_def plan_modes_known_iff plan_loop_nth)

theorem createJobTaskPlan_correct_witness:
  "createJobTaskPlan \<lparr>cjr_WorkerID = ''wrk_01'', cjr_VideoName = ''v'', cjr_SegmentCount = 2,
       cjr_TotalSizeBytes = 100, cjr_Mode = JobModeExternal, cjr_Tasks = []\<rparr>
     = Inr [\<lparr>cjt_SegmentIndex = 0, cjt_Mode = JobModeExternal\<rparr>, \<lparr>cjt_SegmentIndex = 1, cjt_Mode = JobModeExternal\<rparr>]"
  by (simp add: createJobTaskPlan_correct numeral_2_eq_2)

lemma append_NUL_inj:
  "c \<notin> set a \<Longrightarrow> c \<notin> set b \<Longrightarrow> a @ c # v = b @ c # u \<Longrightarrow> a = b \<and> v = u"
proof (induction a arbitrary: b)
  case Nil
  then show ?case by (cases b) auto
next
  case (Cons x a)
  then show ?case by (cases b) auto
qed

text \<open>
  The identity key separates jobs: for addresses without a NUL character, two keys are equal
  only if both the address and the video name are.
\<close>

theorem jobIdentityKey_injective:
  assumes "CHR 0x00 \<notin> set a" and "CHR 0x00 \<notin> set b"
  shows "jobIdentityKey a v = jobIdentityKey b u \<longleftrightarrow> a = b \<and> v = u"
  using append_NUL_inj [OF assms] by (auto simp: jobIdentityKey_def)

theorem jobIdentityKey_injective_witness:
  "jobIdentityKey ''h:1'' ''v'' \<noteq> jobIdentityKey ''h:1v'' ''''"
  using jobIdentityKey_injective [of "''h:1''" "''h:1v''" "''v''" "''''"] by simp

subsection \<open>All or nothing\<close>

text \<open>The new state of a created job: the plan's tasks, one reservation per task.\<close>

definition job_created ::
  "CreateJobRequest \<Rightarrow> CreateJobTaskRequest list \<Rightarrow> Worker \<Rightarrow> CreateJobResult \<Rightarrow> Entry \<Rightarrow> Entry \<Rightarrow> bool" where
  "job_created req plan sw res E E' \<longleftrightarrow>
     (\<exists>ts now. list_all2 (task_for (cr_JobID res) now) plan ts
        \<and> cr_Assignments res = map assignment_for ts
        \<and> cr_RequiredSlots res = int (length plan) \<and> cr_AvailableSlots res = int (length plan)
        \<and> cr_JobStatus res = JobStatusSegmentAssigned
        \<and> (\<forall>t\<in>set ts. \<exists>w. wr_byID (en_workers E') (t_AssignedWorkerID t) = Some w
             \<and> t_AssignedWorkerAddress t = w_Address w
             \<and> (t_ProcessingMode t = TaskProcessingModeInternal \<longrightarrow> t_AssignedWorkerID t = w_ID sw))
        \<and> (\<forall>k. slots_of (en_workers E') k
              = slots_of (en_workers E) k + int (count_list (map t_AssignedWorkerID ts) k))
        \<and> jm_jobs (en_manager E') = (jm_jobs (en_manager E))(cr_JobID res \<mapsto>
             new_job (cr_JobID res) req sw (jobIdentityKey (w_Address sw) (cjr_VideoName req)) plan ts now)
        \<and> jm_jobIDByIdentity (en_manager E') = (jm_jobIDByIdentity (en_manager E))
             (jobIdentityKey (w_Address sw) (cjr_VideoName req) \<mapsto> cr_JobID res)
        \<and> jm_tasks (en_manager E') = add_tasks ts (jm_tasks (en_manager E)))"

lemma createJobWithTaskPlan_cases:
  assumes L: "ledger_registry (en_workers E)"
    and lim: "\<forall>k. slots_of (en_workers E) k + int (length plan) < slot_limit"
    and R: "createJobWithTaskPlan req sw (jobIdentityKey (w_Address sw) (cjr_VideoName req)) plan env E = ((res, err), E')"
  shows "(err = None \<and> \<not> cr_AlreadyExists res \<and> job_created req plan sw res E E')
    \<or> ((err \<noteq> None \<or> cr_AlreadyExists res) \<and> en_manager E' = en_manager E
       \<and> (\<forall>k. slots_of (en_workers E') k = slots_of (en_workers E) k))"
proof (cases "nextID ''job_'' (ev_draw (env 0))")
  case (Inl e)
  with R show ?thesis by (auto simp: createJobWithTaskPlan_def)
next
  case (Inr jobID)
  let ?now = "ev_now (env 0)" and ?key = "jobIdentityKey (w_Address sw) (cjr_VideoName req)"
  obtain out r where C: "create_tasks (assignSegmentWorker (w_ID sw)) ReleaseReservations jobID ?now
      (int (length plan)) (\<lambda>n. env (Suc n)) plan zero_TaskBatch (en_workers E) = (out, r)"
    by (metis prod.exhaust)
  have wf: "wf_registry (en_workers E)" and nn: "\<forall>k. 0 \<le> slots_of (en_workers E) k"
    using L by (simp_all add: ledger_registry_def)
  have base: "\<forall>k. slots_of (en_workers E) k = slots_of (en_workers E) k + int (count_list (tb_reserved zero_TaskBatch) k)"
    by (simp add: zero_TaskBatch_def)
  note loads = slots.create_tasks_loads [OF L base nn lim, of "w_ID sw" jobID ?now "int (length plan)" "\<lambda>n. env (Suc n)",
      unfolded C]
  show ?thesis
  proof (cases out)
    case (Inl f)
    with R Inr C loads show ?thesis
      by (cases f) (auto simp: createJobWithTaskPlan_def Let_def)
  next
    case b: (Inr b)
    note C = C [unfolded b]
    obtain ts where ts: "tb_tasks b = ts" "tb_reserved b = map t_AssignedWorkerID ts"
      "tb_assignments b = map assignment_for ts" "list_all2 (task_for jobID ?now) plan ts"
      using create_tasks_batch [OF C] by (auto simp: zero_TaskBatch_def)
    have ws: "\<forall>t\<in>set ts. \<exists>w. wr_byID r (t_AssignedWorkerID t) = Some w
        \<and> t_AssignedWorkerAddress t = w_Address w
        \<and> (t_ProcessingMode t = TaskProcessingModeInternal \<longrightarrow> t_AssignedWorkerID t = w_ID sw)"
      using create_tasks_workers [OF C wf] ts(1) by (simp add: zero_TaskBatch_def)
    from loads b have L': "ledger_registry r"
      and ld: "\<forall>k. slots_of r k = slots_of (en_workers E) k + int (count_list (tb_reserved b) k)" by simp_all
    let ?job = "new_job jobID req sw ?key plan ts ?now"
    have len: "length ts = length plan" using ts(4) by (simp add: list_all2_lengthD)
    show ?thesis
    proof (cases "jm_jobIDByIdentity (en_manager E) ?key")
      case None
      with R Inr C b ts have
        E': "E' = \<lparr>en_workers = r, en_manager = snd (commit_job ?key ?job ts (en_manager E))\<rparr>"
        and res: "res = created ?job (int (length plan)) b" and err: "err = None"
        by (auto simp: createJobWithTaskPlan_def Let_def commit_job_def new_job_def)
      have "job_created req plan sw res E E'"
        unfolding job_created_def
        by (intro exI [of _ ts] exI [of _ ?now])
          (use None ts ws ld len in \<open>simp add: E' res created_def commit_job_def new_job_def\<close>)
      with err res show ?thesis by (simp add: created_def)
    next
      case (Some other)
      let ?rel = "ReleaseReservations (tb_reserved b) (ev_now (env (Suc (length plan)))) r"
      from R Inr C b ts Some have
        E': "E' = \<lparr>en_workers = ?rel, en_manager = en_manager E\<rparr>"
        and "err \<noteq> None \<or> cr_AlreadyExists res"
        by (auto simp: createJobWithTaskPlan_def Let_def commit_job_def already_exists_def split: option.splits)
      moreover have "slots_of ?rel k = slots_of (en_workers E) k" for k
        by (rule slots.release_own [OF L' ld nn])
      ultimately show ?thesis by simp
    qed
  qed
qed

text \<open>
  C6. \<open>CreateJob\<close> is all or nothing. Either it returns a new job: then the job, its identity and
  one task per entry of the plan are stored, every task's worker is registered (the source worker
  for an internal segment), the caller gets one assignment per task (without an address for an
  internal one), and each worker's reservations grew by the number of its tasks. Or, on an error
  and when the job exists, jobs and tasks are unchanged and so are all reservations: those made
  before the failure are given back. (The bound keeps the counters from wrapping.)
\<close>

theorem CreateJob_all_or_nothing:
  assumes "ledger_registry (en_workers E)"
    and "\<forall>plan k. createJobTaskPlan req = Inr plan \<longrightarrow>
      slots_of (en_workers E) k + int (length plan) < slot_limit"
  shows "case CreateJob req env E of ((res, err), E') \<Rightarrow>
    if err = None \<and> \<not> cr_AlreadyExists res
    then \<exists>plan sw. createJobTaskPlan req = Inr plan
        \<and> wr_byID (en_workers E) (cjr_WorkerID req) = Some sw \<and> job_created req plan sw res E E'
    else en_manager E' = en_manager E \<and> (\<forall>k. slots_of (en_workers E') k = slots_of (en_workers E) k)"
proof (cases "createJobTaskPlan req")
  case (Inl e)
  then show ?thesis by (simp add: CreateJob_def)
next
  case (Inr plan)
  show ?thesis
  proof (cases "wr_byID (en_workers E) (cjr_WorkerID req)")
    case None
    with Inr show ?thesis by (simp add: CreateJob_def GetWorker_def)
  next
    case (Some sw)
    let ?key = "jobIdentityKey (w_Address sw) (cjr_VideoName req)"
    obtain res err E' where R: "createJobWithTaskPlan req sw ?key plan env E = ((res, err), E')"
      by (metis prod.exhaust)
    have lim: "\<forall>k. slots_of (en_workers E) k + int (length plan) < slot_limit"
      using assms(2) Inr by simp
    show ?thesis
    proof (cases "findJobByIdentity ?key (en_manager E)")
      case (Some existing)
      with Inr \<open>wr_byID _ _ = Some sw\<close> show ?thesis
        by (simp add: CreateJob_def GetWorker_def already_exists_def)
    next
      case None
      with Inr Some R have "CreateJob req env E = ((res, err), E')"
        by (simp add: CreateJob_def GetWorker_def)
      with createJobWithTaskPlan_cases [OF assms(1) lim R] Inr Some show ?thesis by auto
    qed
  qed
qed

text \<open>A request of worker \<open>a\<close> for two segments, and what the outside gives it.\<close>

definition ex_request :: "JobMode \<Rightarrow> CreateJobRequest" where
  "ex_request mode =
     \<lparr>cjr_WorkerID = ''a'', cjr_VideoName = ''v'', cjr_SegmentCount = 2, cjr_TotalSizeBytes = 9,
      cjr_Mode = mode, cjr_Tasks = []\<rparr>"

definition ex_env :: "(nat \<Rightarrow> draw) \<Rightarrow> nat \<Rightarrow> Env" where
  "ex_env d n = \<lparr>ev_ord = [''b'', ''a''], ev_now = 100, ev_draw = d n\<rparr>"

definition ex_entry :: Entry where
  "ex_entry = \<lparr>en_workers = ex_registry, en_manager = NewJobManager\<rparr>"

lemma ex_slots: "slots_of ex_registry k = (if k = ''a'' then 1 else 0)"
  by (simp add: slots_of_def ex_registry_byID ex_worker_def)

lemma ex_ledger: "ledger_registry (en_workers ex_entry)"
  by (simp add: ledger_registry_def ex_entry_def ex_registry_wf ex_slots)

theorem CreateJob_all_or_nothing_witness:
  "slots_of (en_workers (snd (CreateJob (ex_request JobModeInternal)
     (ex_env (\<lambda>n. if n = 2 then None else Some [of_nat n])) ex_entry))) ''a'' = 1"
proof -
  let ?env = "ex_env (\<lambda>n. if n = 2 then None else Some [of_nat n])"
  have lim: "\<forall>plan k. createJobTaskPlan (ex_request JobModeInternal) = Inr plan \<longrightarrow>
      slots_of (en_workers ex_entry) k + int (length plan) < slot_limit"
    by (simp add: createJobTaskPlan_def plan_loop_nth ex_request_def ex_entry_def ex_slots slot_limit_def)
  have "snd (fst (CreateJob (ex_request JobModeInternal) ?env ex_entry)) = Some ErrRand"
    by code_simp
  with CreateJob_all_or_nothing [OF ex_ledger lim, of ?env] show ?thesis
    by (simp split: prod.splits) (simp add: ex_entry_def ex_slots)
qed

subsection \<open>One job per identity\<close>

lemma createJobWithTaskPlan_stored:
  assumes "createJobWithTaskPlan req sw key plan env E = ((res, None), E')"
  shows "\<exists>job. findJobByIdentity key (en_manager E') = Some job
    \<and> cr_JobID res = j_ID job \<and> cr_JobStatus res = j_Status job"
  using assms
  by (auto simp: createJobWithTaskPlan_def Let_def commit_job_def findJobByIdentity_def created_def
      already_exists_def new_job_def split: sum.splits prod.splits option.splits)

text \<open>The addresses of the workers never change while a job is created.\<close>

definition addr_of :: "WorkerRegistry \<Rightarrow> string \<Rightarrow> string option" where
  "addr_of r k = map_option w_Address (wr_byID r k)"

lemma addr_of_reserve:
  "wr_byID r (w_ID w) = Some w \<Longrightarrow> addr_of (set_worker r (w_ID w) (reserve_slots n now w)) = addr_of r"
  by (auto simp: addr_of_def)

lemma addr_of_ReleaseReservations [simp]: "addr_of (ReleaseReservations ks now r) = addr_of r"
proof (induction ks now r rule: ReleaseReservations.induct)
  case (2 k ks now r)
  have "addr_of (with_worker k (release_worker now) r) = addr_of r"
    by (auto simp: addr_of_def with_worker_def split: option.splits)
  with 2 show ?case by simp
qed simp

lemma create_tasks_addr:
  assumes "wf_registry r"
  shows "addr_of (snd (create_tasks (assignSegmentWorker src) ReleaseReservations jobID now q env plan b r)) = addr_of r"
  using assms
proof (induction plan arbitrary: env b r)
  case Nil
  then show ?case by simp
next
  case (Cons t plan)
  obtain out r1 where A: "assignSegmentWorker src (env 0) (cjt_Mode t) r = (out, r1)"
    by (metis prod.exhaust)
  show ?case
  proof (cases out)
    case None
    with A assignSegmentWorker_cases [OF Cons.prems, where src = src and ev = "env 0" and mode = "cjt_Mode t"]
    show ?thesis by simp
  next
    case (Some w)
    from Cons.prems A [unfolded Some] obtain u where u: "wr_byID r (w_ID u) = Some u"
      "w = reserve_slots 1 (ev_now (env 0)) u" "r1 = set_worker r (w_ID u) w"
      by (rule assignSegmentWorker_Some)
    have "wf_registry r1" unfolding u(3,2) using Cons.prems u(1) by (rule wf_reserve_slots_of)
    moreover have "addr_of r1 = addr_of r" unfolding u(3,2) using u(1) by (rule addr_of_reserve)
    ultimately show ?thesis using A Some Cons.IH by (simp split: sum.splits)
  qed
qed

lemma CreateJob_addr:
  assumes "wf_registry (en_workers E)" and "CreateJob req env E = (out, E')"
  shows "addr_of (en_workers E') = addr_of (en_workers E)"
proof -
  have "addr_of (en_workers (snd (createJobWithTaskPlan req sw key plan env E))) = addr_of (en_workers E)"
    for sw key plan
  proof (cases "nextID ''job_'' (ev_draw (env 0))")
    case (Inl e)
    then show ?thesis by (simp add: createJobWithTaskPlan_def Let_def)
  next
    case (Inr jobID)
    obtain res r where C: "create_tasks (assignSegmentWorker (w_ID sw)) ReleaseReservations jobID (ev_now (env 0))
        (int (length plan)) (\<lambda>n. env (Suc n)) plan zero_TaskBatch (en_workers E) = (res, r)"
      by (metis prod.exhaust)
    have "addr_of r = addr_of (en_workers E)"
      using create_tasks_addr [OF assms(1), where src = "w_ID sw" and jobID = jobID
          and now = "ev_now (env 0)" and q = "int (length plan)" and env = "\<lambda>n. env (Suc n)"
          and plan = plan and b = zero_TaskBatch] C
      by simp
    with Inr C show ?thesis
      by (auto simp: createJobWithTaskPlan_def Let_def split: sum.splits prod.splits option.splits)
  qed
  then have "addr_of (en_workers (snd (CreateJob req env E))) = addr_of (en_workers E)"
    by (simp add: CreateJob_def Let_def split: sum.splits option.splits)
  with assms(2) show ?thesis by simp
qed

lemma CreateJob_address:
  assumes "wf_registry (en_workers E)" and "CreateJob req env E = (out, E')"
    and "wr_byID (en_workers E) k = Some w"
  shows "\<exists>w'. wr_byID (en_workers E') k = Some w' \<and> w_Address w' = w_Address w"
  using CreateJob_addr [OF assms(1,2), THEN fun_cong, of k] assms(3) by (auto simp: addr_of_def)

lemma CreateJob_found:
  assumes "CreateJob req env E = ((res, None), E')" and "wr_byID (en_workers E) (cjr_WorkerID req) = Some sw"
  shows "\<exists>job. findJobByIdentity (jobIdentityKey (w_Address sw) (cjr_VideoName req)) (en_manager E') = Some job
    \<and> cr_JobID res = j_ID job \<and> cr_JobStatus res = j_Status job"
proof -
  from assms obtain plan where plan: "createJobTaskPlan req = Inr plan"
    by (auto simp: CreateJob_def split: sum.splits)
  let ?key = "jobIdentityKey (w_Address sw) (cjr_VideoName req)"
  show ?thesis
  proof (cases "findJobByIdentity ?key (en_manager E)")
    case None
    with assms plan have "createJobWithTaskPlan req sw ?key plan env E = ((res, None), E')"
      by (simp add: CreateJob_def GetWorker_def)
    then show ?thesis by (rule createJobWithTaskPlan_stored)
  next
    case (Some job)
    with assms plan show ?thesis
      by (auto simp: CreateJob_def GetWorker_def already_exists_def)
  qed
qed

text \<open>
  \<open>CreateJob\<close> is idempotent per source address and video: once a request has been answered
  without an error, every further request of that worker for that video with a valid plan is
  answered with the same job identifier and status as an existing job, and changes nothing.
\<close>

theorem CreateJob_idempotent:
  assumes "wf_registry (en_workers E)" and "CreateJob req env E = ((res, None), E')"
    and "cjr_WorkerID req' = cjr_WorkerID req" and "cjr_VideoName req' = cjr_VideoName req"
    and "createJobTaskPlan req' = Inr plan'"
  shows "CreateJob req' env' E' =
    ((zero_CreateJobResult
        \<lparr>cr_JobID := cr_JobID res, cr_RequiredSlots := int (length plan'), cr_AlreadyExists := True,
         cr_JobStatus := cr_JobStatus res\<rparr>, None), E')"
proof -
  from assms(2) obtain sw where sw: "wr_byID (en_workers E) (cjr_WorkerID req) = Some sw"
    by (auto simp: CreateJob_def GetWorker_def split: sum.splits option.splits)
  note CreateJob_found [OF assms(2) sw]
  moreover obtain sw' where "wr_byID (en_workers E') (cjr_WorkerID req) = Some sw'" "w_Address sw' = w_Address sw"
    using CreateJob_address [OF assms(1,2) sw] by blast
  ultimately show ?thesis
    using assms(3-5) by (auto simp: CreateJob_def GetWorker_def already_exists_def)
qed

theorem CreateJob_idempotent_witness:
  "fst (CreateJob (ex_request JobModeExternal) (ex_env (\<lambda>n. None))
     (snd (CreateJob (ex_request JobModeInternal) (ex_env (\<lambda>n. Some [of_nat n])) ex_entry)))
   = (zero_CreateJobResult
        \<lparr>cr_JobID := ''job_00'', cr_RequiredSlots := 2, cr_AlreadyExists := True,
         cr_JobStatus := JobStatusSegmentAssigned\<rparr>, None)"
proof -
  let ?run = "CreateJob (ex_request JobModeInternal) (ex_env (\<lambda>n. Some [of_nat n])) ex_entry"
  have "cr_JobID (fst (fst ?run)) = ''job_00'' \<and> cr_JobStatus (fst (fst ?run)) = JobStatusSegmentAssigned
      \<and> snd (fst ?run) = None"
    by code_simp
  moreover have "wf_registry (en_workers ex_entry)"
    using ex_ledger by (simp add: ledger_registry_def)
  moreover obtain res err E' where "?run = ((res, err), E')" by (metis prod.exhaust)
  ultimately show ?thesis
    using CreateJob_idempotent [of ex_entry "ex_request JobModeInternal" "ex_env (\<lambda>n. Some [of_nat n])"
        res E' "ex_request JobModeExternal" "plan_loop 2 0 JobModeExternal" "ex_env (\<lambda>n. None)"]
    by (simp add: ex_request_def createJobTaskPlan_def plan_loop_nth)
qed

subsection \<open>The disk estimate\<close>

definition estimate_base :: "int \<Rightarrow> int \<Rightarrow> bool \<Rightarrow> int" where
  "estimate_base size_bytes out known = max 1 (if known \<and> 0 < out then out * 2 else size_bytes)"

lemma estimateAssembleDiskBytes_small:
  assumes "in64 out" and "estimate_base size_bytes out known \<le> (2 ^ 63 - 1) div 12"
  shows "estimateAssembleDiskBytes size_bytes out known = estimate_base size_bytes out known * 12 div 10"
proof -
  let ?b = "estimate_base size_bytes out known"
  have b: "1 \<le> ?b" by (simp add: estimate_base_def)
  have "(let base = (if known \<and> 0 < out then mul64 out 2 else size_bytes) in if base < 1 then 1 else base) = ?b"
  proof (cases "known \<and> 0 < out")
    case True
    with assms(2) have "in64 (out * 2)" by (auto simp: estimate_base_def in64_def)
    with True show ?thesis by (simp add: estimate_base_def mul64_eq Let_def max_def)
  qed (auto simp: estimate_base_def)
  moreover have "mul64 ?b 12 = ?b * 12" using assms(2) b by (intro mul64_eq) (simp add: in64_def)
  moreover have "quot64 (?b * 12) 10 = ?b * 12 div 10"
  proof -
    have "0 \<le> ?b * 12 div 10" and "?b * 12 div 10 \<le> ?b * 12" using b by linarith+
    then have "in64 (?b * 12 div 10)" using assms(2) by (simp add: in64_def)
    moreover have "?b * 12 sdiv 10 = ?b * 12 div 10" using b by (simp add: signed_divide_int_def)
    ultimately show ?thesis by (simp only: quot64_def wrap64_id)
  qed
  ultimately show ?thesis by (simp add: estimateAssembleDiskBytes_def Let_def)
qed

text \<open>
  Without overflow the disk estimate is 1.2 times its base, rounded down, and never below the
  base or below 1; the base is twice the segments' output when every output size is known and
  positive in total, and the video's size otherwise.
\<close>

theorem estimateAssembleDiskBytes_exact:
  assumes "in64 out" and "estimate_base size_bytes out known \<le> (2 ^ 63 - 1) div 12"
  shows "estimateAssembleDiskBytes size_bytes out known = estimate_base size_bytes out known * 12 div 10
    \<and> estimate_base size_bytes out known \<le> estimateAssembleDiskBytes size_bytes out known
    \<and> 1 \<le> estimateAssembleDiskBytes size_bytes out known"
proof -
  have "1 \<le> estimate_base size_bytes out known" by (simp add: estimate_base_def)
  then have "estimate_base size_bytes out known \<le> estimate_base size_bytes out known * 12 div 10" by linarith
  with \<open>1 \<le> _\<close> show ?thesis unfolding estimateAssembleDiskBytes_small [OF assms] by linarith
qed

theorem estimateAssembleDiskBytes_exact_witness:
  "estimateAssembleDiskBytes 1000 2500 True = 6000"
  using estimateAssembleDiskBytes_exact [of 2500 1000 True] by (simp add: in64_def estimate_base_def)

text \<open>
  The estimate of a large base overflows: from one byte above the bound of the exact range to
  twice that bound it is not positive, so a client that declares such a size (the binding tag
  accepts any positive one) makes Entry reserve a negative amount of disk.
\<close>

theorem estimateAssembleDiskBytes_overflows:
  assumes "(2 ^ 63 - 1) div 12 < size_bytes" and "size_bytes \<le> 2 * ((2 ^ 63 - 1) div 12)"
  shows "estimateAssembleDiskBytes size_bytes 0 known \<le> 0"
proof -
  have "mul64 size_bytes 12 = size_bytes * 12 - 2 ^ 64"
  proof -
    have "wrap64 (size_bytes * 12) = wrap64 (size_bytes * 12 - 2 ^ 64)" by (rule wrap64_cong) simp
    also have "\<dots> = size_bytes * 12 - 2 ^ 64" using assms by (intro wrap64_id) (simp add: in64_def)
    finally show ?thesis by (simp add: mul64_def)
  qed
  with assms have m: "in64 (mul64 size_bytes 12)" "mul64 size_bytes 12 \<le> 0" by (simp_all add: in64_def)
  have "sgn (mul64 size_bytes 12) * (\<bar>mul64 size_bytes 12\<bar> div 10) \<le> 0"
    using m(2) by (auto simp: sgn_if)
  moreover have "in64 (sgn (mul64 size_bytes 12) * (\<bar>mul64 size_bytes 12\<bar> div 10))"
    using m by (auto simp: in64_def sgn_if)
  ultimately show ?thesis
    using assms(1) by (simp add: estimateAssembleDiskBytes_def quot64_def signed_divide_int_def wrap64_id)
qed

theorem estimateAssembleDiskBytes_overflows_witness:
  "estimateAssembleDiskBytes 1000000000000000000 0 False \<le> 0"
  using estimateAssembleDiskBytes_overflows [of 1000000000000000000 False] by simp

subsection \<open>Querying a job\<close>

text \<open>
  A query by address and video finds exactly the job indexed under that identity. The reply
  carries a result if and only if the job is completed, a failure if and only if it failed, and
  never both.
\<close>

theorem GetJobResultByIdentity_correct:
  "GetJobResultByIdentity address videoName m =
     (case findJobByIdentity (jobIdentityKey address videoName) m of
        None \<Rightarrow> (query_not_found, False)
      | Some job \<Rightarrow> (query_of_job job, True))
   \<and> (\<forall>job. (qjr_Result (query_of_job job) \<noteq> None) = (j_Status job = JobStatusCompleted)
        \<and> (qjr_Failure (query_of_job job) \<noteq> None) = (j_Status job = JobStatusFailed)
        \<and> (qjr_Result (query_of_job job) = None \<or> qjr_Failure (query_of_job job) = None))"
  by (auto simp: GetJobResultByIdentity_def findJobByIdentity_def query_of_job_def split: option.splits)

end
