(* ===== verification/Job_Race.thy ===== *)
theory Job_Race
  imports Entry_Refinement Entry_Properties Job_Create_Spec
begin

text \<open>
  The failure path of \<open>startAssembleGIF\<close>: a POST that fails on Entry's side although the worker
  took the request. The worker's report and the failure path then both end the assembly.
\<close>

subsection \<open>Two jobs on one worker\<close>

definition race_registry :: WorkerRegistry where
  "race_registry =
     \<lparr>wr_byID = [''a'' \<mapsto> ex_worker ''a'' 4 0 50], wr_idByAddr = [''a:1'' \<mapsto> ''a''],
      wr_addrByID = [''a'' \<mapsto> ''a:1''], wr_backpressure = zero_BackpressureStatus\<rparr>"

definition race_request :: "string \<Rightarrow> CreateJobRequest" where
  "race_request video =
     \<lparr>cjr_WorkerID = ''a'', cjr_VideoName = video, cjr_SegmentCount = 1, cjr_TotalSizeBytes = 9,
      cjr_Mode = JobModeInternal, cjr_Tasks = []\<rparr>"

definition race_env :: "nat \<Rightarrow> nat \<Rightarrow> Env" where
  "race_env base n = \<lparr>ev_ord = [''a''], ev_now = 100, ev_draw = Some [of_nat (base + n)]\<rparr>"

definition race_done :: TaskCompletedRequest where
  "race_done = \<lparr>tcr_WorkerID = ''a'', tcr_Checksum = [], tcr_FrameCount = 1, tcr_DurationMS = 1,
    tcr_OutputSizeBytes = 0\<rparr>"

definition race_report :: JobAssembledRequest where
  "race_report = \<lparr>jar_WorkerID = ''a'', jar_Status = JobResultStatusSuccess, jar_ResultName = [],
    jar_Checksum = [], jar_DurationMS = 1, jar_OutputSizeBytes = 5, jar_Reason = [], jar_Retryable = False\<rparr>"

definition race_start :: Entry where
  "race_start =
     snd (CreateJob (race_request ''w'') (race_env 2)
       (snd (CreateJob (race_request ''v'') (race_env 0)
         \<lparr>en_workers = race_registry, en_manager = NewJobManager\<rparr>)))"

text \<open>The worker reports the assembly while Entry's POST is still open; the POST then times out.\<close>

definition race_post :: assemble_post where
  "race_post addr req E = (HttpErr ''timeout'', snd (AssembleJob (sar_JobID req) race_report 110 E))"

definition race_end :: Entry where
  "race_end = snd (CompleteSegmentTask race_post ''task_01'' race_done (race_env 4) race_start)"

text \<open>The race: the first job is \<open>failed\<close> although its assembly completed and its source worker
  was told so, and the slot of the second job's running segment has been given away.\<close>

lemma double_release_race:
  "map_option t_Status (jm_tasks (en_manager race_end) ''task_05'') = Some TaskStatusCompleted
   \<and> map_option (\<lambda>j. (j_Status j, j_ResultURI j)) (jm_jobs (en_manager race_end) ''job_00'')
       = Some (JobStatusFailed, ''http://a:1/results/job_00.gif'')
   \<and> map_option t_Status (jm_tasks (en_manager race_end) ''task_03'') = Some TaskStatusAssigned
   \<and> slots_of (en_workers race_start) ''a'' = 2 \<and> slots_of (en_workers race_end) ''a'' = 0"
  by code_simp

text \<open>
  C29. A reply to the assembly POST that is not a success fails the job and releases the worker once
  more, whatever has happened to the job and to its assembly task meanwhile: also when the assembly
  was already reported and released, and the job completed.
\<close>

theorem late_failure_is_unconditional:
  assumes "reg_ok (en_workers E)" and "\<not> reply_started reply" and "bind_reply reply"
    and "0 \<le> d" and "in64 d" and "jm_jobs (en_manager E) jobID = Some job"
  shows "case assemble_replied jobID taskID w d reply now E of (err, E') \<Rightarrow>
    err \<noteq> None \<and> map_option j_Status (jm_jobs (en_manager E') jobID) = Some JobStatusFailed
    \<and> slots_of (en_workers E') w = max 0 (slots_of (en_workers E) w - 1)
    \<and> disk_of (en_workers E') w = max 0 (disk_of (en_workers E) w - d)"
proof -
  have status: "map_option j_Status (jm_jobs (assemble_start_failed_locked jobID taskID reason b now m) jobID)
      = Some JobStatusFailed" if "jm_jobs m jobID = Some job" for reason b m
    using that by (simp add: assemble_start_failed_locked_def Let_def set_job_def set_task_def split: option.splits)
  let ?r = "observe_disk w reply now (en_workers E)"
  have o: "ledger_effect (\<lambda>R k. counter R (en_workers E) k) (en_workers E) ?r"
    by (rule effect_observe_disk [OF assms(1,3)])
  then have "reg_ok ?r" by (simp add: ledger_effect_def)
  from effect_ReleaseReservation [OF this assms(4,5), of w now] o
  have c: "counter R (ReleaseReservation w d now ?r) w = max 0 (counter R (en_workers E) w - amount R 1 d)" for R
    by (simp add: ledger_effect_def)
  from c [of Slots] c [of Disk] have
    "slots_of (ReleaseReservation w d now ?r) w = max 0 (slots_of (en_workers E) w - 1)"
    "disk_of (ReleaseReservation w d now ?r) w = max 0 (disk_of (en_workers E) w - d)"
    by (simp_all add: counter_def)
  with assms(2,6) status show ?thesis
    by (auto simp: assemble_replied_def reply_started_def observe_disk_def markAssembleStartFailed_def Let_def
        split: sum.splits)
qed

theorem late_failure_is_unconditional_witness:
  "slots_of (en_workers (snd (assemble_replied ''job_02'' ''task_03'' ''wrk_01'' 0 (HttpErr ''timeout'') 60
     \<lparr>en_workers = wd_registry run_created, en_manager = wd_manager run_created\<rparr>))) ''wrk_01'' = 0"
proof -
  let ?E = "\<lparr>en_workers = wd_registry run_created, en_manager = wd_manager run_created\<rparr>"
  have "reg_ok (en_workers ?E)" using world_okD(1) [OF reachable_world_ok [OF run_reachable]] by simp
  moreover have "\<not> reply_started (HttpErr ''timeout'')" "bind_reply (HttpErr ''timeout'')"
    by (simp_all add: reply_started_def notifyAssembleWorker_def bind_reply_def)
  moreover have "slots_of (en_workers ?E) ''wrk_01'' = 1"
    by (simp add: slots_of_def run_worlds run_defs)
  ultimately show ?thesis
    using late_failure_is_unconditional [of ?E "HttpErr ''timeout''" 0 "''job_02''" run_job "''wrk_01''" "''task_03''" 60]
      run_created_job
    by (simp add: in64_def split: prod.splits)
qed

subsection \<open>Runs of the sequential operations\<close>

abbreviation race_new :: Entry where
  "race_new \<equiv> \<lparr>en_workers = race_registry, en_manager = NewJobManager\<rparr>"

abbreviation no_phantoms :: "(string \<Rightarrow> int) \<times> (string \<Rightarrow> int)" where
  "no_phantoms \<equiv> (\<lambda>_. 0, \<lambda>_. 0)"

theorem CreateJob_is_run_witness:
  "entry_step\<^sup>*\<^sup>* (world_of no_phantoms {#} race_new)
     (world_of no_phantoms {#} (snd (CreateJob (race_request ''v'') (race_env 0) race_new)))"
proof -
  let ?X = "CreateJob (race_request ''v'') (race_env 0) race_new"
  have "distinct (map ta_TaskID (cr_Assignments (fst (fst ?X))))" by code_simp
  then show ?thesis
    by (intro CreateJob_is_run [of _ _ _ "fst (fst ?X)" "snd (fst ?X)"]) (simp_all add: NewJobManager_def)
qed

theorem CompleteSegmentTask_is_run_witness:
  "\<exists>ph'. entry_step\<^sup>*\<^sup>* (world_of no_phantoms {#} race_start)
     (world_of ph' {#} (snd (CompleteSegmentTask (\<lambda>addr req E. (HttpErr ''down'', E)) ''task_01'' race_done
       (race_env 4) race_start)))"
proof (rule CompleteSegmentTask_is_run)
  show "bind_TaskCompletedRequest race_done"
    by (simp add: bind_TaskCompletedRequest_def race_done_def in64_def)
  show "post_is_run (\<lambda>addr req E. (HttpErr ''down'', E))"
    by (auto simp: post_is_run_def bind_reply_def)
  have "nextID ''task_'' (ev_draw (race_env 4 1)) = Inr ''task_05''" by code_simp
  moreover have "Option.is_none (jm_tasks (en_manager race_start) ''task_05'')" by code_simp
  ultimately show "\<forall>taskID. nextID ''task_'' (ev_draw (race_env 4 1)) = Inr taskID \<longrightarrow>
      jm_tasks (en_manager race_start) taskID = None"
    by (simp add: is_none_code Option.is_none_def)
qed

end
