(* ===== verification/Entry_Handlers.thy ===== *)
theory Entry_Handlers
  imports Job_Assembly
begin

text \<open>
  \<open>entry-server/internal/handlers\<close>: what Entry answers over HTTP. \<open>ShouldBindJSON\<close> gives a
  handler the decoded body if it decodes and satisfies its binding tags (\<open>None\<close> is a body that
  does not decode). A reply is its status code and its body; \<open>None\<close> stands for a handler that
  panicked (the framework's recovery answers those). Every handler is written with the service
  call it makes, on the state that call works on; log lines are left out.
\<close>

type_synonym 'a reply = "(int \<times> 'a) option"

definition ShouldBindJSON :: "('a \<Rightarrow> bool) \<Rightarrow> 'a option \<Rightarrow> 'a option" where
  "ShouldBindJSON binds body = (case body of None \<Rightarrow> None | Some r \<Rightarrow> if binds r then Some r else None)"

subsection \<open>Workers\<close>

definition failed_registration :: RegisterWorkerResponse where
  "failed_registration =
     \<lparr>rwp_Status = RegisterWorkerStatusFailed, rwp_WorkerID = [], rwp_SplitPolicy = zero_SplitPolicy\<rparr>"

definition Register ::
  "SplitPolicy \<Rightarrow> RegisterWorkerRequest option \<Rightarrow> int \<Rightarrow> draw list \<Rightarrow> WorkerRegistry
     \<Rightarrow> (RegisterWorkerResponse reply \<times> WorkerRegistry) option" where
  "Register splitPolicy body now draws r =
     (case ShouldBindJSON bind_RegisterWorkerRequest body of
        None \<Rightarrow> Some (Some (StatusBadRequest, failed_registration), r)
      | Some req \<Rightarrow>
          (case RegisterWorker req now draws r of
             None \<Rightarrow> None
           | Some (Inl PanicNil, r') \<Rightarrow> Some (None, r')
           | Some (Inl err, r') \<Rightarrow> Some (Some (StatusBadRequest, failed_registration), r')
           | Some (Inr (worker, existed), r') \<Rightarrow>
               Some (Some (StatusOK,
                 \<lparr>rwp_Status = (if existed then RegisterWorkerStatusExists else RegisterWorkerStatusSuccess),
                  rwp_WorkerID = w_ID worker, rwp_SplitPolicy = splitPolicy\<rparr>), r')))"

definition Heartbeat ::
  "HeartbeatWorkerRequest option \<Rightarrow> int \<Rightarrow> WorkerRegistry \<Rightarrow> HeartbeatWorkerResponse reply \<times> WorkerRegistry"
where
  "Heartbeat body now r =
     (case ShouldBindJSON bind_HeartbeatWorkerRequest body of
        None \<Rightarrow>
          (Some (StatusBadRequest,
             \<lparr>hwp_Status = HeartbeatWorkerStatusFailed, hwp_GlobalBackpressure = zero_BackpressureStatus\<rparr>), r)
      | Some req \<Rightarrow>
          (case HeartbeatWorker req now r of
             (Some err, r') \<Rightarrow>
               (if err = ErrWorkerNotFound
                then (Some (StatusNotFound,
                        \<lparr>hwp_Status = HeartbeatWorkerStatusNotFound,
                         hwp_GlobalBackpressure = zero_BackpressureStatus\<rparr>), r')
                else (Some (StatusBadRequest,
                        \<lparr>hwp_Status = HeartbeatWorkerStatusFailed,
                         hwp_GlobalBackpressure = zero_BackpressureStatus\<rparr>), r'))
           | (None, r') \<Rightarrow>
               (Some (StatusOK,
                  \<lparr>hwp_Status = HeartbeatWorkerStatusSuccess,
                   hwp_GlobalBackpressure = GetBackpressureStatus r'\<rparr>), r')))"

subsection \<open>Jobs\<close>

definition zero_CreateJobResponse :: CreateJobResponse where
  "zero_CreateJobResponse =
     \<lparr>cjp_Status = CreateJobStatusOther [], cjp_JobID = [], cjp_JobStatus = JobStatusOther [],
      cjp_AlreadyExists = False, cjp_RequiredSlots = 0, cjp_AvailableSlots = 0, cjp_Assignments = []\<rparr>"

definition requestedTaskCount :: "CreateJobRequest \<Rightarrow> int" where
  "requestedTaskCount req =
     (if 0 < length (cjr_Tasks req) then int (length (cjr_Tasks req)) else cjr_SegmentCount req)"

definition create_error :: "CreateJobRequest \<Rightarrow> CreateJobResult \<Rightarrow> ServiceError \<Rightarrow> CreateJobResponse reply" where
  "create_error req result err =
     (case err of
        PanicNil \<Rightarrow> None
      | ErrWorkerNotFound \<Rightarrow>
          Some (StatusNotFound, zero_CreateJobResponse
            \<lparr>cjp_Status := CreateJobStatusNotFound, cjp_RequiredSlots := requestedTaskCount req\<rparr>)
      | ErrInsufficientResources \<Rightarrow>
          Some (StatusOK, zero_CreateJobResponse
            \<lparr>cjp_Status := CreateJobStatusInsufficientResources,
             cjp_RequiredSlots := cr_RequiredSlots result, cjp_AvailableSlots := cr_AvailableSlots result,
             cjp_Assignments := cr_Assignments result\<rparr>)
      | _ \<Rightarrow>
          Some (StatusInternalServerError, zero_CreateJobResponse
            \<lparr>cjp_Status := CreateJobStatusFailed, cjp_RequiredSlots := requestedTaskCount req\<rparr>))"

definition Create ::
  "CreateJobRequest option \<Rightarrow> (nat \<Rightarrow> Env) \<Rightarrow> Entry \<Rightarrow> CreateJobResponse reply \<times> Entry" where
  "Create body env E =
     (case ShouldBindJSON bind_CreateJobRequest body of
        None \<Rightarrow> (Some (StatusBadRequest, zero_CreateJobResponse\<lparr>cjp_Status := CreateJobStatusFailed\<rparr>), E)
      | Some req \<Rightarrow>
          (case CreateJob req env E of
             ((result, Some err), E') \<Rightarrow> (create_error req result err, E')
           | ((result, None), E') \<Rightarrow>
               (Some (StatusOK,
                  \<lparr>cjp_Status = (if cr_AlreadyExists result then CreateJobStatusAlreadyExists
                                 else CreateJobStatusSuccess),
                   cjp_JobID = cr_JobID result, cjp_JobStatus = cr_JobStatus result,
                   cjp_AlreadyExists = cr_AlreadyExists result,
                   cjp_RequiredSlots = cr_RequiredSlots result,
                   cjp_AvailableSlots = cr_AvailableSlots result,
                   cjp_Assignments = cr_Assignments result\<rparr>), E')))"

definition Result :: "string \<Rightarrow> string \<Rightarrow> JobManager \<Rightarrow> int \<times> QueryJobResultResponse" where
  "Result address videoName m =
     (if address = [] \<or> videoName = []
      then (StatusBadRequest, query_not_found\<lparr>qjr_Status := QueryJobResultStatusFailed\<rparr>)
      else
        case GetJobResultByIdentity address videoName m of
          (response, ok) \<Rightarrow> if \<not> ok then (StatusNotFound, response) else (StatusOK, response))"

subsection \<open>Task reports\<close>

definition bind_TaskAcceptedRequest :: "TaskAcceptedRequest \<Rightarrow> bool" where
  "bind_TaskAcceptedRequest r \<longleftrightarrow> tar_WorkerID r \<noteq> []"

definition bind_TaskFailedRequest :: "TaskFailedRequest \<Rightarrow> bool" where
  "bind_TaskFailedRequest r \<longleftrightarrow> tfr_WorkerID r \<noteq> [] \<and> tfr_Reason r \<noteq> []"

definition respondTaskError :: "ServiceError \<Rightarrow> TaskUpdateResponse reply" where
  "respondTaskError err =
     (case err of
        PanicNil \<Rightarrow> None
      | ErrTaskNotFound \<Rightarrow> Some (StatusNotFound, \<lparr>tur_Status = TaskUpdateStatusNotFound\<rparr>)
      | ErrTaskWorkerMismatch \<Rightarrow> Some (StatusConflict, \<lparr>tur_Status = TaskUpdateStatusWorkerMismatch\<rparr>)
      | ErrTaskInvalidState \<Rightarrow> Some (StatusConflict, \<lparr>tur_Status = TaskUpdateStatusInvalidState\<rparr>)
      | _ \<Rightarrow> Some (StatusBadRequest, \<lparr>tur_Status = TaskUpdateStatusFailed\<rparr>))"

definition respond_task :: "ServiceError option \<Rightarrow> TaskUpdateResponse reply" where
  "respond_task err =
     (case err of Some e \<Rightarrow> respondTaskError e
      | None \<Rightarrow> Some (StatusOK, \<lparr>tur_Status = TaskUpdateStatusSuccess\<rparr>))"

definition task_bad_request :: "TaskUpdateResponse reply" where
  "task_bad_request = Some (StatusBadRequest, \<lparr>tur_Status = TaskUpdateStatusFailed\<rparr>)"

definition Accepted ::
  "string \<Rightarrow> TaskAcceptedRequest option \<Rightarrow> Env \<Rightarrow> Entry \<Rightarrow> TaskUpdateResponse reply \<times> Entry" where
  "Accepted taskID body ev E =
     (case ShouldBindJSON bind_TaskAcceptedRequest body of
        None \<Rightarrow> (task_bad_request, E)
      | Some req \<Rightarrow>
          (case AcceptSegmentTask taskID req (ev_now ev) (en_manager E) of
             (err, m) \<Rightarrow> (respond_task err, E\<lparr>en_manager := m\<rparr>)))"

definition Completed ::
  "assemble_post \<Rightarrow> string \<Rightarrow> TaskCompletedRequest option \<Rightarrow> (nat \<Rightarrow> Env) \<Rightarrow> Entry
     \<Rightarrow> TaskUpdateResponse reply \<times> Entry" where
  "Completed post taskID body env E =
     (case ShouldBindJSON bind_TaskCompletedRequest body of
        None \<Rightarrow> (task_bad_request, E)
      | Some req \<Rightarrow>
          (case CompleteSegmentTask post taskID req env E of (err, E') \<Rightarrow> (respond_task err, E')))"

definition Failed ::
  "string \<Rightarrow> TaskFailedRequest option \<Rightarrow> Env \<Rightarrow> Entry \<Rightarrow> TaskUpdateResponse reply \<times> Entry" where
  "Failed taskID body ev E =
     (case ShouldBindJSON bind_TaskFailedRequest body of
        None \<Rightarrow> (task_bad_request, E)
      | Some req \<Rightarrow>
          (case FailSegmentTask taskID req ev E of (err, E') \<Rightarrow> (respond_task err, E')))"

subsection \<open>Job results\<close>

definition bind_JobAssembledRequest :: "JobAssembledRequest \<Rightarrow> bool" where
  "bind_JobAssembledRequest r \<longleftrightarrow>
     jar_WorkerID r \<noteq> [] \<and> jar_Status r \<noteq> JobResultStatusOther []
     \<and> 0 \<le> jar_DurationMS r \<and> 0 \<le> jar_OutputSizeBytes r
     \<and> in64 (jar_DurationMS r) \<and> in64 (jar_OutputSizeBytes r)"

definition respondJobResultError :: "ServiceError \<Rightarrow> JobAssembledResponse reply" where
  "respondJobResultError err =
     (case err of
        PanicNil \<Rightarrow> None
      | ErrTaskNotFound \<Rightarrow> Some (StatusNotFound, \<lparr>jap_Status = JobResultUpdateStatusNotFound\<rparr>)
      | ErrTaskWorkerMismatch \<Rightarrow> Some (StatusConflict, \<lparr>jap_Status = JobResultUpdateStatusWorkerMismatch\<rparr>)
      | ErrTaskInvalidState \<Rightarrow> Some (StatusConflict, \<lparr>jap_Status = JobResultUpdateStatusInvalidState\<rparr>)
      | _ \<Rightarrow> Some (StatusBadRequest, \<lparr>jap_Status = JobResultUpdateStatusFailed\<rparr>))"

text \<open>The handler ends after the notification's POST; its outcome is logged only, so the reply
  and the state do not depend on it.\<close>

definition Assembled ::
  "string \<Rightarrow> JobAssembledRequest option \<Rightarrow> int \<Rightarrow> Entry \<Rightarrow> JobAssembledResponse reply \<times> Entry" where
  "Assembled jobID body now E =
     (case ShouldBindJSON bind_JobAssembledRequest body of
        None \<Rightarrow> (Some (StatusBadRequest, \<lparr>jap_Status = JobResultUpdateStatusFailed\<rparr>), E)
      | Some req \<Rightarrow>
          (case AssembleJob jobID req now E of
             (Inl err, E') \<Rightarrow> (respondJobResultError err, E')
           | (Inr notify, E') \<Rightarrow> (Some (StatusOK, \<lparr>jap_Status = JobResultUpdateStatusSuccess\<rparr>), E')))"

end
