(* ===== verification/Entry_Handlers_Spec.thy ===== *)
theory Entry_Handlers_Spec
  imports Entry_Handlers Job_Create_Spec Entry_Properties
begin

text \<open>
  What the HTTP interface of Entry promises. \<open>report_endpoint\<close> is the contract the four reporting
  endpoints share: bind, call the service, answer by its error; it is interpreted on each of them.
  The other properties compose two endpoints: registration with heartbeat, job creation with the
  query for its result.
\<close>

subsection \<open>The reporting endpoints\<close>

locale report_endpoint =
  fixes op :: "'req \<Rightarrow> 's \<Rightarrow> ServiceError option \<times> 's"
    and binds :: "'req \<Rightarrow> bool"
    and respond :: "ServiceError option \<Rightarrow> 'resp reply"
    and bad :: "'resp reply"
    and handler :: "'req option \<Rightarrow> 's \<Rightarrow> 'resp reply \<times> 's"
  assumes handler_eq: "handler body s =
      (case ShouldBindJSON binds body of
         None \<Rightarrow> (bad, s)
       | Some req \<Rightarrow> (case op req s of (err, s') \<Rightarrow> (respond err, s')))"
    and op_atomic: "op req s = (Some e, s') \<Longrightarrow> s' = s"
    and respond_ok: "respond err = respond None \<longleftrightarrow> err = None"
    and bad_not_ok: "bad \<noteq> respond None"
begin

lemma success_iff:
  "fst (handler body s) = respond None \<longleftrightarrow> (\<exists>req. body = Some req \<and> binds req \<and> fst (op req s) = None)"
  using respond_ok bad_not_ok
  by (auto simp: handler_eq ShouldBindJSON_def split: option.splits prod.splits)

lemma unchanged_unless_success:
  assumes "fst (handler body s) \<noteq> respond None"
  shows "snd (handler body s) = s"
proof (cases "ShouldBindJSON binds body")
  case (Some req)
  obtain err s' where "op req s = (err, s')" by (metis prod.exhaust)
  with assms Some op_atomic show ?thesis by (cases err) (auto simp: handler_eq)
qed (simp add: handler_eq)

end

lemma respond_task_ok: "respond_task err = respond_task None \<longleftrightarrow> err = None"
  by (auto simp: respond_task_def respondTaskError_def split: option.splits ServiceError.splits)

lemma task_bad_not_ok: "task_bad_request \<noteq> respond_task None"
  by (simp add: task_bad_request_def respond_task_def)

lemma segment_errors_keep:
  "AcceptSegmentTask k areq now m = (Some e, m') \<Longrightarrow> m' = m"
  "complete_segment_locked k creq now m = (Inl e, m') \<Longrightarrow> m' = m"
  "fail_segment_locked k freq now m = (Inl e, m') \<Longrightarrow> m' = m"
  "complete_assemble_locked jobID jreq w now m = (Inl e, m') \<Longrightarrow> m' = m"
  "fail_assemble_locked jobID jreq now m = (Inl e, m') \<Longrightarrow> m' = m"
  by (auto simp: AcceptSegmentTask_def complete_segment_locked_def fail_segment_locked_def
      complete_assemble_locked_def fail_assemble_locked_def Let_def
      split: sum.splits if_splits option.splits prod.splits)

lemma CompleteSegmentTask_error:
  "CompleteSegmentTask post k req env E = (Some e, E') \<Longrightarrow> E' = E"
  using segment_errors_keep(2)
  by (auto simp: CompleteSegmentTask_def Let_def split: sum.splits prod.splits if_splits)

lemma FailSegmentTask_error: "FailSegmentTask k req ev E = (Some e, E') \<Longrightarrow> E' = E"
  using segment_errors_keep(3)
  by (auto simp: FailSegmentTask_def split: sum.splits prod.splits)

lemma AssembleJob_error: "AssembleJob jobID req now E = (Inl e, E') \<Longrightarrow> E' = E"
  using segment_errors_keep(4,5)
  by (auto simp: AssembleJob_def completeAssembleJob_def failAssembleJob_def assemble_reported_def
      split: JobResultStatus.splits option.splits sum.splits prod.splits)

interpretation accepted: report_endpoint
  "\<lambda>req E. case AcceptSegmentTask taskID req (ev_now ev) (en_manager E) of (err, m) \<Rightarrow> (err, E\<lparr>en_manager := m\<rparr>)"
  bind_TaskAcceptedRequest respond_task task_bad_request "\<lambda>body. Accepted taskID body ev" for taskID ev
  by unfold_locales
    (auto simp: Accepted_def task_bad_not_ok respond_task_ok
      split: option.splits prod.splits dest: segment_errors_keep(1))

interpretation completed: report_endpoint
  "\<lambda>req. CompleteSegmentTask post taskID req env"
  bind_TaskCompletedRequest respond_task task_bad_request "\<lambda>body. Completed post taskID body env"
  for post taskID env
  by unfold_locales
    (auto simp: Completed_def task_bad_not_ok respond_task_ok
      split: option.splits prod.splits dest: CompleteSegmentTask_error)

interpretation failed: report_endpoint
  "\<lambda>req. FailSegmentTask taskID req ev"
  bind_TaskFailedRequest respond_task task_bad_request "\<lambda>body. Failed taskID body ev" for taskID ev
  by unfold_locales
    (auto simp: Failed_def task_bad_not_ok respond_task_ok
      split: option.splits prod.splits dest: FailSegmentTask_error)

definition respond_assembled :: "ServiceError option \<Rightarrow> JobAssembledResponse reply" where
  "respond_assembled err =
     (case err of Some e \<Rightarrow> respondJobResultError e
      | None \<Rightarrow> Some (StatusOK, \<lparr>jap_Status = JobResultUpdateStatusSuccess\<rparr>))"

definition assemble_op ::
  "string \<Rightarrow> int \<Rightarrow> JobAssembledRequest \<Rightarrow> Entry \<Rightarrow> ServiceError option \<times> Entry" where
  "assemble_op jobID now req E =
     (case AssembleJob jobID req now E of (Inl err, E') \<Rightarrow> (Some err, E') | (Inr _, E') \<Rightarrow> (None, E'))"

interpretation assembled: report_endpoint
  "assemble_op jobID now" bind_JobAssembledRequest respond_assembled
  "Some (StatusBadRequest, \<lparr>jap_Status = JobResultUpdateStatusFailed\<rparr>)"
  "\<lambda>body. Assembled jobID body now" for jobID now
  by unfold_locales
    (auto simp: Assembled_def assemble_op_def respond_assembled_def respondJobResultError_def
      split: option.splits prod.splits sum.splits ServiceError.splits dest: AssembleJob_error)

text \<open>
  C13. A report is atomic: an endpoint that does not answer 200 has changed nothing in Entry, neither
  the registry nor the jobs; whatever the body, the state of the task and the assembly that a
  completed segment may start.
\<close>

theorem reports_atomic:
  "(fst (Accepted k abody ev E) \<noteq> Some (StatusOK, \<lparr>tur_Status = TaskUpdateStatusSuccess\<rparr>)
      \<longrightarrow> snd (Accepted k abody ev E) = E)
   \<and> (fst (Completed post k cbody env E) \<noteq> Some (StatusOK, \<lparr>tur_Status = TaskUpdateStatusSuccess\<rparr>)
      \<longrightarrow> snd (Completed post k cbody env E) = E)
   \<and> (fst (Failed k fbody ev E) \<noteq> Some (StatusOK, \<lparr>tur_Status = TaskUpdateStatusSuccess\<rparr>)
      \<longrightarrow> snd (Failed k fbody ev E) = E)
   \<and> (fst (Assembled jobID jbody now E) \<noteq> Some (StatusOK, \<lparr>jap_Status = JobResultUpdateStatusSuccess\<rparr>)
      \<longrightarrow> snd (Assembled jobID jbody now E) = E)"
proof -
  have "respond_task None = Some (StatusOK, \<lparr>tur_Status = TaskUpdateStatusSuccess\<rparr>)"
    and "respond_assembled None = Some (StatusOK, \<lparr>jap_Status = JobResultUpdateStatusSuccess\<rparr>)"
    by (simp_all add: respond_task_def respond_assembled_def)
  then show ?thesis
    using accepted.unchanged_unless_success [of k abody ev E]
      completed.unchanged_unless_success [of post k cbody env E]
      failed.unchanged_unless_success [of k fbody ev E]
      assembled.unchanged_unless_success [of jobID jbody now E] by simp
qed

theorem reports_atomic_witness:
  "snd (Failed ''task_01'' (Some \<lparr>tfr_WorkerID = ''a'', tfr_Reason = ''x'', tfr_Retryable = True\<rparr>)
      \<lparr>ev_ord = [], ev_now = 5, ev_draw = None\<rparr> ex_entry) = ex_entry
   \<and> snd (Failed ''task_01'' None \<lparr>ev_ord = [], ev_now = 5, ev_draw = None\<rparr> ex_entry) = ex_entry"
proof -
  have "case fst (Failed ''task_01'' (Some \<lparr>tfr_WorkerID = ''a'', tfr_Reason = ''x'', tfr_Retryable = True\<rparr>)
      \<lparr>ev_ord = [], ev_now = 5, ev_draw = None\<rparr> ex_entry) of None \<Rightarrow> False | Some (code, resp) \<Rightarrow> code = StatusNotFound"
    by code_simp
  then show ?thesis
    using reports_atomic [where k = "''task_01''" and E = ex_entry and ev = "\<lparr>ev_ord = [], ev_now = 5, ev_draw = None\<rparr>"
        and fbody = "Some \<lparr>tfr_WorkerID = ''a'', tfr_Reason = ''x'', tfr_Retryable = True\<rparr>"]
      reports_atomic [where k = "''task_01''" and fbody = None and E = ex_entry
        and ev = "\<lparr>ev_ord = [], ev_now = 5, ev_draw = None\<rparr>"]
    by (auto simp: Failed_def [of _ None] ShouldBindJSON_def task_bad_request_def
        split: option.splits)
qed

text \<open>Who may report a segment: the code of the answer for each state of its task.\<close>

definition report_code ::
  "(TaskStatus \<Rightarrow> bool) \<Rightarrow> string \<Rightarrow> string \<Rightarrow> JobManager \<Rightarrow> TaskUpdateResponse reply" where
  "report_code allowed k workerID m =
     (case jm_tasks m k of
        None \<Rightarrow> Some (StatusNotFound, \<lparr>tur_Status = TaskUpdateStatusNotFound\<rparr>)
      | Some t \<Rightarrow>
          if t_Type t \<noteq> TaskTypeProcessSegment
          then Some (StatusConflict, \<lparr>tur_Status = TaskUpdateStatusInvalidState\<rparr>)
          else if t_AssignedWorkerID t \<noteq> workerID
          then Some (StatusConflict, \<lparr>tur_Status = TaskUpdateStatusWorkerMismatch\<rparr>)
          else if \<not> allowed (t_Status t)
          then Some (StatusConflict, \<lparr>tur_Status = TaskUpdateStatusInvalidState\<rparr>)
          else Some (StatusOK, \<lparr>tur_Status = TaskUpdateStatusSuccess\<rparr>))"

lemma report_code_found:
  "segmentTaskAndJobLocked k workerID m = Inr (t, j) \<Longrightarrow>
     report_code allowed k workerID m = respond_task (if allowed (t_Status t) then None else Some ErrTaskInvalidState)"
  by (auto simp: segmentTaskAndJobLocked_def report_code_def respond_task_def respondTaskError_def
      split: option.splits if_splits)

lemma report_code_refused:
  assumes "wf_manager m" and "segmentTaskAndJobLocked k workerID m = Inl e"
  shows "report_code allowed k workerID m = respond_task (Some e)"
  using wf_managerD(8) [OF assms(1), of k] assms(2)
  by (auto simp: segmentTaskAndJobLocked_def report_code_def respond_task_def respondTaskError_def
      split: option.splits if_splits)

text \<open>
  Who may report a segment, in every reachable state: the reply is 404 for an unknown task, 409
  for a task that is not a segment or belongs to another worker, 409 when its status does not allow
  the report (only an assigned task is accepted, only an assigned or running one completes or
  fails), and 200 otherwise: no other answer exists, and the job behind the task is always found.
\<close>

theorem report_codes:
  assumes "reachable_world W" and "en_manager E = wd_manager W"
    and "bind_TaskAcceptedRequest a" and "bind_TaskCompletedRequest c" and "bind_TaskFailedRequest f"
  shows "fst (Accepted k (Some a) ev E)
      = report_code (\<lambda>s. s = TaskStatusAssigned) k (tar_WorkerID a) (wd_manager W)
    \<and> fst (Completed post k (Some c) env E)
      = report_code (\<lambda>s. s \<in> {TaskStatusAssigned, TaskStatusRunning}) k (tcr_WorkerID c) (wd_manager W)
    \<and> fst (Failed k (Some f) ev E)
      = report_code (\<lambda>s. s \<in> {TaskStatusAssigned, TaskStatusRunning}) k (tfr_WorkerID f) (wd_manager W)"
proof -
  have wf: "wf_manager (wd_manager W)" by (rule world_okD(2) [OF reachable_world_ok [OF assms(1)]])
  have ended: "t_Status t = TaskStatusFailed"
    if "t_Status t \<noteq> TaskStatusAssigned" "t_Status t \<noteq> TaskStatusRunning" "t_Status t \<noteq> TaskStatusCompleted"
    for t :: Task using that by (cases "t_Status t") auto
  have "fst (Accepted k (Some a) ev E)
      = report_code (\<lambda>s. s = TaskStatusAssigned) k (tar_WorkerID a) (wd_manager W)"
    using assms(2,3) report_code_refused [OF wf, of k] report_code_found [of k "tar_WorkerID a" "wd_manager W"]
    by (auto simp: Accepted_def ShouldBindJSON_def AcceptSegmentTask_def split: sum.splits prod.splits)
  moreover have "fst (Completed post k (Some c) env E)
      = report_code (\<lambda>s. s \<in> {TaskStatusAssigned, TaskStatusRunning}) k (tcr_WorkerID c) (wd_manager W)"
    using assms(2,4) report_code_refused [OF wf, of k] report_code_found [of k "tcr_WorkerID c" "wd_manager W"]
    by (auto simp: Completed_def ShouldBindJSON_def CompleteSegmentTask_def complete_segment_locked_def Let_def
        split: sum.splits prod.splits if_splits)
  moreover have "fst (Failed k (Some f) ev E)
      = report_code (\<lambda>s. s \<in> {TaskStatusAssigned, TaskStatusRunning}) k (tfr_WorkerID f) (wd_manager W)"
    using assms(2,5) report_code_refused [OF wf, of k] report_code_found [of k "tfr_WorkerID f" "wd_manager W"]
    by (auto simp: Failed_def ShouldBindJSON_def FailSegmentTask_def fail_segment_locked_def
        split: sum.splits prod.splits if_splits dest: ended)
  ultimately show ?thesis by blast
qed

theorem report_codes_witness:
  "fst (Accepted ''task_03'' (Some \<lparr>tar_WorkerID = ''wrk_02''\<rparr>) \<lparr>ev_ord = [], ev_now = 40, ev_draw = None\<rparr>
      \<lparr>en_workers = wd_registry run_created, en_manager = wd_manager run_created\<rparr>)
    = Some (StatusConflict, \<lparr>tur_Status = TaskUpdateStatusWorkerMismatch\<rparr>)"
proof -
  let ?a = "\<lparr>tar_WorkerID = ''wrk_02''\<rparr>"
  let ?c = "\<lparr>tcr_WorkerID = ''wrk_02'', tcr_Checksum = [], tcr_FrameCount = 1, tcr_DurationMS = 1,
      tcr_OutputSizeBytes = 1\<rparr>"
  let ?f = "\<lparr>tfr_WorkerID = ''wrk_02'', tfr_Reason = ''x'', tfr_Retryable = False\<rparr>"
  have "bind_TaskAcceptedRequest ?a" "bind_TaskCompletedRequest ?c" "bind_TaskFailedRequest ?f"
    by (simp_all add: bind_TaskAcceptedRequest_def bind_TaskCompletedRequest_def bind_TaskFailedRequest_def in64_def)
  note this and report_codes [OF run_reachable, where k = "''task_03''" and ev = "\<lparr>ev_ord = [], ev_now = 40, ev_draw = None\<rparr>", OF _ this]
  then show ?thesis
    by (simp add: report_code_def run_worlds run_defs)
qed

subsection \<open>Creating a job and asking for its result\<close>

text \<open>
  C14. A client can always find the job it created: when the creation endpoint answers with success
  or with "already exists", the result endpoint, asked right after for the source worker's address
  and the video name, answers 200 with the same job identifier and the same job status.
\<close>

theorem Create_then_Result:
  assumes "wf_registry (en_workers E)" and "wr_byID (en_workers E) (cjr_WorkerID req) = Some sw"
    and "w_Address sw \<noteq> []"
    and "Create (Some req) env E = (Some (code, resp), E')"
    and "cjp_Status resp \<in> {CreateJobStatusSuccess, CreateJobStatusAlreadyExists}"
  shows "fst (Result (w_Address sw) (cjr_VideoName req) (en_manager E')) = StatusOK
    \<and> qjr_JobID (snd (Result (w_Address sw) (cjr_VideoName req) (en_manager E'))) = cjp_JobID resp
    \<and> qjr_JobStatus (snd (Result (w_Address sw) (cjr_VideoName req) (en_manager E'))) = cjp_JobStatus resp"
proof -
  have req: "cjr_VideoName req \<noteq> []" and bind: "ShouldBindJSON bind_CreateJobRequest (Some req) = Some req"
    using assms(4,5)
    by (auto simp: Create_def ShouldBindJSON_def zero_CreateJobResponse_def bind_CreateJobRequest_def split: if_splits)
  obtain res err where C: "CreateJob req env E = ((res, err), E')"
    using assms(4) bind by (auto simp: Create_def split: prod.splits option.splits)
  have err: "err = None" "cjp_JobID resp = cr_JobID res" "cjp_JobStatus resp = cr_JobStatus res"
    using assms(4,5) bind C
    by (auto simp: Create_def create_error_def zero_CreateJobResponse_def split: option.splits ServiceError.splits)
  obtain job where "findJobByIdentity (jobIdentityKey (w_Address sw) (cjr_VideoName req)) (en_manager E') = Some job"
    "cr_JobID res = j_ID job" "cr_JobStatus res = j_Status job"
    using CreateJob_found [OF C [unfolded err(1)] assms(2)] by blast
  with err req assms(3) show ?thesis
    by (auto simp: Result_def GetJobResultByIdentity_def findJobByIdentity_def query_of_job_def split: option.splits)
qed

theorem Create_then_Result_witness:
  "fst (Result ''a:1'' ''v'' (en_manager (snd (Create (Some (ex_request JobModeInternal))
      (ex_env (\<lambda>n. Some [of_nat n])) ex_entry)))) = StatusOK"
proof -
  let ?run = "Create (Some (ex_request JobModeInternal)) (ex_env (\<lambda>n. Some [of_nat n])) ex_entry"
  obtain rep E' where R: "?run = (rep, E')" by (metis prod.exhaust)
  have "(case fst ?run of None \<Rightarrow> False | Some (c, resp) \<Rightarrow> cjp_Status resp = CreateJobStatusSuccess)"
    by code_simp
  then obtain c resp where rep: "rep = Some (c, resp)" "cjp_Status resp = CreateJobStatusSuccess"
    using R by (auto split: option.splits)
  have w: "wr_byID (en_workers ex_entry) (cjr_WorkerID (ex_request JobModeInternal)) = Some (ex_worker ''a'' 2 1 50)"
    by (simp add: ex_entry_def ex_registry_byID ex_request_def)
  have "wf_registry (en_workers ex_entry)" using ex_ledger by (simp add: ledger_registry_def)
  from Create_then_Result [OF this w _ R [unfolded rep(1)]] rep(2) R show ?thesis
    by (simp add: ex_worker_def ex_request_def)
qed

subsection \<open>Registration and heartbeat\<close>

text \<open>
  A registered worker is known: after a registration that was answered 200, a heartbeat with
  valid contents and the identifier of that answer is answered 200 with the current backpressure
  status, never 404; and the answer to the registration said "exists" exactly when the address was
  registered before.
\<close>

theorem Register_then_Heartbeat:
  assumes "wf_registry r" and "Register policy (Some req) now draws r = Some (Some (StatusOK, resp), r')"
    and "bind_HeartbeatWorkerRequest hreq" and "validateHeartbeatWorkerRequest hreq = None"
    and "hwr_WorkerID hreq = rwp_WorkerID resp"
  shows "fst (Heartbeat (Some hreq) later r') = Some (StatusOK,
      \<lparr>hwp_Status = HeartbeatWorkerStatusSuccess, hwp_GlobalBackpressure = wr_backpressure r\<rparr>)
    \<and> (rwp_Status resp = RegisterWorkerStatusExists \<longleftrightarrow> wr_idByAddr r (rwr_Address req) \<noteq> None)"
proof -
  from assms(2) obtain w existed where R: "RegisterWorker req now draws r = Some (Inr (w, existed), r')"
    and resp: "rwp_WorkerID resp = w_ID w"
      "rwp_Status resp = (if existed then RegisterWorkerStatusExists else RegisterWorkerStatusSuccess)"
    by (auto simp: Register_def ShouldBindJSON_def split: if_splits option.splits sum.splits prod.splits ServiceError.splits)
  have "wr_byID r' (w_ID w) = Some w" using RegisterWorker_stored [OF assms(1) R] by blast
  moreover have "wr_backpressure r' = wr_backpressure r" "existed \<longleftrightarrow> wr_idByAddr r (rwr_Address req) \<noteq> None"
    using R by (auto simp: RegisterWorker_def Let_def set_worker_def split: option.splits sum.splits prod.splits)
  ultimately show ?thesis
    using assms(3-5) resp
    by (simp add: Heartbeat_def ShouldBindJSON_def HeartbeatWorker_def GetBackpressureStatus_def set_worker_def)
qed

definition ex_heartbeat :: "string \<Rightarrow> HeartbeatWorkerRequest" where
  "ex_heartbeat k =
     \<lparr>hwr_WorkerID = k, hwr_TotalSlots = 4, hwr_RunningProcessSegment = 0, hwr_RunningAssembleGIF = 0,
      hwr_RunningTasks = [], hwr_DiskTotalBytes = 10, hwr_DiskFreeBytes = 5, hwr_Metrics = []\<rparr>"

theorem Register_then_Heartbeat_witness:
  "\<exists>resp r'. Register zero_SplitPolicy (Some ex_register) 1 [Some [7]] ex_registry = Some (Some (StatusOK, resp), r')
     \<and> rwp_WorkerID resp = ''wrk_07'' \<and> rwp_Status resp \<noteq> RegisterWorkerStatusExists
     \<and> fst (Heartbeat (Some (ex_heartbeat ''wrk_07'')) 2 r') = Some (StatusOK,
         \<lparr>hwp_Status = HeartbeatWorkerStatusSuccess, hwp_GlobalBackpressure = wr_backpressure ex_registry\<rparr>)"
proof -
  have "\<exists>resp r'. Register zero_SplitPolicy (Some ex_register) 1 [Some [7]] ex_registry
      = Some (Some (StatusOK, resp), r') \<and> rwp_WorkerID resp = ''wrk_07''"
    by (simp add: Register_def ShouldBindJSON_def bind_RegisterWorkerRequest_def RegisterWorker_def ex_register_valid
        Let_def ex_registry_def) (simp add: ex_register_def Let_def in64_def EncodeToString_def hex_byte_def hextable_def)
  then obtain resp r' where reg: "Register zero_SplitPolicy (Some ex_register) 1 [Some [7]] ex_registry
      = Some (Some (StatusOK, resp), r')" "rwp_WorkerID resp = ''wrk_07''" by blast
  have "bind_HeartbeatWorkerRequest (ex_heartbeat ''wrk_07'')"
    "validateHeartbeatWorkerRequest (ex_heartbeat ''wrk_07'') = None"
    by (simp_all add: bind_HeartbeatWorkerRequest_def validateHeartbeatWorkerRequest_def ex_heartbeat_def in64_def)
  from Register_then_Heartbeat [OF ex_registry_wf reg(1) this, of 2] reg show ?thesis
    by (simp add: ex_heartbeat_def) (simp add: ex_registry_def ex_register_def)
qed

end
