(* ===== verification/Engine_Pool.thy ===== *)
theory Engine_Pool
  imports Go_Std
begin

text \<open>
  \<open>worker-node/go/internal/enginepool\<close> and \<open>engineprotocol\<close>: the pool of engine processes of a
  worker. A \<open>*Engine\<close> and a \<open>chan *Engine\<close> are addresses, given out in order; the pool's state
  holds what they point to (\<open>pl_heap\<close>, \<open>pl_chans\<close>). Every lock region and every channel
  operation is a function. What the operating system decides (whether a process starts, what it
  answers, how it ends), the context's error and the clock are arguments.
\<close>

subsection \<open>The engine protocol\<close>

definition ProtocolVersion :: int where "ProtocolVersion = 1"

datatype Operation =
  OpPing | OpProcessInternalSimple | OpSplitVideo | OpProcessSegment | OpAssembleGIF | OpOther string

datatype ResponseType = ResponseTypeCompleted | ResponseTypeFailed | ResponseTypeOther string

datatype DataMode = DataModeFile

record FileRef =
  fr_Mode :: DataMode
  fr_Path :: string
  fr_Name :: string
  fr_SizeBytes :: int

record Request =
  rq_Version :: int
  rq_RequestID :: string
  rq_Operation :: Operation
  rq_TargetSegmentSizeBytes :: int
  rq_TargetSegmentDurationMS :: int
  rq_MaxSegments :: int
  rq_Input :: "FileRef option"
  rq_Inputs :: "FileRef list"
  rq_Output :: "FileRef option"
  rq_OutputDir :: string

record SegmentFile =
  sf_SegmentIndex :: int
  sf_Path :: string
  sf_Name :: string
  sf_SizeBytes :: int

record Response =
  rs_Version :: int
  rs_RequestID :: string
  rs_Type :: ResponseType
  rs_ResultName :: string
  rs_ArtifactName :: string
  rs_Checksum :: string
  rs_FrameCount :: int
  rs_DurationMS :: int
  rs_OutputSizeBytes :: int
  rs_Segments :: "SegmentFile list"
  rs_Reason :: string
  rs_Retryable :: bool

definition nextRequestID :: "draw \<Rightarrow> string" where
  "nextRequestID d = (case d of None \<Rightarrow> ''req_fallback'' | Some raw \<Rightarrow> ''req_'' @ EncodeToString raw)"

definition prepareRequest :: "draw \<Rightarrow> Request \<Rightarrow> Request" where
  "prepareRequest d req =
     (let req1 = (if rq_Version req = 0 then req\<lparr>rq_Version := ProtocolVersion\<rparr> else req)
      in if rq_RequestID req1 = [] then req1\<lparr>rq_RequestID := nextRequestID d\<rparr> else req1)"

subsection \<open>One engine\<close>

datatype EngineError =
    EngineNotStarted | EngineContext string | EngineIO string | EngineDecode string
  | RequestIDMismatch string string | VersionMismatch int int
  | ErrLeaseReleased | PoolNotStarted | ErrNoIdleEngine | SlotsNotPositive | NoBinaryPath

text \<open>\<open>exchange\<close> is writing the request line and reading the response line: an I/O error, or a
  line that decodes or not. \<open>ctx1\<close> and \<open>ctx2\<close> are the context's error before and after.\<close>

definition engine_call ::
  "bool \<Rightarrow> draw \<Rightarrow> string option \<Rightarrow> (Request \<Rightarrow> string + string + Response) \<Rightarrow> string option \<Rightarrow> Request
     \<Rightarrow> EngineError + Response" where
  "engine_call started d ctx1 exchange ctx2 req =
     (if \<not> started then Inl EngineNotStarted
      else
        let req = prepareRequest d req in
        case ctx1 of
          Some err \<Rightarrow> Inl (EngineContext err)
        | None \<Rightarrow>
            (case exchange req of
               Inl err \<Rightarrow> Inl (EngineIO err)
             | Inr (Inl err) \<Rightarrow> Inl (EngineDecode err)
             | Inr (Inr resp) \<Rightarrow>
                 if rs_RequestID resp \<noteq> rq_RequestID req
                 then Inl (RequestIDMismatch (rs_RequestID resp) (rq_RequestID req))
                 else if rs_Version resp \<noteq> ProtocolVersion
                 then Inl (VersionMismatch (rs_Version resp) ProtocolVersion)
                 else case ctx2 of Some err \<Rightarrow> Inl (EngineContext err) | None \<Rightarrow> Inr resp))"

subsection \<open>The pool\<close>

type_synonym engine_ref = nat
type_synonym chan_ref = nat

record Engine =
  eg_id :: int
  eg_started :: bool

datatype SlotMode = slotStateIdle | slotStateLeased | slotStateExecuting

record slotState =
  sl_state :: SlotMode
  sl_operation :: "Operation option"
  sl_requestID :: string
  sl_leasedAt :: "int option"
  sl_executingAt :: "int option"

record Pool =
  pl_cfgSlots :: int
  pl_started :: bool
  pl_engines :: "engine_ref list"
  pl_idle :: "chan_ref option"
  pl_slots :: "(int \<rightharpoonup> slotState) option"
  pl_heap :: "engine_ref \<rightharpoonup> Engine"
  pl_next :: nat
  pl_chans :: "chan_ref \<rightharpoonup> engine_ref list"
  pl_next_chan :: nat

definition idle_slot :: slotState where
  "idle_slot =
     \<lparr>sl_state = slotStateIdle, sl_operation = None, sl_requestID = [], sl_leasedAt = None,
      sl_executingAt = None\<rparr>"

definition NewPool :: "int \<Rightarrow> string \<Rightarrow> EngineError + Pool" where
  "NewPool slots binaryPath =
     (if slots \<le> 0 then Inl SlotsNotPositive
      else if binaryPath = [] then Inl NoBinaryPath
      else Inr \<lparr>pl_cfgSlots = slots, pl_started = False, pl_engines = [], pl_idle = None,
                pl_slots = None, pl_heap = Map.empty, pl_next = 0, pl_chans = Map.empty,
                pl_next_chan = 0\<rparr>)"

text \<open>\<open>engine.Stop\<close> of every engine; \<open>stop\<close> gives the error each one ends with. A started
  engine is stopped whatever its error.\<close>

fun stopStartedEnginesLocked ::
  "(engine_ref \<Rightarrow> string option) \<Rightarrow> engine_ref list \<Rightarrow> string option \<Rightarrow> (engine_ref \<rightharpoonup> Engine)
     \<Rightarrow> string option \<times> (engine_ref \<rightharpoonup> Engine)" where
  "stopStartedEnginesLocked stop [] firstErr heap = (firstErr, heap)"
| "stopStartedEnginesLocked stop (e # es) firstErr heap =
     (case heap e of
        None \<Rightarrow> stopStartedEnginesLocked stop es firstErr heap
      | Some engine \<Rightarrow>
          if \<not> eg_started engine then stopStartedEnginesLocked stop es firstErr heap
          else stopStartedEnginesLocked stop es (if firstErr = None then stop e else firstErr)
                 (heap(e \<mapsto> engine\<lparr>eg_started := False\<rparr>)))"

definition add_engine :: "int \<Rightarrow> chan_ref \<Rightarrow> Pool \<Rightarrow> Pool" where
  "add_engine i c p =
     p\<lparr>pl_heap := (pl_heap p)(pl_next p \<mapsto> \<lparr>eg_id = i, eg_started = True\<rparr>),
       pl_next := Suc (pl_next p),
       pl_engines := pl_engines p @ [pl_next p],
       pl_slots := map_option (\<lambda>s. s(i \<mapsto> idle_slot)) (pl_slots p),
       pl_chans := (pl_chans p)(c \<mapsto> (case pl_chans p c of None \<Rightarrow> [] | Some es \<Rightarrow> es) @ [pl_next p])\<rparr>"

fun start_loop ::
  "(int \<Rightarrow> string option) \<Rightarrow> (engine_ref \<Rightarrow> string option) \<Rightarrow> nat \<Rightarrow> int \<Rightarrow> chan_ref \<Rightarrow> Pool
     \<Rightarrow> string option \<times> Pool" where
  "start_loop spawn stop 0 i c p = (None, p\<lparr>pl_started := True\<rparr>)"
| "start_loop spawn stop (Suc n) i c p =
     (case spawn i of
        Some err \<Rightarrow>
          (Some err, p\<lparr>pl_heap := snd (stopStartedEnginesLocked stop (pl_engines p) None (pl_heap p))\<rparr>)
      | None \<Rightarrow> start_loop spawn stop n (i + 1) c (add_engine i c p))"

definition PoolStart ::
  "string option \<Rightarrow> (int \<Rightarrow> string option) \<Rightarrow> (engine_ref \<Rightarrow> string option) \<Rightarrow> Pool \<Rightarrow> string option \<times> Pool" where
  "PoolStart ctxErr spawn stop p =
     (if pl_started p then (None, p)
      else
        case ctxErr of
          Some err \<Rightarrow> (Some err, p)
        | None \<Rightarrow>
            start_loop spawn stop (nat (pl_cfgSlots p)) 0 (pl_next_chan p)
              (p\<lparr>pl_engines := [], pl_idle := Some (pl_next_chan p), pl_slots := Some Map.empty,
                pl_chans := (pl_chans p)(pl_next_chan p \<mapsto> []), pl_next_chan := Suc (pl_next_chan p)\<rparr>))"

definition PoolStop :: "string option \<Rightarrow> (engine_ref \<Rightarrow> string option) \<Rightarrow> Pool \<Rightarrow> string option \<times> Pool" where
  "PoolStop ctxErr stop p =
     (if \<not> pl_started p then (None, p)
      else
        case ctxErr of
          Some err \<Rightarrow> (Some err, p)
        | None \<Rightarrow>
            (case stopStartedEnginesLocked stop (pl_engines p) None (pl_heap p) of
               (err, heap) \<Rightarrow>
                 (err, p\<lparr>pl_heap := heap, pl_started := False, pl_engines := [], pl_idle := None,
                         pl_slots := None\<rparr>)))"

subsection \<open>Leases\<close>

text \<open>The lock region of \<open>acquire\<close> and \<open>tryAcquire\<close>; the channel they then receive from.\<close>

definition acquire_chan :: "Pool \<Rightarrow> EngineError + chan_ref" where
  "acquire_chan p =
     (if \<not> pl_started p then Inl PoolNotStarted
      else case pl_idle p of None \<Rightarrow> Inl PoolNotStarted | Some c \<Rightarrow> Inr c)"

definition receive :: "chan_ref \<Rightarrow> Pool \<Rightarrow> (engine_ref \<times> Pool) option" where
  "receive c p =
     (case pl_chans p c of
        None \<Rightarrow> None
      | Some [] \<Rightarrow> None
      | Some (e # es) \<Rightarrow> Some (e, p\<lparr>pl_chans := (pl_chans p)(c \<mapsto> es)\<rparr>))"

definition tryAcquire :: "Pool \<Rightarrow> (EngineError + engine_ref) \<times> Pool" where
  "tryAcquire p =
     (case acquire_chan p of
        Inl err \<Rightarrow> (Inl err, p)
      | Inr c \<Rightarrow>
          (case receive c p of None \<Rightarrow> (Inl ErrNoIdleEngine, p) | Some (e, p') \<Rightarrow> (Inr e, p')))"

definition slot_of :: "int \<Rightarrow> Pool \<Rightarrow> slotState" where
  "slot_of i p =
     (case pl_slots p of None \<Rightarrow> idle_slot | Some s \<Rightarrow> (case s i of None \<Rightarrow> idle_slot | Some st \<Rightarrow> st))"

text \<open>\<open>ensureSlotStateLocked\<close> followed by the writes through the pointer it returns.\<close>

definition set_slot :: "int \<Rightarrow> slotState \<Rightarrow> Pool \<Rightarrow> Pool" where
  "set_slot i st p =
     p\<lparr>pl_slots := Some ((case pl_slots p of None \<Rightarrow> Map.empty | Some s \<Rightarrow> s)(i \<mapsto> st))\<rparr>"

definition markLeased :: "int \<Rightarrow> int \<Rightarrow> Pool \<Rightarrow> Pool" where
  "markLeased i now p =
     set_slot i
       ((slot_of i p)\<lparr>sl_state := slotStateLeased, sl_operation := None, sl_requestID := [],
                     sl_leasedAt := Some now, sl_executingAt := None\<rparr>) p"

definition markExecuting :: "int \<Rightarrow> Request \<Rightarrow> int \<Rightarrow> Pool \<Rightarrow> Pool" where
  "markExecuting i req now p =
     set_slot i
       ((slot_of i p)\<lparr>sl_leasedAt := (if sl_leasedAt (slot_of i p) = None then Some now
                                     else sl_leasedAt (slot_of i p)),
                     sl_state := slotStateExecuting, sl_operation := Some (rq_Operation req),
                     sl_requestID := rq_RequestID req, sl_executingAt := Some now\<rparr>) p"

definition markIdleLocked :: "int \<Rightarrow> Pool \<Rightarrow> Pool" where
  "markIdleLocked i p =
     set_slot i
       ((slot_of i p)\<lparr>sl_state := slotStateIdle, sl_operation := None, sl_requestID := [],
                     sl_leasedAt := None, sl_executingAt := None\<rparr>) p"

text \<open>The lock region of \<open>release\<close>: the channel the engine then goes to, none when the pool is
  not started.\<close>

definition release_locked :: "int \<Rightarrow> Pool \<Rightarrow> chan_ref option \<times> Pool" where
  "release_locked i p =
     (if \<not> pl_started p then (None, p)
      else case pl_idle p of None \<Rightarrow> (None, p) | Some c \<Rightarrow> (Some c, markIdleLocked i p))"

text \<open>\<open>idle <- engine\<close>: \<open>None\<close> while the channel is full.\<close>

definition send :: "chan_ref \<Rightarrow> engine_ref \<Rightarrow> Pool \<Rightarrow> Pool option" where
  "send c e p =
     (case pl_chans p c of
        None \<Rightarrow> None
      | Some es \<Rightarrow>
          if int (length es) < pl_cfgSlots p then Some (p\<lparr>pl_chans := (pl_chans p)(c \<mapsto> es @ [e])\<rparr>)
          else None)"

record SlotSnapshot =
  ss_SlotID :: int
  ss_State :: SlotMode
  ss_Operation :: "Operation option"
  ss_RequestID :: string
  ss_HeldMS :: int
  ss_ExecutingMS :: int

definition elapsed_ms :: "int \<Rightarrow> int option \<Rightarrow> int" where
  "elapsed_ms now t = (case t of None \<Rightarrow> 0 | Some t \<Rightarrow> quot64 (time_sub now t) 1000000)"

definition Snapshot :: "int \<Rightarrow> Pool \<Rightarrow> SlotSnapshot list" where
  "Snapshot now p =
     map (\<lambda>i. case pl_slots p of
            None \<Rightarrow> \<lparr>ss_SlotID = i, ss_State = slotStateIdle, ss_Operation = None, ss_RequestID = [],
                     ss_HeldMS = 0, ss_ExecutingMS = 0\<rparr>
          | Some s \<Rightarrow>
              (case s i of
                 None \<Rightarrow> \<lparr>ss_SlotID = i, ss_State = slotStateIdle, ss_Operation = None,
                         ss_RequestID = [], ss_HeldMS = 0, ss_ExecutingMS = 0\<rparr>
               | Some st \<Rightarrow>
                   \<lparr>ss_SlotID = i, ss_State = sl_state st, ss_Operation = sl_operation st,
                    ss_RequestID = sl_requestID st, ss_HeldMS = elapsed_ms now (sl_leasedAt st),
                    ss_ExecutingMS = elapsed_ms now (sl_executingAt st)\<rparr>))
       (map int [0..<nat (pl_cfgSlots p)])"

end
