(* ===== verification/Pool_Steps.thy ===== *)
theory Pool_Steps
  imports Engine_Pool "HOL-Library.Multiset"
begin

text \<open>
  The pool under concurrency: the pool and the goroutines that use it, each at the point between
  two lock regions or channel operations where it stands. A lease is used by one goroutine, as
  every caller in the worker does: it calls and then releases. \<open>pool_step\<close> has one rule per lock
  region or channel operation. \<open>pool_ok\<close> is the invariant of all runs; \<open>quiet_ok\<close> is the stronger
  one of the runs that never restart the pool while a goroutine still uses it (the worker starts
  its pool once).
\<close>

datatype PoolActivity =
    Waiting chan_ref
  | Acquired engine_ref
  | Held engine_ref
  | Executing engine_ref Request
  | Sending chan_ref engine_ref

record PoolWorld =
  pw_pool :: Pool
  pw_active :: "PoolActivity multiset"

definition fresh_pool :: "int \<Rightarrow> PoolWorld" where
  "fresh_pool n =
     \<lparr>pw_pool = \<lparr>pl_cfgSlots = n, pl_started = False, pl_engines = [], pl_idle = None, pl_slots = None,
        pl_heap = Map.empty, pl_next = 0, pl_chans = Map.empty, pl_next_chan = 0\<rparr>,
      pw_active = {#}\<rparr>"

lemma NewPool_fresh: "NewPool n path = Inr p \<Longrightarrow> \<lparr>pw_pool = p, pw_active = {#}\<rparr> = fresh_pool n"
  by (auto simp: NewPool_def fresh_pool_def split: if_splits)

definition engine_id :: "engine_ref \<Rightarrow> Pool \<Rightarrow> int" where
  "engine_id e p = (case pl_heap p e of None \<Rightarrow> 0 | Some g \<Rightarrow> eg_id g)"

inductive pool_step :: "PoolWorld \<Rightarrow> PoolWorld \<Rightarrow> bool" where
  start: "PoolStart ctxErr spawn stop (pw_pool W) = (err, p) \<Longrightarrow> pool_step W (W\<lparr>pw_pool := p\<rparr>)"
| stop: "PoolStop ctxErr stop (pw_pool W) = (err, p) \<Longrightarrow> pool_step W (W\<lparr>pw_pool := p\<rparr>)"
| acquire:
    "acquire_chan (pw_pool W) = Inr c
     \<Longrightarrow> pool_step W (W\<lparr>pw_active := add_mset (Waiting c) (pw_active W)\<rparr>)"
| received:
    "pw_active W = add_mset (Waiting c) A \<Longrightarrow> receive c (pw_pool W) = Some (e, p)
     \<Longrightarrow> pool_step W (W\<lparr>pw_pool := p, pw_active := add_mset (Acquired e) A\<rparr>)"
| gave_up: "pw_active W = add_mset (Waiting c) A \<Longrightarrow> pool_step W (W\<lparr>pw_active := A\<rparr>)"
| leased:
    "pw_active W = add_mset (Acquired e) A
     \<Longrightarrow> pool_step W
           (W\<lparr>pw_pool := markLeased (engine_id e (pw_pool W)) now (pw_pool W),
             pw_active := add_mset (Held e) A\<rparr>)"
| call:
    "pw_active W = add_mset a A \<Longrightarrow> a = Acquired e \<or> a = Held e
     \<Longrightarrow> pool_step W
           (W\<lparr>pw_pool := markExecuting (engine_id e (pw_pool W)) req now (pw_pool W),
             pw_active := add_mset (Executing e req) A\<rparr>)"
| returned:
    "pw_active W = add_mset (Executing e req) A
     \<Longrightarrow> pool_step W
           (W\<lparr>pw_pool := markLeased (engine_id e (pw_pool W)) now (pw_pool W),
             pw_active := add_mset (Held e) A\<rparr>)"
| release:
    "pw_active W = add_mset (Held e) A
     \<Longrightarrow> release_locked (engine_id e (pw_pool W)) (pw_pool W) = (Some c, p)
     \<Longrightarrow> pool_step W (W\<lparr>pw_pool := p, pw_active := add_mset (Sending c e) A\<rparr>)"
| abandoned:
    "pw_active W = add_mset (Held e) A
     \<Longrightarrow> release_locked (engine_id e (pw_pool W)) (pw_pool W) = (None, p)
     \<Longrightarrow> pool_step W (W\<lparr>pw_pool := p, pw_active := A\<rparr>)"
| sent:
    "pw_active W = add_mset (Sending c e) A \<Longrightarrow> send c e (pw_pool W) = Some p
     \<Longrightarrow> pool_step W (W\<lparr>pw_pool := p, pw_active := A\<rparr>)"

subsection \<open>Where an engine is\<close>

fun holds :: "PoolActivity \<Rightarrow> engine_ref multiset" where
  "holds (Waiting c) = {#}"
| "holds (Acquired e) = {#e#}"
| "holds (Held e) = {#e#}"
| "holds (Executing e req) = {#e#}"
| "holds (Sending c e) = {#e#}"

definition in_hand :: "PoolActivity multiset \<Rightarrow> engine_ref multiset" where
  "in_hand A = \<Sum>\<^sub># (image_mset holds A)"

lemma in_hand_simps [simp]: "in_hand {#} = {#}" "in_hand (add_mset a A) = holds a + in_hand A"
  by (simp_all add: in_hand_def)

definition queued :: "engine_ref \<Rightarrow> Pool \<Rightarrow> int" where
  "queued e p = msum (\<lambda>es. int (count_list es e)) (pl_chans p)"

definition places :: "engine_ref \<Rightarrow> PoolWorld \<Rightarrow> int" where
  "places e W = queued e (pw_pool W) + int (count (in_hand (pw_active W)) e)"

definition chans_ok :: "Pool \<Rightarrow> bool" where
  "chans_ok p \<longleftrightarrow> finite (dom (pl_chans p)) \<and> (\<forall>c\<in>dom (pl_chans p). c < pl_next_chan p)
     \<and> (\<forall>e. pl_heap p e = None \<longleftrightarrow> pl_next p \<le> e)"

text \<open>The engines of a started pool: numbered from 0, running, and each idle or in hand.\<close>

definition engines_ok :: "PoolActivity multiset \<Rightarrow> Pool \<Rightarrow> bool" where
  "engines_ok A p \<longleftrightarrow>
     (\<exists>c es. pl_idle p = Some c \<and> pl_chans p c = Some es
       \<and> map (pl_heap p) (pl_engines p)
           = map (\<lambda>i. Some \<lparr>eg_id = int i, eg_started = True\<rparr>) [0..<nat (pl_cfgSlots p)]
       \<and> (\<forall>e\<in>set (pl_engines p). count_list es e + count (in_hand A) e = 1)
       \<and> (\<forall>c' e. Sending c' e \<in># A \<longrightarrow> e \<in> set (pl_engines p) \<longrightarrow> c' = c))"

definition pool_ok :: "PoolWorld \<Rightarrow> bool" where
  "pool_ok W \<longleftrightarrow>
     chans_ok (pw_pool W)
     \<and> (\<forall>e. places e W \<le> 1) \<and> (\<forall>e. pl_next (pw_pool W) \<le> e \<longrightarrow> places e W = 0)
     \<and> (\<forall>c e. Sending c e \<in># pw_active W \<longrightarrow> c \<in> dom (pl_chans (pw_pool W)))
     \<and> (pl_started (pw_pool W) \<longrightarrow> engines_ok (pw_active W) (pw_pool W))"

lemma pool_ok_fresh: "pool_ok (fresh_pool n)"
  by (simp add: pool_ok_def fresh_pool_def chans_ok_def places_def queued_def)

lemma queued_nonneg: "0 \<le> queued e p"
  unfolding queued_def by (rule msum_nonneg) simp

lemma queued_ge: "chans_ok p \<Longrightarrow> pl_chans p c = Some es \<Longrightarrow> int (count_list es e) \<le> queued e p"
  unfolding queued_def chans_ok_def by (rule msum_ge_entry) auto

lemma holds_le: "a \<in># A \<Longrightarrow> count (holds a) e \<le> count (in_hand A) e"
  by (auto dest!: multi_member_split)

lemma queued_upd:
  assumes "chans_ok p" and "pl_chans q = (pl_chans p)(c \<mapsto> es')"
  shows "queued e q = queued e p + int (count_list es' e)
    - (case pl_chans p c of None \<Rightarrow> 0 | Some es \<Rightarrow> int (count_list es e))"
  using assms by (simp add: queued_def msum_upd chans_ok_def at_key_def)

lemma queued_two:
  assumes "chans_ok p" and "pl_chans p c = Some es" and "pl_chans p d = Some fs" and "c \<noteq> d"
  shows "int (count_list es e) + int (count_list fs e) \<le> queued e p"
proof -
  let ?q = "p\<lparr>pl_chans := (pl_chans p)(c \<mapsto> [])\<rparr>"
  have "chans_ok ?q" using assms(1,2) by (auto simp: chans_ok_def)
  from queued_ge [OF this, of d fs e] assms queued_upd [OF assms(1), of ?q c "[]" e] show ?thesis by simp
qed

lemma engine_distinct:
  assumes "map (pl_heap p) (pl_engines p) = map (\<lambda>i. Some \<lparr>eg_id = int i, eg_started = True\<rparr>) [0..<n]"
  shows "distinct (pl_engines p)" and "length (pl_engines p) = n"
    and "e \<in> set (pl_engines p) \<Longrightarrow> f \<in> set (pl_engines p) \<Longrightarrow> engine_id e p = engine_id f p \<Longrightarrow> e = f"
    and "e \<in> set (pl_engines p) \<Longrightarrow> \<exists>i<n. pl_heap p e = Some \<lparr>eg_id = int i, eg_started = True\<rparr>"
proof -
  have len: "length (pl_engines p) = n" using arg_cong [OF assms, of length] by simp
  have nth: "pl_heap p (pl_engines p ! i) = Some \<lparr>eg_id = int i, eg_started = True\<rparr>" if "i < n" for i
    using arg_cong [OF assms, of "\<lambda>xs. xs ! i"] that len by simp
  show "distinct (pl_engines p)" unfolding distinct_conv_nth
    using nth len by (metis Engine.select_convs(1) int_int_eq option.inject)
  show "length (pl_engines p) = n" by (rule len)
  show "e = f" if "e \<in> set (pl_engines p)" "f \<in> set (pl_engines p)" "engine_id e p = engine_id f p"
    using that nth len by (auto simp: in_set_conv_nth engine_id_def)
  show "\<exists>i<n. pl_heap p e = Some \<lparr>eg_id = int i, eg_started = True\<rparr>" if "e \<in> set (pl_engines p)"
    using that nth len by (metis in_set_conv_nth)
qed

end
