(* ===== verification/Pool_Safety.thy ===== *)
theory Pool_Safety
  imports Pool_Steps
begin

text \<open>
  Every step of the pool preserves \<open>pool_ok\<close>: an engine is in at most one place, and as long as
  the pool is started each of its engines is in exactly one.
\<close>

subsection \<open>Writes that do not move an engine\<close>

lemma set_slot_simps [simp]:
  "pl_chans (set_slot i st p) = pl_chans p" "pl_heap (set_slot i st p) = pl_heap p"
  "pl_next (set_slot i st p) = pl_next p" "pl_next_chan (set_slot i st p) = pl_next_chan p"
  "pl_started (set_slot i st p) = pl_started p" "pl_idle (set_slot i st p) = pl_idle p"
  "pl_engines (set_slot i st p) = pl_engines p" "pl_cfgSlots (set_slot i st p) = pl_cfgSlots p"
  "queued e (set_slot i st p) = queued e p"
  by (simp_all add: set_slot_def queued_def)

lemma set_slot_ok [simp]:
  "chans_ok (set_slot i st p) = chans_ok p" "engines_ok A (set_slot i st p) = engines_ok A p"
  by (simp_all add: chans_ok_def engines_ok_def)

lemma pool_ok_slot:
  assumes "pool_ok W" and "pw_active W = add_mset a A" and "holds b = holds a"
    and "\<And>c e. b = Sending c e \<Longrightarrow> c \<in> dom (pl_chans (pw_pool W)) \<and> pl_idle (pw_pool W) = Some c"
  shows "pool_ok (W\<lparr>pw_pool := set_slot i st (pw_pool W), pw_active := add_mset b A\<rparr>)"
proof -
  have "engines_ok (add_mset b A) (pw_pool W)" if "engines_ok (add_mset a A) (pw_pool W)"
    using that assms(3,4) by (fastforce simp: engines_ok_def)
  with assms show ?thesis by (auto simp: pool_ok_def places_def)
qed

lemma pool_ok_drop:
  assumes "pool_ok W" and "pw_active W = add_mset a A" and "holds a = {#}"
  shows "pool_ok (W\<lparr>pw_active := A\<rparr>)"
  using assms by (auto simp: pool_ok_def places_def engines_ok_def)

subsection \<open>Starting and stopping\<close>

lemma stop_heap_None: "snd (stopStartedEnginesLocked stop es err heap) e = None \<longleftrightarrow> heap e = None"
proof (induction es arbitrary: err heap)
  case (Cons a es)
  then show ?case by (cases "heap a") (simp_all del: fun_upd_apply, simp)
qed simp

definition filling :: "PoolActivity multiset \<Rightarrow> chan_ref \<Rightarrow> nat \<Rightarrow> Pool \<Rightarrow> bool" where
  "filling A c k p \<longleftrightarrow>
     chans_ok p \<and> pl_idle p = Some c \<and> c < pl_next_chan p \<and> pl_chans p c = Some (pl_engines p)
     \<and> map (pl_heap p) (pl_engines p) = map (\<lambda>i. Some \<lparr>eg_id = int i, eg_started = True\<rparr>) [0..<k]
     \<and> (\<forall>e. queued e p + int (count (in_hand A) e) \<le> 1)
     \<and> (\<forall>e. pl_next p \<le> e \<longrightarrow> queued e p + int (count (in_hand A) e) = 0)"

lemma add_engine_simps [simp]:
  "pl_idle (add_engine i c p) = pl_idle p" "pl_cfgSlots (add_engine i c p) = pl_cfgSlots p"
  "pl_started (add_engine i c p) = pl_started p" "pl_next_chan (add_engine i c p) = pl_next_chan p"
  "pl_engines (add_engine i c p) = pl_engines p @ [pl_next p]" "pl_next (add_engine i c p) = Suc (pl_next p)"
  "pl_heap (add_engine i c p) = (pl_heap p)(pl_next p \<mapsto> \<lparr>eg_id = i, eg_started = True\<rparr>)"
  by (simp_all add: add_engine_def)

lemma add_engine_filling:
  assumes "filling A c k p"
  shows "filling A c (Suc k) (add_engine (int k) c p)"
    and "dom (pl_chans (add_engine (int k) c p)) = dom (pl_chans p)"
proof -
  let ?q = "add_engine (int k) c p"
  from assms have ok: "chans_ok p" and c: "pl_chans p c = Some (pl_engines p)" "c < pl_next_chan p"
    and heap: "map (pl_heap p) (pl_engines p) = map (\<lambda>i. Some \<lparr>eg_id = int i, eg_started = True\<rparr>) [0..<k]"
    by (auto simp: filling_def)
  have ch: "pl_chans ?q = (pl_chans p)(c \<mapsto> pl_engines p @ [pl_next p])" using c by (simp add: add_engine_def)
  then show dom: "dom (pl_chans ?q) = dom (pl_chans p)" using c by auto
  have q: "queued e ?q = queued e p + (if e = pl_next p then 1 else 0)" for e
    using queued_upd [OF ok ch, of e] c by simp
  have "pl_next p \<notin> set (pl_engines p)"
    using engine_distinct(4) [OF heap, of "pl_next p"] ok unfolding chans_ok_def by (metis le_refl option.distinct(1))
  then have "map (pl_heap ?q) (pl_engines p) = map (pl_heap p) (pl_engines p)" by (auto intro!: map_cong)
  moreover have "chans_ok ?q" using ok c dom by (auto simp: chans_ok_def)
  ultimately show "filling A c (Suc k) ?q"
    using assms heap ch q by (auto simp: filling_def)
qed

lemma start_loop_filling:
  assumes "start_loop spawn stop n (int k) c p = (err, p')" and "filling A c k p"
  shows "chans_ok p' \<and> (\<forall>e. queued e p' + int (count (in_hand A) e) \<le> 1)
    \<and> (\<forall>e. pl_next p' \<le> e \<longrightarrow> queued e p' + int (count (in_hand A) e) = 0)
    \<and> dom (pl_chans p') = dom (pl_chans p) \<and> pl_cfgSlots p' = pl_cfgSlots p
    \<and> (if err = None then pl_started p' \<and> filling A c (k + n) p' else pl_started p' = pl_started p)"
  using assms
proof (induction n arbitrary: k p)
  case 0
  then show ?case by (auto simp: filling_def chans_ok_def queued_def)
next
  case (Suc n)
  show ?case
  proof (cases "spawn (int k)")
    case None
    with Suc.prems have "start_loop spawn stop n (int (Suc k)) c (add_engine (int k) c p) = (err, p')"
      by (simp add: add.commute)
    from Suc.IH [OF this add_engine_filling(1) [OF Suc.prems(2)]] add_engine_filling(2) [OF Suc.prems(2)]
    show ?thesis unfolding add_engine_simps add_Suc add_Suc_right by blast
  next
    case (Some e)
    with Suc.prems(1) have p': "err = Some e"
      "p' = p\<lparr>pl_heap := snd (stopStartedEnginesLocked stop (pl_engines p) None (pl_heap p))\<rparr>" by simp_all
    with Suc.prems(2) p' show ?thesis by (auto simp: filling_def chans_ok_def queued_def stop_heap_None)
  qed
qed

lemma filling_engines_ok:
  assumes "filling A c (nat (pl_cfgSlots p)) p"
  shows "engines_ok A p"
proof -
  from assms have c: "pl_chans p c = Some (pl_engines p)" and ok: "chans_ok p"
    and heap: "map (pl_heap p) (pl_engines p)
      = map (\<lambda>i. Some \<lparr>eg_id = int i, eg_started = True\<rparr>) [0..<nat (pl_cfgSlots p)]"
    by (auto simp: filling_def)
  have one: "count_list (pl_engines p) e + count (in_hand A) e = 1 \<and> count (in_hand A) e = 0" if "e \<in> set (pl_engines p)" for e
  proof -
    have "0 < count_list (pl_engines p) e" using that by (metis count_list_0_iff gr0I)
    moreover have "int (count_list (pl_engines p) e) + int (count (in_hand A) e) \<le> 1"
      using queued_ge [OF ok c, of e] assms unfolding filling_def
      by (meson add_right_mono order_trans)
    ultimately show ?thesis by linarith
  qed
  have "e \<notin> set (pl_engines p)" if "Sending c' e \<in># A" for c' e
  proof -
    have "e \<in># in_hand A" using holds_le [OF that, of e] by simp
    with one [of e] show ?thesis by (metis count_eq_zero_iff)
  qed
  moreover have "count_list (pl_engines p) e + count (in_hand A) e = 1" if "e \<in> set (pl_engines p)" for e
    using one [OF that] by blast
  ultimately show ?thesis using assms c heap unfolding engines_ok_def filling_def by blast
qed

lemma start_filling:
  assumes "pool_ok W" and "p = pw_pool W"
  shows "filling (pw_active W) (pl_next_chan p) 0
    (p\<lparr>pl_engines := [], pl_idle := Some (pl_next_chan p), pl_slots := s,
      pl_chans := (pl_chans p)(pl_next_chan p \<mapsto> []), pl_next_chan := Suc (pl_next_chan p)\<rparr>)" (is "filling _ _ _ ?q")
proof -
  have ok: "chans_ok p" using assms by (simp add: pool_ok_def)
  then have new: "pl_chans p (pl_next_chan p) = None" by (auto simp: chans_ok_def)
  have "queued e ?q = queued e p" for e
    using queued_upd [OF ok, of ?q "pl_next_chan p" "[]" e] new by simp
  moreover have "chans_ok ?q" using ok by (auto simp: chans_ok_def less_SucI)
  ultimately show ?thesis using assms by (auto simp: filling_def pool_ok_def places_def)
qed

lemma PoolStart_ok:
  assumes "pool_ok W" and "PoolStart ctxErr spawn stop (pw_pool W) = (err, p')"
  shows "pool_ok (W\<lparr>pw_pool := p'\<rparr>)"
proof (cases "pl_started (pw_pool W) \<or> ctxErr \<noteq> None")
  case True
  with assms(2) have "p' = pw_pool W" by (auto simp: PoolStart_def split: option.splits if_splits)
  with assms(1) show ?thesis by simp
next
  case False
  let ?p = "pw_pool W"
  let ?q = "?p\<lparr>pl_engines := [], pl_idle := Some (pl_next_chan ?p), pl_slots := Some Map.empty,
      pl_chans := (pl_chans ?p)(pl_next_chan ?p \<mapsto> []), pl_next_chan := Suc (pl_next_chan ?p)\<rparr>"
  from False assms(2) have run: "start_loop spawn stop (nat (pl_cfgSlots ?p)) (int 0) (pl_next_chan ?p) ?q = (err, p')"
    by (simp add: PoolStart_def)
  note L = start_loop_filling [OF run start_filling [OF assms(1) refl]]
  have "pl_started p' \<longrightarrow> engines_ok (pw_active W) p'"
  proof
    assume "pl_started p'"
    with L False have "filling (pw_active W) (pl_next_chan ?p) (0 + nat (pl_cfgSlots p')) p'"
      by (auto split: if_splits)
    then show "engines_ok (pw_active W) p'" by (intro filling_engines_ok) simp
  qed
  with L assms(1) show ?thesis by (auto simp: pool_ok_def places_def dom_def)
qed

lemma PoolStop_ok:
  assumes "pool_ok W" and "PoolStop ctxErr stop (pw_pool W) = (err, p')"
  shows "pool_ok (W\<lparr>pw_pool := p'\<rparr>)"
proof (cases "pl_started (pw_pool W) \<and> ctxErr = None")
  case False
  with assms(2) have "p' = pw_pool W" by (auto simp: PoolStop_def split: option.splits if_splits)
  with assms(1) show ?thesis by simp
next
  case True
  obtain e heap where h: "stopStartedEnginesLocked stop (pl_engines (pw_pool W)) None (pl_heap (pw_pool W)) = (e, heap)"
    by (metis prod.exhaust)
  have "heap e' = None \<longleftrightarrow> pl_heap (pw_pool W) e' = None" for e'
    using stop_heap_None [of stop "pl_engines (pw_pool W)" None "pl_heap (pw_pool W)" e'] h by simp
  with True h assms show ?thesis
    by (auto simp: PoolStop_def pool_ok_def places_def queued_def chans_ok_def)
qed

subsection \<open>Moving an engine\<close>

lemma pool_okI:
  assumes "pool_ok W" and "chans_ok p" and "pl_next p = pl_next (pw_pool W)"
    and "\<And>e. places e \<lparr>pw_pool = p, pw_active = A\<rparr> \<le> places e W"
    and "\<And>c e. Sending c e \<in># A \<Longrightarrow> c \<in> dom (pl_chans p)" and "pl_started p \<Longrightarrow> engines_ok A p"
  shows "pool_ok (W\<lparr>pw_pool := p, pw_active := A\<rparr>)"
proof -
  have "0 \<le> places e \<lparr>pw_pool = p, pw_active = A\<rparr>" for e by (simp add: places_def queued_nonneg)
  then have "places e (W\<lparr>pw_pool := p, pw_active := A\<rparr>) \<in> {0..places e W}" for e
    using assms(4) [of e] by (simp add: places_def)
  note le = this [unfolded atLeastAtMost_iff]
  have "\<forall>e. places e W \<le> 1" "\<forall>e\<ge>pl_next p. places e W = 0" using assms(1,3) by (simp_all add: pool_ok_def)
  with le have "\<forall>e. places e (W\<lparr>pw_pool := p, pw_active := A\<rparr>) \<le> 1"
    "\<forall>e\<ge>pl_next p. places e (W\<lparr>pw_pool := p, pw_active := A\<rparr>) = 0"
    by (meson order_trans, metis order_antisym)
  with assms(2,5,6) show ?thesis by (simp add: pool_ok_def)
qed

lemma receive_ok:
  assumes "pool_ok W" and "pw_active W = add_mset (Waiting c) A" and "receive c (pw_pool W) = Some (e, p)"
  shows "pool_ok (W\<lparr>pw_pool := p, pw_active := add_mset (Acquired e) A\<rparr>)"
proof -
  from assms(3) obtain es where es: "pl_chans (pw_pool W) c = Some (e # es)"
    and p: "p = (pw_pool W)\<lparr>pl_chans := (pl_chans (pw_pool W))(c \<mapsto> es)\<rparr>"
    by (auto simp: receive_def split: option.splits list.splits)
  have ok: "chans_ok (pw_pool W)" using assms(1) by (simp add: pool_ok_def)
  have q: "queued e' p = queued e' (pw_pool W) - (if e' = e then 1 else 0)" for e'
    using queued_upd [OF ok, of p c es e'] es p by simp
  have "engines_ok (add_mset (Acquired e) A) p" if "engines_ok (pw_active W) (pw_pool W)"
  proof -
    from that obtain d fs where d: "pl_idle (pw_pool W) = Some d" "pl_chans (pw_pool W) d = Some fs"
      and one: "\<forall>e\<in>set (pl_engines (pw_pool W)). count_list fs e + count (in_hand (pw_active W)) e = 1"
      by (auto simp: engines_ok_def)
    have "e \<notin> set (pl_engines (pw_pool W))" if "d \<noteq> c"
    proof
      assume "e \<in> set (pl_engines (pw_pool W))"
      with one have "count_list fs e + count (in_hand (pw_active W)) e = 1" by blast
      moreover have "places e W \<le> 1" using assms(1) by (simp add: pool_ok_def)
      ultimately show False
        using queued_two [OF ok es d(2), of e] that by (simp add: places_def)
    qed
    with that es p d assms(2) show ?thesis by (cases "d = c") (auto simp: engines_ok_def)
  qed
  moreover have "chans_ok p" using ok es p by (auto simp: chans_ok_def)
  ultimately show ?thesis
    using assms(1,2) q p by (intro pool_okI [OF assms(1)]) (auto simp: pool_ok_def places_def)
qed

lemma send_ok:
  assumes "pool_ok W" and "pw_active W = add_mset (Sending c e) A" and "send c e (pw_pool W) = Some p"
  shows "pool_ok (W\<lparr>pw_pool := p, pw_active := A\<rparr>)"
proof -
  from assms(3) obtain es where es: "pl_chans (pw_pool W) c = Some es"
    and p: "p = (pw_pool W)\<lparr>pl_chans := (pl_chans (pw_pool W))(c \<mapsto> es @ [e])\<rparr>"
    by (auto simp: send_def split: option.splits if_splits)
  have ok: "chans_ok (pw_pool W)" using assms(1) by (simp add: pool_ok_def)
  have q: "queued e' p = queued e' (pw_pool W) + (if e' = e then 1 else 0)" for e'
    using queued_upd [OF ok, of p c "es @ [e]" e'] es p by simp
  have "engines_ok A p" if E: "engines_ok (pw_active W) (pw_pool W)"
  proof -
    from E obtain d fs where d: "pl_idle (pw_pool W) = Some d" "pl_chans (pw_pool W) d = Some fs"
      and heap: "map (pl_heap (pw_pool W)) (pl_engines (pw_pool W))
        = map (\<lambda>i. Some \<lparr>eg_id = int i, eg_started = True\<rparr>) [0..<nat (pl_cfgSlots (pw_pool W))]"
      and one: "\<forall>f\<in>set (pl_engines (pw_pool W)). count_list fs f + count (in_hand (pw_active W)) f = 1"
      and snd: "\<forall>c' f. Sending c' f \<in># pw_active W \<longrightarrow> f \<in> set (pl_engines (pw_pool W)) \<longrightarrow> c' = d"
      unfolding engines_ok_def by blast
    let ?fs = "if c = d then es @ [e] else fs"
    have "pl_chans p d = Some ?fs" using p d by simp
    moreover have "count_list ?fs f + count (in_hand A) f = 1" if "f \<in> set (pl_engines (pw_pool W))" for f
      using one that snd assms(2) es d(2) by (cases "f = e") auto
    moreover have "\<forall>c' f. Sending c' f \<in># A \<longrightarrow> f \<in> set (pl_engines (pw_pool W)) \<longrightarrow> c' = d"
      using snd assms(2) by simp
    ultimately show ?thesis using p d(1) heap unfolding engines_ok_def by auto
  qed
  moreover have "chans_ok p" using ok es p by (auto simp: chans_ok_def)
  ultimately show ?thesis
    using assms(1,2) q p by (intro pool_okI [OF assms(1)]) (auto simp: pool_ok_def places_def)
qed

lemma release_locked_cases:
  "release_locked i p = (Some c, q) \<Longrightarrow> pl_started p \<and> pl_idle p = Some c \<and> (\<exists>st. q = set_slot i st p)"
  "release_locked i p = (None, q) \<Longrightarrow> q = p \<and> (pl_started p \<longrightarrow> pl_idle p = None)"
  by (auto simp: release_locked_def markIdleLocked_def split: if_splits option.splits)

lemma pool_step_ok:
  assumes "pool_ok W" and "pool_step W W'"
  shows "pool_ok W'"
  using assms(2)
proof cases
  case (start ctxErr spawn stop err p)
  then show ?thesis using PoolStart_ok [OF assms(1)] by blast
next
  case (stop ctxErr stop err p)
  then show ?thesis using PoolStop_ok [OF assms(1)] by blast
next
  case (acquire c)
  with assms(1) show ?thesis by (auto simp: pool_ok_def places_def engines_ok_def)
next
  case (received c A e p)
  then show ?thesis using receive_ok [OF assms(1)] by blast
next
  case (gave_up c A)
  then show ?thesis using pool_ok_drop [OF assms(1)] by simp
next
  case (leased e A now)
  then show ?thesis using pool_ok_slot [OF assms(1), of _ A "Held e"] by (simp add: markLeased_def)
next
  case (call a A e req now)
  then show ?thesis using pool_ok_slot [OF assms(1), of _ A "Executing e req"] by (auto simp: markExecuting_def)
next
  case (returned e req A now)
  then show ?thesis using pool_ok_slot [OF assms(1), of _ A "Held e"] by (simp add: markLeased_def)
next
  case (release e A c p)
  from release_locked_cases(1) [OF release(3)] obtain st where st: "pl_started (pw_pool W)"
    "pl_idle (pw_pool W) = Some c" "p = set_slot (engine_id e (pw_pool W)) st (pw_pool W)" by blast
  with assms(1) have "c \<in> dom (pl_chans (pw_pool W))" by (auto simp: pool_ok_def engines_ok_def)
  with st release show ?thesis using pool_ok_slot [OF assms(1), of _ A "Sending c e"] by simp
next
  case (abandoned e A p)
  from release_locked_cases(2) [OF abandoned(3)] have p: "p = pw_pool W"
    and none: "pl_started (pw_pool W) \<longrightarrow> pl_idle (pw_pool W) = None" by auto
  from assms(1) none have "\<not> pl_started p" using p by (auto simp: pool_ok_def engines_ok_def)
  with p abandoned(2) assms(1) show ?thesis unfolding abandoned(1)
    by (intro pool_okI [OF assms(1)]) (auto simp: pool_ok_def places_def)
next
  case (sent c e A p)
  then show ?thesis using send_ok [OF assms(1)] by blast
qed

end
