(* ===== verification/Pool_Spec.thy ===== *)
theory Pool_Spec
  imports Pool_Safety
begin

text \<open>
  What the engine pool promises: an engine is never in two hands, none is lost, a release never
  blocks, and the slot snapshot tells the truth, as long as the pool is not restarted under a lease;
  what happens when it is; and that an engine's answer is the answer to its request.
\<close>

subsection \<open>The slots shown\<close>

fun slot_shows :: "PoolActivity \<Rightarrow> slotState \<Rightarrow> bool" where
  "slot_shows (Waiting c) st = True"
| "slot_shows (Acquired e) st = (st = idle_slot)"
| "slot_shows (Held e) st = (sl_state st = slotStateLeased \<and> sl_operation st = None \<and> sl_requestID st = [])"
| "slot_shows (Executing e req) st =
     (sl_state st = slotStateExecuting \<and> sl_operation st = Some (rq_Operation req) \<and> sl_requestID st = rq_RequestID req)"
| "slot_shows (Sending c e) st = (st = idle_slot)"

definition current_ok :: "PoolActivity multiset \<Rightarrow> Pool \<Rightarrow> bool" where
  "current_ok A p \<longleftrightarrow>
     (\<exists>c es. pl_idle p = Some c \<and> pl_chans p c = Some es \<and> set es \<subseteq> set (pl_engines p)
       \<and> (\<forall>e\<in>set es. slot_of (engine_id e p) p = idle_slot))
     \<and> (\<forall>c. Waiting c \<in># A \<longrightarrow> pl_idle p = Some c)
     \<and> (\<forall>e. e \<in># in_hand A \<longrightarrow> e \<in> set (pl_engines p))
     \<and> (\<forall>a e. a \<in># A \<longrightarrow> e \<in># holds a \<longrightarrow> slot_shows a (slot_of (engine_id e p) p))"

lemma current_okD:
  assumes "current_ok A p"
  shows "pl_idle p = Some c \<Longrightarrow> pl_chans p c = Some es \<Longrightarrow> e \<in> set es \<Longrightarrow>
      e \<in> set (pl_engines p) \<and> slot_of (engine_id e p) p = idle_slot"
    and "Waiting c \<in># A \<Longrightarrow> pl_idle p = Some c"
    and "e \<in># in_hand A \<Longrightarrow> e \<in> set (pl_engines p)"
    and "a \<in># A \<Longrightarrow> e \<in># holds a \<Longrightarrow> slot_shows a (slot_of (engine_id e p) p)"
  using assms unfolding current_ok_def by auto

lemma current_ok_drop: "current_ok (add_mset a A) p \<Longrightarrow> holds a = {#} \<Longrightarrow> current_ok A p"
  unfolding current_ok_def by (intro conjI allI impI) (auto simp del: set_mset_add_mset_insert, simp_all)

definition quiet_step :: "PoolWorld \<Rightarrow> PoolWorld \<Rightarrow> bool" where
  "quiet_step W W' \<longleftrightarrow> pool_step W W'
     \<and> (pl_started (pw_pool W') \<and> \<not> pl_started (pw_pool W) \<longrightarrow> pw_active W = {#})"

definition quiet_ok :: "PoolWorld \<Rightarrow> bool" where
  "quiet_ok W \<longleftrightarrow> pool_ok W \<and> (pl_started (pw_pool W) \<longrightarrow> current_ok (pw_active W) (pw_pool W))"

lemma slot_of_set_slot [simp]: "slot_of j (set_slot i st p) = (if j = i then st else slot_of j p)"
  by (auto simp: slot_of_def set_slot_def split: option.splits)

lemma engine_id_set_slot [simp]: "engine_id e (set_slot i st p) = engine_id e p"
  by (simp add: engine_id_def)

lemma in_hand_mem: "e \<in># in_hand A \<longleftrightarrow> (\<exists>a. a \<in># A \<and> e \<in># holds a)"
  by (auto simp: in_hand_def)

lemma pool_ok_engines:
  assumes "pool_ok W" and "pl_started (pw_pool W)"
  shows "\<exists>c es. pl_idle (pw_pool W) = Some c \<and> pl_chans (pw_pool W) c = Some es
      \<and> (\<forall>e\<in>set (pl_engines (pw_pool W)). count_list es e + count (in_hand (pw_active W)) e = 1)"
    and "e \<in> set (pl_engines (pw_pool W)) \<Longrightarrow> f \<in> set (pl_engines (pw_pool W))
      \<Longrightarrow> engine_id e (pw_pool W) = engine_id f (pw_pool W) \<Longrightarrow> e = f"
    and "distinct (pl_engines (pw_pool W))"
    and "length (pl_engines (pw_pool W)) = nat (pl_cfgSlots (pw_pool W))"
    and "e \<in> set (pl_engines (pw_pool W)) \<Longrightarrow>
      \<exists>i<nat (pl_cfgSlots (pw_pool W)). pl_heap (pw_pool W) e = Some \<lparr>eg_id = int i, eg_started = True\<rparr>"
proof -
  let ?p = "pw_pool W"
  from assms have E: "engines_ok (pw_active W) ?p" by (simp add: pool_ok_def)
  then have heap: "map (pl_heap ?p) (pl_engines ?p)
      = map (\<lambda>i. Some \<lparr>eg_id = int i, eg_started = True\<rparr>) [0..<nat (pl_cfgSlots ?p)]"
    unfolding engines_ok_def by blast
  show "\<exists>c es. pl_idle ?p = Some c \<and> pl_chans ?p c = Some es
      \<and> (\<forall>e\<in>set (pl_engines ?p). count_list es e + count (in_hand (pw_active W)) e = 1)"
    using E unfolding engines_ok_def by blast
  show "e = f" if "e \<in> set (pl_engines ?p)" "f \<in> set (pl_engines ?p)" "engine_id e ?p = engine_id f ?p"
    using engine_distinct(3) [OF heap that] .
  show "distinct (pl_engines ?p)" and "length (pl_engines ?p) = nat (pl_cfgSlots ?p)"
    using engine_distinct(1,2) [OF heap] .
  show "\<exists>i<nat (pl_cfgSlots ?p). pl_heap ?p e = Some \<lparr>eg_id = int i, eg_started = True\<rparr>"
    if "e \<in> set (pl_engines ?p)" using engine_distinct(4) [OF heap that] .
qed

lemma slot_of_pl_update [simp]:
  "slot_of i (p\<lparr>pl_heap := h\<rparr>) = slot_of i p" "slot_of i (p\<lparr>pl_started := b\<rparr>) = slot_of i p"
  "slot_of i (p\<lparr>pl_chans := ch\<rparr>) = slot_of i p"
  by (simp_all add: slot_of_def)

text \<open>A write to the slot of an engine in hand disturbs no other slot.\<close>

lemma current_ok_slot:
  assumes ok: "pool_ok W" and st: "pl_started (pw_pool W)" and act: "pw_active W = add_mset a A"
    and cur: "current_ok (add_mset a A) (pw_pool W)" and a: "holds a = {#e#}" and b: "holds b = {#e#}"
    and vis: "slot_shows b s"
  shows "current_ok (add_mset b A) (set_slot (engine_id e (pw_pool W)) s (pw_pool W))"
proof -
  note E = pool_ok_engines [OF ok st]
  let ?p = "pw_pool W"
  from cur obtain c es where c: "pl_idle ?p = Some c" "pl_chans ?p c = Some es" "set es \<subseteq> set (pl_engines ?p)"
    "\<forall>f\<in>set es. slot_of (engine_id f ?p) ?p = idle_slot"
    and wait: "\<forall>c. Waiting c \<in># add_mset a A \<longrightarrow> pl_idle ?p = Some c"
    and hand: "\<forall>f. f \<in># in_hand (add_mset a A) \<longrightarrow> f \<in> set (pl_engines ?p)"
    and acts: "\<forall>x f. x \<in># add_mset a A \<longrightarrow> f \<in># holds x \<longrightarrow> slot_shows x (slot_of (engine_id f ?p) ?p)"
    unfolding current_ok_def by blast
  have e: "e \<in> set (pl_engines ?p)" using hand a by simp
  have one: "count_list es e + Suc (count (in_hand A) e) = 1"
    using E(1) e c(1,2) act a by auto
  then have "e \<notin> set es" by (simp add: count_list_0_iff)
  with c(3,4) E(2) e have idle: "\<forall>f\<in>set es. slot_of (engine_id f ?p) (set_slot (engine_id e ?p) s ?p) = idle_slot"
    by auto
  have "e \<notin># in_hand A" using one by (simp add: not_in_iff)
  then have "f \<noteq> e" if "x \<in># A" "f \<in># holds x" for x f using that by (auto simp: in_hand_mem)
  then have "engine_id f ?p \<noteq> engine_id e ?p" if "x \<in># A" "f \<in># holds x" for x f
    using that hand e E(2) by (fastforce simp: in_hand_mem)
  with acts vis b have "\<forall>x f. x \<in># add_mset b A \<longrightarrow> f \<in># holds x
      \<longrightarrow> slot_shows x (slot_of (engine_id f ?p) (set_slot (engine_id e ?p) s ?p))" by auto
  moreover have "\<forall>c. Waiting c \<in># add_mset b A \<longrightarrow> pl_idle ?p = Some c" using wait b by auto
  moreover have "\<forall>f. f \<in># in_hand (add_mset b A) \<longrightarrow> f \<in> set (pl_engines ?p)" using hand a b by simp
  ultimately show ?thesis using c idle unfolding current_ok_def by auto
qed

lemma start_loop_slots:
  assumes "\<forall>i. slot_of i p = idle_slot" and "start_loop spawn stop n i c p = (err, p')"
  shows "\<forall>i. slot_of i p' = idle_slot"
  using assms
proof (induction n arbitrary: i p)
  case 0
  then show ?case by (auto simp: slot_of_def)
next
  case (Suc n)
  have "\<forall>j. slot_of j (add_engine i c p) = idle_slot"
    using Suc.prems(1) by (auto simp: add_engine_def slot_of_def split: option.splits)
  with Suc show ?case by (auto split: option.splits)
qed

lemma PoolStart_current:
  assumes "pool_ok W" and "PoolStart ctxErr spawn stop (pw_pool W) = (err, p')"
    and "\<not> pl_started (pw_pool W)" and "pl_started p'" and "pw_active W = {#}"
  shows "current_ok {#} p'"
proof -
  let ?p = "pw_pool W"
  let ?q = "?p\<lparr>pl_engines := [], pl_idle := Some (pl_next_chan ?p), pl_slots := Some Map.empty,
      pl_chans := (pl_chans ?p)(pl_next_chan ?p \<mapsto> []), pl_next_chan := Suc (pl_next_chan ?p)\<rparr>"
  from assms(2-4) have run: "start_loop spawn stop (nat (pl_cfgSlots ?p)) (int 0) (pl_next_chan ?p) ?q = (err, p')"
    by (auto simp: PoolStart_def split: option.splits)
  have "\<forall>i. slot_of i ?q = idle_slot" by (simp add: slot_of_def)
  note slots = start_loop_slots [OF this run]
  have "err = None" using start_loop_filling [OF run start_filling [OF assms(1) refl]] assms(3,4)
    by (auto split: if_splits)
  with start_loop_filling [OF run start_filling [OF assms(1) refl]]
  have "filling {#} (pl_next_chan ?p) (0 + nat (pl_cfgSlots ?p)) p'" using assms(5) by simp
  with slots show ?thesis by (auto simp: filling_def current_ok_def)
qed

lemma PoolStop_started:
  "PoolStop ctxErr stop p = (err, p') \<Longrightarrow> pl_started p' \<Longrightarrow> p' = p"
  by (auto simp: PoolStop_def split: if_splits option.splits prod.splits)

lemma PoolStart_started:
  "PoolStart ctxErr spawn stop p = (err, p') \<Longrightarrow> pl_started p \<Longrightarrow> p' = p"
  by (simp add: PoolStart_def)

lemma receive_current:
  assumes ok: "pool_ok W" and st: "pl_started (pw_pool W)" and act: "pw_active W = add_mset (Waiting c) A"
    and rec: "receive c (pw_pool W) = Some (e, p)" and cur: "current_ok (add_mset (Waiting c) A) (pw_pool W)"
  shows "current_ok (add_mset (Acquired e) A) p"
proof -
  let ?p = "pw_pool W"
  from rec obtain es where es: "pl_chans ?p c = Some (e # es)"
    and p: "p = ?p\<lparr>pl_chans := (pl_chans ?p)(c \<mapsto> es)\<rparr>"
    by (auto simp: receive_def split: option.splits list.splits)
  note D = current_okD [OF cur]
  have C: "pl_idle ?p = Some c" using D(2) by simp
  have chan: "f \<in> set (pl_engines ?p) \<and> slot_of (engine_id f ?p) ?p = idle_slot" if "f \<in> set (e # es)" for f
    using D(1) [OF C es that] .
  have rest: "Waiting c' \<in># A \<Longrightarrow> pl_idle ?p = Some c'" "f \<in># in_hand A \<Longrightarrow> f \<in> set (pl_engines ?p)"
    "x \<in># A \<Longrightarrow> f \<in># holds x \<Longrightarrow> slot_shows x (slot_of (engine_id f ?p) ?p)" for c' f x
    using D(2) [of c'] D(3) [of f] D(4) [of x f] by auto
  have id: "engine_id f p = engine_id f ?p" "slot_of i p = slot_of i ?p" for f i
    by (simp_all add: p engine_id_def)
  show ?thesis unfolding current_ok_def id using C chan rest p by auto
qed

lemma send_current:
  assumes "send c e p = Some p'" and "current_ok (add_mset (Sending c e) A) p"
    and "pl_idle p = Some c" and "slot_of (engine_id e p) p = idle_slot"
  shows "current_ok A p'"
proof -
  from assms(1) obtain es where es: "pl_chans p c = Some es"
    and p: "p' = p\<lparr>pl_chans := (pl_chans p)(c \<mapsto> es @ [e])\<rparr>"
    by (auto simp: send_def split: option.splits if_splits)
  have id: "engine_id f p' = engine_id f p" "slot_of i p' = slot_of i p" for f i
    by (simp_all add: p engine_id_def)
  show ?thesis unfolding current_ok_def id using assms(2-4) es p by (auto simp: current_ok_def)
qed

lemma idle_slot_update:
  "st\<lparr>sl_state := slotStateIdle, sl_operation := None, sl_requestID := [], sl_leasedAt := None,
     sl_executingAt := None\<rparr> = idle_slot"
  by (cases st) (simp add: idle_slot_def)

lemma release_current:
  assumes ok: "pool_ok W" and st: "pl_started (pw_pool W)" and act: "pw_active W = add_mset (Held e) A"
    and rel: "release_locked (engine_id e (pw_pool W)) (pw_pool W) = (Some c, p)"
    and cur: "current_ok (add_mset (Held e) A) (pw_pool W)"
  shows "current_ok (add_mset (Sending c e) A) p"
proof -
  have "p = set_slot (engine_id e (pw_pool W)) idle_slot (pw_pool W)"
    using rel st by (auto simp: release_locked_def markIdleLocked_def idle_slot_update split: option.splits)
  with current_ok_slot [OF ok st act cur, of e "Sending c e" idle_slot] show ?thesis by simp
qed

lemma quiet_step_ok:
  assumes "quiet_ok W" and "quiet_step W W'"
  shows "quiet_ok W'"
proof -
  from assms have ok: "pool_ok W" and st: "pool_step W W'"
    and restart: "pl_started (pw_pool W') \<Longrightarrow> \<not> pl_started (pw_pool W) \<Longrightarrow> pw_active W = {#}"
    and cur: "pl_started (pw_pool W) \<Longrightarrow> current_ok (pw_active W) (pw_pool W)"
    by (auto simp: quiet_ok_def quiet_step_def)
  have "current_ok (pw_active W') (pw_pool W')" if run: "pl_started (pw_pool W')"
    using st
  proof cases
    case (start ctxErr spawn stop err p)
    show ?thesis
    proof (cases "pl_started (pw_pool W)")
      case True
      with start cur show ?thesis using PoolStart_started by fastforce
    next
      case False
      with restart run have "pw_active W = {#}" by blast
      with start False run show ?thesis using PoolStart_current [OF ok start(2)] by simp
    qed
  next
    case (stop ctxErr stop err p)
    with run have "p = pw_pool W" using PoolStop_started by fastforce
    with stop cur run show ?thesis by simp
  next
    case (acquire c)
    with run have "pl_started (pw_pool W)" "pl_idle (pw_pool W) = Some c"
      by (auto simp: acquire_chan_def split: if_splits option.splits)
    with cur acquire show ?thesis by (auto simp: current_ok_def)
  next
    case (received c A e p)
    with run have "pl_started (pw_pool W)" by (auto simp: receive_def split: option.splits list.splits)
    from receive_current [OF ok this received(2,3) cur [OF this, unfolded received(2)]] received(1)
    show ?thesis by simp
  next
    case (gave_up c A)
    with run cur current_ok_drop [of "Waiting c" A "pw_pool W"] show ?thesis by simp
  next
    case (leased e A now)
    with run have "pl_started (pw_pool W)" by (simp add: markLeased_def)
    from current_ok_slot [OF ok this leased(2) cur [OF this, unfolded leased(2)], of e "Held e"] leased(1)
    show ?thesis by (simp add: markLeased_def)
  next
    case (call a A e req now)
    with run have "pl_started (pw_pool W)" by (simp add: markExecuting_def)
    from current_ok_slot [OF ok this call(2) cur [OF this, unfolded call(2)], of e "Executing e req"] call(1,3)
    show ?thesis by (auto simp: markExecuting_def)
  next
    case (returned e req A now)
    with run have "pl_started (pw_pool W)" by (simp add: markLeased_def)
    from current_ok_slot [OF ok this returned(2) cur [OF this, unfolded returned(2)], of e "Held e"] returned(1)
    show ?thesis by (simp add: markLeased_def)
  next
    case (release e A c p)
    with run have "pl_started (pw_pool W)" by (simp add: release_locked_def split: if_splits)
    from release_current [OF ok this release(2,3) cur [OF this, unfolded release(2)]] release(1)
    show ?thesis by simp
  next
    case (abandoned e A p)
    from release_locked_cases(2) [OF abandoned(3)] run abandoned(1)
    have "pl_started (pw_pool W)" "pl_idle (pw_pool W) = None" by auto
    with ok show ?thesis by (auto simp: pool_ok_def engines_ok_def)
  next
    case (sent c e A p)
    with run have s: "pl_started (pw_pool W)" by (auto simp: send_def split: option.splits if_splits)
    note C = cur [OF s, unfolded sent(2)]
    from C have e: "e \<in> set (pl_engines (pw_pool W))" "slot_of (engine_id e (pw_pool W)) (pw_pool W) = idle_slot"
      unfolding current_ok_def by auto
    moreover have "pl_idle (pw_pool W) = Some c"
      using ok s sent(2) e(1) by (auto simp: pool_ok_def engines_ok_def)
    ultimately show ?thesis using send_current [OF sent(3) C] sent(1) by simp
  qed
  with pool_step_ok [OF ok st] show ?thesis by (simp add: quiet_ok_def)
qed

subsection \<open>Reachable pools\<close>

lemma quiet_ok_fresh: "quiet_ok (fresh_pool n)"
  unfolding quiet_ok_def using pool_ok_fresh [of n] by (simp add: fresh_pool_def)

interpretation pool: transition_system "fresh_pool n" pool_step pool_ok for n
  by unfold_locales (auto intro: pool_ok_fresh pool_step_ok)

interpretation quiet: transition_system "fresh_pool n" quiet_step quiet_ok for n
  by unfold_locales (blast intro: quiet_ok_fresh quiet_step_ok)+

definition reachable_pool :: "PoolWorld \<Rightarrow> bool" where
  "reachable_pool W \<longleftrightarrow> (\<exists>n. reachable_from (fresh_pool n) pool_step W)"

definition reachable_quiet :: "int \<Rightarrow> PoolWorld \<Rightarrow> bool" where
  "reachable_quiet n W \<longleftrightarrow> reachable_from (fresh_pool n) quiet_step W"

lemma reachable_pool_ok: "reachable_pool W \<Longrightarrow> pool_ok W"
  by (auto simp: reachable_pool_def intro: pool.reachable_inv)

lemma reachable_quiet_ok: "reachable_quiet n W \<Longrightarrow> quiet_ok W"
  unfolding reachable_quiet_def by (rule quiet.reachable_inv)

text \<open>The engines idle in the pool.\<close>

definition idle_engines :: "Pool \<Rightarrow> engine_ref list" where
  "idle_engines p =
     (case pl_idle p of None \<Rightarrow> []
      | Some c \<Rightarrow> (case pl_chans p c of None \<Rightarrow> [] | Some es \<Rightarrow> es))"

lemma idle_engines_mem:
  "e \<in> set (idle_engines p) \<longleftrightarrow> (\<exists>c es. pl_idle p = Some c \<and> pl_chans p c = Some es \<and> e \<in> set es)"
proof (cases "pl_idle p")
  case (Some c)
  then show ?thesis by (cases "pl_chans p c") (simp_all add: idle_engines_def)
qed (simp add: idle_engines_def)

lemma idle_engines_quiet:
  assumes "reachable_quiet n W" and "pl_started (pw_pool W)"
  shows "mset (idle_engines (pw_pool W)) + in_hand (pw_active W) = mset (pl_engines (pw_pool W))"
proof (rule multiset_eqI)
  let ?p = "pw_pool W"
  fix e
  note q = reachable_quiet_ok [OF assms(1)]
  then have ok: "pool_ok W" and cur: "current_ok (pw_active W) ?p" using assms(2) by (auto simp: quiet_ok_def)
  note E = pool_ok_engines [OF ok assms(2)]
  from E(1) obtain c es where c: "pl_idle ?p = Some c" "pl_chans ?p c = Some es"
    "\<forall>e\<in>set (pl_engines ?p). count_list es e + count (in_hand (pw_active W)) e = 1" by blast
  have idle: "idle_engines ?p = es" using c by (simp add: idle_engines_def)
  have cl: "count (mset es) e = count_list es e" by (induction es) auto
  show "count (mset (idle_engines ?p) + in_hand (pw_active W)) e = count (mset (pl_engines ?p)) e"
  proof (cases "e \<in> set (pl_engines ?p)")
    case True
    with c(3) E(3) show ?thesis by (simp add: idle cl distinct_count_atmost_1)
  next
    case False
    then have "e \<notin> set es" "e \<notin># in_hand (pw_active W)"
      using current_okD(1) [OF cur c(1,2)] current_okD(3) [OF cur] by blast+
    with False show ?thesis by (simp add: idle cl count_list_0_iff not_in_iff)
  qed
qed

subsection \<open>A pool of two engines, for the witnesses\<close>

definition ex_ping :: Request where
  "ex_ping =
     \<lparr>rq_Version = 0, rq_RequestID = [], rq_Operation = OpPing, rq_TargetSegmentSizeBytes = 0,
      rq_TargetSegmentDurationMS = 0, rq_MaxSegments = 0, rq_Input = None, rq_Inputs = [],
      rq_Output = None, rq_OutputDir = []\<rparr>"

definition ex_started :: Pool where
  "ex_started = snd (PoolStart None (\<lambda>_. None) (\<lambda>_. None) (pw_pool (fresh_pool 2)))"

definition ex_executing :: Pool where
  "ex_executing = markExecuting 0 ex_ping 20 (markLeased 0 10 (snd (the (receive 0 ex_started))))"

definition ex_calling :: PoolWorld where
  "ex_calling = \<lparr>pw_pool = ex_executing, pw_active = {#Executing 0 ex_ping#}\<rparr>"

lemma ex_calling_reachable: "reachable_quiet 2 ex_calling"
proof -
  let ?W = "\<lambda>p A. \<lparr>pw_pool = p, pw_active = A\<rparr>"
  define p2 where "p2 = snd (the (receive 0 ex_started))"
  define p3 where "p3 = markLeased 0 10 p2"
  have "\<not> Option.is_none (receive 0 ex_started)" "fst (the (receive 0 ex_started)) = 0" by code_simp+
  then have rec: "receive 0 ex_started = Some (0, p2)" by (auto simp: p2_def Option.is_none_def)
  have f: "acquire_chan ex_started = Inr 0" "engine_id 0 p2 = 0" "engine_id 0 p3 = 0"
    "pl_started ex_started" "pl_started p2" "pl_started p3"
    unfolding p3_def p2_def by code_simp+
  have 1: "pool_step (fresh_pool 2) (?W ex_started {#})"
    using pool_step.start [of None "\<lambda>_. None" "\<lambda>_. None" "fresh_pool 2" _ ex_started]
    by (simp add: ex_started_def fresh_pool_def prod_eq_iff)
  have 2: "pool_step (?W ex_started {#}) (?W ex_started {#Waiting 0#})"
    using pool_step.acquire [of "?W ex_started {#}" 0] f by simp
  have 3: "pool_step (?W ex_started {#Waiting 0#}) (?W p2 {#Acquired 0#})"
    using pool_step.received [of "?W ex_started {#Waiting 0#}" 0 "{#}"] rec by simp
  have 4: "pool_step (?W p2 {#Acquired 0#}) (?W p3 {#Held 0#})"
    using pool_step.leased [of "?W p2 {#Acquired 0#}" 0 "{#}" 10] f by (simp add: p3_def)
  have 5: "pool_step (?W p3 {#Held 0#}) ex_calling"
    using pool_step.call [of "?W p3 {#Held 0#}" "Held 0" "{#}" 0 ex_ping 20] f
    by (simp add: p3_def p2_def ex_calling_def ex_executing_def)
  have "quiet_step (fresh_pool 2) (?W ex_started {#})" "quiet_step (?W ex_started {#}) (?W ex_started {#Waiting 0#})"
    "quiet_step (?W ex_started {#Waiting 0#}) (?W p2 {#Acquired 0#})"
    "quiet_step (?W p2 {#Acquired 0#}) (?W p3 {#Held 0#})" "quiet_step (?W p3 {#Held 0#}) ex_calling"
    using 1 2 3 4 5 f by (simp_all add: quiet_step_def) (simp add: fresh_pool_def)
  then have "quiet_step\<^sup>*\<^sup>* (fresh_pool 2) ex_calling" by (meson r_into_rtranclp rtranclp_trans)
  then show ?thesis unfolding reachable_quiet_def by (rule reachable_from_path)
qed

lemma ex_calling_pool: "reachable_pool ex_calling"
proof -
  have "reachable_from s0 quiet_step W \<Longrightarrow> reachable_from s0 pool_step W" for s0 W
    by (induction rule: reachable_from.induct) (auto intro: reachable_from.intros simp: quiet_step_def)
  then show ?thesis using ex_calling_reachable unfolding reachable_quiet_def reachable_pool_def by blast
qed

lemma ex_calling_state:
  "pl_started ex_executing" "pl_engines ex_executing = [0, 1]" "pl_cfgSlots ex_executing = 2"
  "idle_engines ex_executing = [1]" "engine_id 0 ex_executing = 0" "engine_id 1 ex_executing = 1"
  by code_simp+

lemma ex_calling_simps:
  "pw_pool ex_calling = ex_executing" "pw_active ex_calling = {#Executing 0 ex_ping#}"
  by (simp_all add: ex_calling_def)

text \<open>
  C30. An engine is never used twice: in every reachable state of the pool, however often it is
  started and stopped, an engine is in the hands of at most one goroutine, and while it is in
  someone's hands it is in no idle queue, neither the current one nor one of an earlier start.
\<close>

theorem engine_exclusive:
  assumes "reachable_pool W"
  shows "count (in_hand (pw_active W)) e \<le> 1
    \<and> (\<forall>c es. e \<in># in_hand (pw_active W) \<and> pl_chans (pw_pool W) c = Some es \<longrightarrow> e \<notin> set es)"
proof -
  have ok: "pool_ok W" using assms by (rule reachable_pool_ok)
  then have one: "queued e (pw_pool W) + int (count (in_hand (pw_active W)) e) \<le> 1"
    by (simp add: pool_ok_def places_def)
  moreover have "count_list es e = 0" if "e \<in># in_hand (pw_active W)" "pl_chans (pw_pool W) c = Some es" for c es
  proof -
    have "chans_ok (pw_pool W)" using ok by (simp add: pool_ok_def)
    with that(2) have "int (count_list es e) \<le> queued e (pw_pool W)" by (rule queued_ge [rotated])
    moreover have "1 \<le> count (in_hand (pw_active W)) e" using that(1) by simp
    ultimately show ?thesis using one by linarith
  qed
  ultimately show ?thesis
    using queued_nonneg [of e "pw_pool W"] by (auto simp: count_list_0_iff)
qed

theorem engine_exclusive_witness:
  "count (in_hand (pw_active ex_calling)) 0 = 1 \<and> count (in_hand (pw_active ex_calling)) 1 \<le> 1
   \<and> (case pl_chans ex_executing 0 of None \<Rightarrow> False | Some es \<Rightarrow> 0 \<notin> set es)"
proof -
  have "\<not> Option.is_none (pl_chans ex_executing 0)" by code_simp
  then show ?thesis
    using engine_exclusive [OF ex_calling_pool, of 0] engine_exclusive [OF ex_calling_pool, of 1]
    by (auto simp: ex_calling_simps Option.is_none_def)
qed

text \<open>
  C31. No engine is lost: as long as the pool is not restarted under a goroutine that still uses it,
  a started pool has all its engines, numbered and running, and each of them is idle or in the
  hands of exactly one goroutine.
\<close>

theorem pool_conserves:
  assumes "reachable_quiet n W" and "pl_started (pw_pool W)"
  shows "mset (idle_engines (pw_pool W)) + in_hand (pw_active W) = mset (pl_engines (pw_pool W))
    \<and> map (pl_heap (pw_pool W)) (pl_engines (pw_pool W))
        = map (\<lambda>i. Some \<lparr>eg_id = int i, eg_started = True\<rparr>) [0..<nat (pl_cfgSlots (pw_pool W))]"
proof -
  have "engines_ok (pw_active W) (pw_pool W)"
    using reachable_quiet_ok [OF assms(1)] assms(2) by (simp add: quiet_ok_def pool_ok_def)
  with idle_engines_quiet [OF assms] show ?thesis unfolding engines_ok_def by blast
qed

theorem pool_conserves_witness:
  "mset (idle_engines ex_executing) + {#0#} = {#0, 1#}"
  using pool_conserves [OF ex_calling_reachable] by (simp add: ex_calling_simps ex_calling_state)

text \<open>
  C32. A release never blocks and a waiter is served: in the same runs, the channel has room for
  every engine on its way back, and when no goroutine holds an engine a waiting one can receive.
\<close>

theorem pool_never_stuck:
  assumes "reachable_quiet n W" and "pl_started (pw_pool W)" and "0 < pl_cfgSlots (pw_pool W)"
  shows "(Sending c e \<in># pw_active W \<longrightarrow> send c e (pw_pool W) \<noteq> None)
    \<and> (Waiting c \<in># pw_active W \<and> in_hand (pw_active W) = {#} \<longrightarrow> receive c (pw_pool W) \<noteq> None)"
proof -
  let ?p = "pw_pool W"
  have ok: "pool_ok W" and cur: "current_ok (pw_active W) ?p"
    using reachable_quiet_ok [OF assms(1)] assms(2) by (auto simp: quiet_ok_def)
  from pool_ok_engines(1) [OF ok assms(2)] obtain d es where d: "pl_idle ?p = Some d" "pl_chans ?p d = Some es"
    by blast
  then have idle: "idle_engines ?p = es" by (simp add: idle_engines_def)
  note sum = idle_engines_quiet [OF assms(1,2), unfolded idle]
  have len: "length es + size (in_hand (pw_active W)) = nat (pl_cfgSlots ?p)"
    using arg_cong [OF sum, of size] pool_ok_engines(4) [OF ok assms(2)] by simp
  have "send c e ?p \<noteq> None" if S: "Sending c e \<in># pw_active W"
  proof -
    have hand: "e \<in># in_hand (pw_active W)" using S by (auto simp: in_hand_mem intro!: exI [of _ "Sending c e"])
    then have "e \<in> set (pl_engines ?p)" using current_okD(3) [OF cur] by blast
    then have "c = d" using ok assms(2) S d(1) by (auto simp: pool_ok_def engines_ok_def)
    moreover have "0 < size (in_hand (pw_active W))" using hand by (metis gr0I size_eq_0_iff_empty empty_iff set_mset_empty)
    ultimately show ?thesis using len d(2) by (simp add: send_def)
  qed
  moreover have "receive c ?p \<noteq> None" if "Waiting c \<in># pw_active W" "in_hand (pw_active W) = {#}"
  proof -
    have "c = d" using current_okD(2) [OF cur that(1)] d(1) by simp
    moreover have "es \<noteq> []" using len that(2) assms(3) by auto
    ultimately show ?thesis using d(2) by (simp add: receive_def split: list.splits)
  qed
  ultimately show ?thesis by blast
qed

theorem pool_never_stuck_witness:
  "\<exists>W e p. reachable_quiet 2 W \<and> Sending 0 e \<in># pw_active W \<and> send 0 e (pw_pool W) = Some p"
proof -
  let ?p = "markLeased 0 30 ex_executing"
  define q where "q = snd (release_locked 0 ?p)"
  have f: "engine_id 0 ?p = 0" "fst (release_locked 0 ?p) = Some 0" "pl_started ?p" "pl_started q" "pl_cfgSlots q = 2"
    unfolding q_def by code_simp+
  have "quiet_step ex_calling \<lparr>pw_pool = ?p, pw_active = {#Held 0#}\<rparr>"
    using pool_step.returned [of ex_calling 0 ex_ping "{#}" 30] ex_calling_state
    by (simp add: quiet_step_def ex_calling_def)
  moreover have "quiet_step \<lparr>pw_pool = ?p, pw_active = {#Held 0#}\<rparr> \<lparr>pw_pool = q, pw_active = {#Sending 0 0#}\<rparr>"
    using pool_step.release [of "\<lparr>pw_pool = ?p, pw_active = {#Held 0#}\<rparr>" 0 "{#}" 0 q] f
    by (simp add: quiet_step_def q_def prod_eq_iff)
  ultimately have "reachable_quiet 2 \<lparr>pw_pool = q, pw_active = {#Sending 0 0#}\<rparr>"
    using ex_calling_reachable unfolding reachable_quiet_def by (blast intro: reach_step)
  from pool_never_stuck [OF this, of 0 0] this f show ?thesis by fastforce
qed

subsection \<open>The snapshot\<close>

text \<open>
  The slot snapshot tells the truth, in the same runs: the slot of an engine that executes a
  request shows that operation and that request, the slot of a lease held between calls shows
  "leased", and the slot of an idle engine shows "idle" with no times.
\<close>

theorem snapshot_truthful:
  assumes "reachable_quiet n W" and "pl_started (pw_pool W)" and "e \<in> set (pl_engines (pw_pool W))"
    and "k = nat (engine_id e (pw_pool W))"
  shows "k < nat (pl_cfgSlots (pw_pool W))
    \<and> (Executing e req \<in># pw_active W \<longrightarrow>
        ss_State (Snapshot now (pw_pool W) ! k) = slotStateExecuting
        \<and> ss_Operation (Snapshot now (pw_pool W) ! k) = Some (rq_Operation req)
        \<and> ss_RequestID (Snapshot now (pw_pool W) ! k) = rq_RequestID req)
    \<and> (Held e \<in># pw_active W \<longrightarrow> ss_State (Snapshot now (pw_pool W) ! k) = slotStateLeased)
    \<and> (e \<in> set (idle_engines (pw_pool W)) \<longrightarrow> Snapshot now (pw_pool W) ! k =
        \<lparr>ss_SlotID = int k, ss_State = slotStateIdle, ss_Operation = None, ss_RequestID = [],
         ss_HeldMS = 0, ss_ExecutingMS = 0\<rparr>)"
proof -
  let ?p = "pw_pool W"
  have ok: "pool_ok W" and cur: "current_ok (pw_active W) ?p"
    using reachable_quiet_ok [OF assms(1)] assms(2) by (auto simp: quiet_ok_def)
  from pool_ok_engines(5) [OF ok assms(2,3)] obtain i where i: "i < nat (pl_cfgSlots ?p)"
    "pl_heap ?p e = Some \<lparr>eg_id = int i, eg_started = True\<rparr>" by blast
  then have k: "k = i" "engine_id e ?p = int i" using assms(4) by (simp_all add: engine_id_def)
  have snap: "Snapshot now ?p ! k =
      \<lparr>ss_SlotID = int k, ss_State = sl_state (slot_of (int k) ?p), ss_Operation = sl_operation (slot_of (int k) ?p),
       ss_RequestID = sl_requestID (slot_of (int k) ?p), ss_HeldMS = elapsed_ms now (sl_leasedAt (slot_of (int k) ?p)),
       ss_ExecutingMS = elapsed_ms now (sl_executingAt (slot_of (int k) ?p))\<rparr>"
    using i(1) k(1) by (simp add: Snapshot_def slot_of_def idle_slot_def elapsed_ms_def split: option.split)
  have act: "slot_shows a (slot_of (int k) ?p)" if "a \<in># pw_active W" "e \<in># holds a" for a
    using current_okD(4) [OF cur that] k by simp
  have "slot_of (int k) ?p = idle_slot" if "e \<in> set (idle_engines ?p)"
  proof -
    from that obtain c es where "pl_idle ?p = Some c" "pl_chans ?p c = Some es" "e \<in> set es"
      unfolding idle_engines_mem by blast
    from current_okD(1) [OF cur this] k(1) show ?thesis unfolding k(2) by simp
  qed
  then show ?thesis
    using i(1) k(1) act [of "Executing e req"] act [of "Held e"] unfolding snap
    by (auto simp: idle_slot_def elapsed_ms_def)
qed

theorem snapshot_truthful_witness:
  "ss_Operation (Snapshot 50 ex_executing ! 0) = Some OpPing \<and> ss_State (Snapshot 50 ex_executing ! 1) = slotStateIdle"
  using snapshot_truthful [OF ex_calling_reachable, of 0 0 ex_ping 50]
    snapshot_truthful [OF ex_calling_reachable, of 1 1 ex_ping 50]
    ex_calling_state(6) [unfolded One_nat_def]
  by (simp add: ex_calling_simps ex_calling_state) (simp add: ex_ping_def)

subsection \<open>A restart under a lease\<close>

text \<open>
  A restart under a lease breaks the pool: there is a run in which the pool was stopped and
  started while a goroutine held an engine of the first start. Its release first finds the new
  channel full and blocks, and once there is room it puts the stopped engine into the new queue,
  from where the next caller gets it.
\<close>

theorem restart_queues_stopped_engine:
  "\<exists>W W'. reachable_pool W \<and> pool_step\<^sup>*\<^sup>* W W' \<and> pl_started (pw_pool W') \<and> pw_active W = {#Sending 1 0#}
    \<and> send 1 0 (pw_pool W) = None
    \<and> idle_engines (pw_pool W') = [0] \<and> pl_heap (pw_pool W') 0 = Some \<lparr>eg_id = 0, eg_started = False\<rparr>"
proof -
  let ?ok = "\<lambda>_. None :: string option"
  define p1 where "p1 = snd (PoolStart None ?ok ?ok (pw_pool (fresh_pool 1)))"
  define p2 where "p2 = snd (the (receive 0 p1))"
  define p3 where "p3 = markLeased (engine_id 0 p2) 10 p2"
  define p4 where "p4 = snd (PoolStop None ?ok p3)"
  define p5 where "p5 = snd (PoolStart None ?ok ?ok p4)"
  define p6 where "p6 = snd (release_locked (engine_id 0 p5) p5)"
  define p7 where "p7 = snd (the (receive 1 p6))"
  define p8 where "p8 = the (send 1 0 p7)"
  note ps = p8_def p7_def p6_def p5_def p4_def p3_def p2_def p1_def
  let ?W = "\<lambda>p A. \<lparr>pw_pool = p, pw_active = A\<rparr>"
  have r: "fst (the (receive 0 p1)) = 0" "receive 0 p1 \<noteq> None" "fst (the (receive 1 p6)) = 1" "receive 1 p6 \<noteq> None"
    unfolding ps by (code_simp, simp add: Option.is_none_def [symmetric], code_simp)+
  then have rec: "receive 0 p1 = Some (0, p2)" "receive 1 p6 = Some (1, p7)" by (auto simp: p2_def p7_def)
  have chan: "acquire_chan p1 = Inr 0" "acquire_chan p6 = Inr 1" unfolding ps by code_simp+
  have "fst (release_locked (engine_id 0 p5) p5) = Some 1" unfolding ps by code_simp
  then have rel: "release_locked (engine_id 0 p5) p5 = (Some 1, p6)" by (auto simp: p6_def prod_eq_iff)
  have full: "send 1 0 p6 = None" and room: "send 1 0 p7 \<noteq> None"
    unfolding ps by (simp_all add: Option.is_none_def [symmetric]) code_simp+
  have final: "pl_started p8" "idle_engines p8 = [0]" "pl_heap p8 0 = Some \<lparr>eg_id = 0, eg_started = False\<rparr>"
    unfolding ps by code_simp+
  have 1: "pool_step (fresh_pool 1) (?W p1 {#})"
    using pool_step.start [of None ?ok ?ok "fresh_pool 1" _ p1] by (simp add: p1_def fresh_pool_def prod_eq_iff)
  have 2: "pool_step (?W p1 {#}) (?W p1 {#Waiting 0#})" using pool_step.acquire [of "?W p1 {#}" 0] chan by simp
  have 3: "pool_step (?W p1 {#Waiting 0#}) (?W p2 {#Acquired 0#})"
    using pool_step.received [of "?W p1 {#Waiting 0#}" 0 "{#}"] rec by simp
  have 4: "pool_step (?W p2 {#Acquired 0#}) (?W p3 {#Held 0#})"
    using pool_step.leased [of "?W p2 {#Acquired 0#}" 0 "{#}" 10] by (simp add: p3_def)
  have 5: "pool_step (?W p3 {#Held 0#}) (?W p4 {#Held 0#})"
    using pool_step.stop [of None ?ok "?W p3 {#Held 0#}" _ p4] by (simp add: p4_def prod_eq_iff)
  have 6: "pool_step (?W p4 {#Held 0#}) (?W p5 {#Held 0#})"
    using pool_step.start [of None ?ok ?ok "?W p4 {#Held 0#}" _ p5] by (simp add: p5_def prod_eq_iff)
  have 7: "pool_step (?W p5 {#Held 0#}) (?W p6 {#Sending 1 0#})"
    using pool_step.release [of "?W p5 {#Held 0#}" 0 "{#}" 1] rel by simp
  have 8: "pool_step (?W p6 {#Sending 1 0#}) (?W p6 {#Waiting 1, Sending 1 0#})"
    using pool_step.acquire [of "?W p6 {#Sending 1 0#}" 1] chan by simp
  have 9: "pool_step (?W p6 {#Waiting 1, Sending 1 0#}) (?W p7 {#Acquired 1, Sending 1 0#})"
    using pool_step.received [of "?W p6 {#Waiting 1, Sending 1 0#}" 1 "{#Sending 1 0#}"] rec by simp
  have 10: "pool_step (?W p7 {#Acquired 1, Sending 1 0#}) (?W p8 {#Acquired 1#})"
    using pool_step.sent [of "?W p7 {#Acquired 1, Sending 1 0#}" 1 0 "{#Acquired 1#}"] room
    by (simp add: p8_def add_mset_commute)
  have "pool_step\<^sup>*\<^sup>* (fresh_pool 1) (?W p6 {#Sending 1 0#})"
    by (rule converse_rtranclp_into_rtranclp, rule 1, rule converse_rtranclp_into_rtranclp, rule 2,
        rule converse_rtranclp_into_rtranclp, rule 3, rule converse_rtranclp_into_rtranclp, rule 4,
        rule converse_rtranclp_into_rtranclp, rule 5, rule converse_rtranclp_into_rtranclp, rule 6,
        rule r_into_rtranclp, rule 7)
  then have "reachable_pool (?W p6 {#Sending 1 0#})"
    unfolding reachable_pool_def by (intro exI [of _ 1] reachable_from_path)
  moreover have "pool_step\<^sup>*\<^sup>* (?W p6 {#Sending 1 0#}) (?W p8 {#Acquired 1#})"
    by (rule converse_rtranclp_into_rtranclp, rule 8, rule converse_rtranclp_into_rtranclp, rule 9,
        rule r_into_rtranclp, rule 10)
  ultimately show ?thesis using full final
    by (intro exI [of _ "?W p6 {#Sending 1 0#}"] exI [of _ "?W p8 {#Acquired 1#}"]) simp
qed

subsection \<open>One call\<close>

text \<open>
  An answer is the answer to the request: the request that goes to the engine carries the
  protocol version and a request identifier, and a call that returns a response returns one with
  that same identifier and version; every other line from the engine is an error.
\<close>

theorem engine_call_matches:
  assumes "engine_call started d ctx1 exchange ctx2 req = Inr resp"
    and "rq_Version req \<in> {0, ProtocolVersion}"
  shows "\<exists>sent. exchange sent = Inr (Inr resp) \<and> sent = prepareRequest d req
    \<and> rq_Version sent = ProtocolVersion \<and> rq_RequestID sent \<noteq> []
    \<and> rs_RequestID resp = rq_RequestID sent \<and> rs_Version resp = rq_Version sent"
proof -
  have "rq_Version (prepareRequest d req) = ProtocolVersion" "rq_RequestID (prepareRequest d req) \<noteq> []"
    using assms(2) by (auto simp: prepareRequest_def Let_def nextRequestID_def split: option.splits)
  with assms(1) show ?thesis
    by (auto simp: engine_call_def Let_def split: if_splits option.splits sum.splits)
qed

definition ex_pong :: "Request \<Rightarrow> Response" where
  "ex_pong req =
     \<lparr>rs_Version = 1, rs_RequestID = rq_RequestID req, rs_Type = ResponseTypeCompleted,
      rs_ResultName = [], rs_ArtifactName = [], rs_Checksum = [], rs_FrameCount = 0, rs_DurationMS = 0,
      rs_OutputSizeBytes = 0, rs_Segments = [], rs_Reason = [], rs_Retryable = False\<rparr>"

theorem engine_call_matches_witness:
  "\<exists>resp. engine_call True (Some [5]) None (\<lambda>req. Inr (Inr (ex_pong req))) None ex_ping = Inr resp
     \<and> rs_RequestID resp = ''req_05''"
proof -
  have "\<exists>resp. engine_call True (Some [5]) None (\<lambda>req. Inr (Inr (ex_pong req))) None ex_ping = Inr resp"
    by (simp add: engine_call_def Let_def ex_pong_def ProtocolVersion_def)
  then obtain resp where c: "engine_call True (Some [5]) None (\<lambda>req. Inr (Inr (ex_pong req))) None ex_ping = Inr resp"
    by blast
  have "rq_RequestID (prepareRequest (Some [5]) ex_ping) = ''req_05''" by code_simp
  with engine_call_matches [OF c] c show ?thesis by (auto simp: ex_ping_def)
qed

end
