(* ===== verification/Worker_State.thy ===== *)
theory Worker_State
  imports Protocol
begin

text \<open>
  \<open>worker-node/go/internal/workerstate\<close>, \<open>entryclient\<close> and the step of \<open>heartbeat\<close>: what a
  worker knows of itself, what it tells Entry, and how it reads Entry's replies. The reading of
  the disk observer is an argument (\<open>usage\<close>, \<open>None\<close> when it fails or there is none), the
  iteration order of the running tasks too. A call of Entry is its outcome (\<open>HttpResult\<close>).
\<close>

subsection \<open>The state\<close>

record WorkerState =
  ws_TotalSlots :: int
  ws_DiskTotalBytes :: int
  ws_DiskFreeBytes :: int
  ws_workerID :: string
  ws_splitPolicy :: SplitPolicy
  ws_backpressure :: BackpressureStatus
  ws_runningTasks :: "string \<rightharpoonup> TaskType"

definition NewWorkerState :: "int \<Rightarrow> int \<Rightarrow> int \<Rightarrow> WorkerState" where
  "NewWorkerState totalSlots diskTotalBytes diskFreeBytes =
     \<lparr>ws_TotalSlots = totalSlots, ws_DiskTotalBytes = diskTotalBytes, ws_DiskFreeBytes = diskFreeBytes,
      ws_workerID = [], ws_splitPolicy = zero_SplitPolicy, ws_backpressure = zero_BackpressureStatus,
      ws_runningTasks = Map.empty\<rparr>"

definition SetRegistration :: "string \<Rightarrow> SplitPolicy \<Rightarrow> WorkerState \<Rightarrow> WorkerState" where
  "SetRegistration workerID splitPolicy s = s\<lparr>ws_workerID := workerID, ws_splitPolicy := splitPolicy\<rparr>"

definition SetBackpressure :: "BackpressureStatus \<Rightarrow> WorkerState \<Rightarrow> WorkerState" where
  "SetBackpressure status s = s\<lparr>ws_backpressure := status\<rparr>"

definition BackpressureActive :: "WorkerState \<Rightarrow> bool" where
  "BackpressureActive s = bp_Active (ws_backpressure s)"

definition StartTask :: "string \<Rightarrow> TaskType \<Rightarrow> WorkerState \<Rightarrow> WorkerState" where
  "StartTask taskID taskType s = s\<lparr>ws_runningTasks := (ws_runningTasks s)(taskID \<mapsto> taskType)\<rparr>"

definition FinishTask :: "string \<Rightarrow> WorkerState \<Rightarrow> WorkerState" where
  "FinishTask taskID s = s\<lparr>ws_runningTasks := (ws_runningTasks s)(taskID := None)\<rparr>"

definition diskUsageLocked :: "(int \<times> int) option \<Rightarrow> WorkerState \<Rightarrow> int \<times> int" where
  "diskUsageLocked usage s =
     (case usage of Some u \<Rightarrow> u | None \<Rightarrow> (ws_DiskTotalBytes s, ws_DiskFreeBytes s))"

fun running_loop ::
  "(string \<rightharpoonup> TaskType) \<Rightarrow> string list \<Rightarrow> RunningTask list \<times> int \<times> int \<Rightarrow> RunningTask list \<times> int \<times> int"
where
  "running_loop tasks [] acc = acc"
| "running_loop tasks (taskID # rest) (running, segments, assemblies) =
     (case tasks taskID of
        None \<Rightarrow> running_loop tasks rest (running, segments, assemblies)
      | Some taskType \<Rightarrow>
          running_loop tasks rest
            (running @ [\<lparr>rt_TaskID = taskID, rt_TaskType = taskType\<rparr>],
             (if taskType = TaskTypeProcessSegment then add64 segments 1 else segments),
             (if taskType = TaskTypeAssembleGIF then add64 assemblies 1 else assemblies)))"

definition HeartbeatRequest ::
  "(int \<times> int) option \<Rightarrow> string list \<Rightarrow> WorkerState \<Rightarrow> HeartbeatWorkerRequest" where
  "HeartbeatRequest usage ord s =
     (let (running, segments, assemblies) = running_loop (ws_runningTasks s) ord ([], 0, 0);
          (diskTotalBytes, diskFreeBytes) = diskUsageLocked usage s
      in \<lparr>hwr_WorkerID = ws_workerID s, hwr_TotalSlots = ws_TotalSlots s,
          hwr_RunningProcessSegment = segments, hwr_RunningAssembleGIF = assemblies,
          hwr_RunningTasks = running, hwr_DiskTotalBytes = diskTotalBytes,
          hwr_DiskFreeBytes = diskFreeBytes, hwr_Metrics = []\<rparr>)"

subsection \<open>Reading Entry's replies\<close>

fun register_status_name :: "RegisterWorkerStatus \<Rightarrow> string" where
  "register_status_name RegisterWorkerStatusSuccess = ''success''"
| "register_status_name RegisterWorkerStatusFailed = ''failed''"
| "register_status_name RegisterWorkerStatusExists = ''exists''"
| "register_status_name (RegisterWorkerStatusOther s) = s"

fun heartbeat_status_name :: "HeartbeatWorkerStatus \<Rightarrow> string" where
  "heartbeat_status_name HeartbeatWorkerStatusSuccess = ''success''"
| "heartbeat_status_name HeartbeatWorkerStatusFailed = ''failed''"
| "heartbeat_status_name HeartbeatWorkerStatusNotFound = ''not_found''"
| "heartbeat_status_name (HeartbeatWorkerStatusOther s) = s"

fun create_status_name :: "CreateJobStatus \<Rightarrow> string" where
  "create_status_name CreateJobStatusSuccess = ''success''"
| "create_status_name CreateJobStatusAlreadyExists = ''already_exists''"
| "create_status_name CreateJobStatusInsufficientResources = ''insufficient_resources''"
| "create_status_name CreateJobStatusFailed = ''failed''"
| "create_status_name CreateJobStatusNotFound = ''not_found''"
| "create_status_name (CreateJobStatusOther s) = s"

fun task_update_status_name :: "TaskUpdateStatus \<Rightarrow> string" where
  "task_update_status_name TaskUpdateStatusSuccess = ''success''"
| "task_update_status_name TaskUpdateStatusFailed = ''failed''"
| "task_update_status_name TaskUpdateStatusNotFound = ''not_found''"
| "task_update_status_name TaskUpdateStatusWorkerMismatch = ''worker_mismatch''"
| "task_update_status_name TaskUpdateStatusInvalidState = ''invalid_state''"
| "task_update_status_name (TaskUpdateStatusOther s) = s"

fun result_update_status_name :: "JobResultUpdateStatus \<Rightarrow> string" where
  "result_update_status_name JobResultUpdateStatusSuccess = ''success''"
| "result_update_status_name JobResultUpdateStatusFailed = ''failed''"
| "result_update_status_name JobResultUpdateStatusNotFound = ''not_found''"
| "result_update_status_name JobResultUpdateStatusWorkerMismatch = ''worker_mismatch''"
| "result_update_status_name JobResultUpdateStatusInvalidState = ''invalid_state''"
| "result_update_status_name (JobResultUpdateStatusOther s) = s"

text \<open>\<open>postJSON\<close> after the exchange: the body is decoded before the status code is looked at.\<close>

definition postJSON :: "'a HttpResult \<Rightarrow> string + 'a" where
  "postJSON reply =
     (case reply of
        HttpErr err \<Rightarrow> Inl err
      | HttpResp code body \<Rightarrow>
          (case body of
             Inl err \<Rightarrow> Inl err
           | Inr resp \<Rightarrow>
               if code < 200 \<or> 300 \<le> code then Inl (''entry returned http status '' @ Itoa code)
               else Inr resp))"

definition read_register :: "RegisterWorkerResponse HttpResult \<Rightarrow> string + RegisterWorkerResponse" where
  "read_register reply =
     (case postJSON reply of
        Inl err \<Rightarrow> Inl err
      | Inr resp \<Rightarrow>
          if rwp_Status resp \<noteq> RegisterWorkerStatusSuccess \<and> rwp_Status resp \<noteq> RegisterWorkerStatusExists
          then Inl (''unexpected register status: '' @ register_status_name (rwp_Status resp))
          else if rwp_WorkerID resp = [] then Inl ''register response missing worker_id''
          else Inr resp)"

definition read_heartbeat :: "HeartbeatWorkerResponse HttpResult \<Rightarrow> string + HeartbeatWorkerResponse" where
  "read_heartbeat reply =
     (case postJSON reply of
        Inl err \<Rightarrow> Inl err
      | Inr resp \<Rightarrow>
          if hwp_Status resp \<noteq> HeartbeatWorkerStatusSuccess
          then Inl (''unexpected heartbeat status: '' @ heartbeat_status_name (hwp_Status resp))
          else Inr resp)"

definition read_create :: "CreateJobResponse HttpResult \<Rightarrow> string + CreateJobResponse" where
  "read_create reply =
     (case postJSON reply of
        Inl err \<Rightarrow> Inl err
      | Inr resp \<Rightarrow>
          if cjp_Status resp \<noteq> CreateJobStatusSuccess \<and> cjp_Status resp \<noteq> CreateJobStatusAlreadyExists
          then Inl (''unexpected create job status: '' @ create_status_name (cjp_Status resp))
          else if cjp_JobID resp = [] then Inl ''create job response missing job_id''
          else Inr resp)"

definition read_task_update :: "string \<Rightarrow> TaskUpdateResponse HttpResult \<Rightarrow> string + TaskUpdateResponse" where
  "read_task_update what reply =
     (case postJSON reply of
        Inl err \<Rightarrow> Inl err
      | Inr resp \<Rightarrow>
          if tur_Status resp \<noteq> TaskUpdateStatusSuccess
          then Inl (''unexpected task '' @ what @ '' status: '' @ task_update_status_name (tur_Status resp))
          else Inr resp)"

definition read_accept :: "TaskUpdateResponse HttpResult \<Rightarrow> string + TaskUpdateResponse" where
  "read_accept = read_task_update ''accepted''"

definition read_complete :: "TaskUpdateResponse HttpResult \<Rightarrow> string + TaskUpdateResponse" where
  "read_complete = read_task_update ''completed''"

definition read_fail :: "TaskUpdateResponse HttpResult \<Rightarrow> string + TaskUpdateResponse" where
  "read_fail = read_task_update ''failed''"

definition read_assembled :: "JobAssembledResponse HttpResult \<Rightarrow> string + JobAssembledResponse" where
  "read_assembled reply =
     (case postJSON reply of
        Inl err \<Rightarrow> Inl err
      | Inr resp \<Rightarrow>
          if jap_Status resp \<noteq> JobResultUpdateStatusSuccess
          then Inl (''unexpected job assembled status: '' @ result_update_status_name (jap_Status resp))
          else Inr resp)"

subsection \<open>Registration and heartbeat of a worker\<close>

definition register_request :: "string \<Rightarrow> (int \<times> int) option \<Rightarrow> WorkerState \<Rightarrow> RegisterWorkerRequest" where
  "register_request address usage s =
     \<lparr>rwr_Address = address, rwr_TotalSlots = ws_TotalSlots s,
      rwr_SupportedTasks = [TaskTypeProcessSegment, TaskTypeAssembleGIF],
      rwr_DiskTotalBytes = fst (diskUsageLocked usage s), rwr_DiskFreeBytes = snd (diskUsageLocked usage s)\<rparr>"

definition registered :: "RegisterWorkerResponse HttpResult \<Rightarrow> WorkerState \<Rightarrow> string option \<times> WorkerState" where
  "registered reply s =
     (case read_register reply of
        Inl err \<Rightarrow> (Some err, s)
      | Inr resp \<Rightarrow> (None, SetRegistration (rwp_WorkerID resp) (rwp_SplitPolicy resp) s))"

text \<open>One \<open>send\<close> of the heartbeat loop: \<open>post\<close> is Entry, asked only by a registered worker.\<close>

definition heartbeat_send ::
  "(HeartbeatWorkerRequest \<Rightarrow> 'e \<Rightarrow> HeartbeatWorkerResponse HttpResult \<times> 'e) \<Rightarrow> (int \<times> int) option
     \<Rightarrow> string list \<Rightarrow> WorkerState \<times> 'e \<Rightarrow> WorkerState \<times> 'e" where
  "heartbeat_send post usage ord W =
     (case W of (s, E) \<Rightarrow>
        let req = HeartbeatRequest usage ord s
        in if hwr_WorkerID req = [] then (s, E)
           else (case post req E of (reply, E') \<Rightarrow>
             (case read_heartbeat reply of
                Inl err \<Rightarrow> (s, E')
              | Inr resp \<Rightarrow> (SetBackpressure (hwp_GlobalBackpressure resp) s, E'))))"

end
