(* ===== verification/Go_Path.thy ===== *)
theory Go_Path
  imports Protocol
begin

text \<open>
  What the worker uses of Go's \<open>path/filepath\<close> on Unix: \<open>Clean\<close>, \<open>Join\<close>, \<open>Base\<close> and \<open>Dir\<close>.
  The lemmas give every path a normal form (\<open>path_parts\<close>: rooted or not, and its components),
  in which \<open>Join\<close> with a plain name is an append and equality of paths is equality of lists.
\<close>

subsection \<open>Splitting at slashes\<close>

abbreviation slash :: char where "slash \<equiv> CHR ''/''"

fun split_slash :: "string \<Rightarrow> string list" where
  "split_slash [] = [[]]"
| "split_slash (c # cs) =
     (if c = slash then [] # split_slash cs
      else case split_slash cs of [] \<Rightarrow> [[c]] | p # ps \<Rightarrow> (c # p) # ps)"

fun join_slash :: "string list \<Rightarrow> string" where
  "join_slash [] = []"
| "join_slash [p] = p"
| "join_slash (p # ps) = p @ slash # join_slash ps"

lemma split_slash_nonempty [simp]: "split_slash s \<noteq> []"
  by (induction s) (auto split: list.splits)

lemma split_slash_plain: "slash \<notin> set p \<Longrightarrow> split_slash p = [p]"
  by (induction p) auto

lemma split_slash_append: "split_slash (a @ slash # b) = split_slash a @ split_slash b"
  by (induction a) (auto split: list.splits)

lemma split_join:
  "ps \<noteq> [] \<Longrightarrow> list_all (\<lambda>p. slash \<notin> set p) ps \<Longrightarrow> split_slash (join_slash ps) = ps"
  by (induction ps rule: join_slash.induct) (auto simp: split_slash_plain split_slash_append)

subsection \<open>The functions\<close>

text \<open>One component of the path on the stack of those kept so far (the last one first).\<close>

definition clean_part :: "bool \<Rightarrow> string list \<Rightarrow> string \<Rightarrow> string list" where
  "clean_part rooted stack p =
     (if p = [] \<or> p = ''.'' then stack
      else if p = ''..'' then
        (case stack of
           [] \<Rightarrow> if rooted then [] else [p]
         | last_part # rest \<Rightarrow> if last_part = ''..'' then p # stack else rest)
      else p # stack)"

definition is_rooted :: "string \<Rightarrow> bool" where
  "is_rooted s \<longleftrightarrow> s \<noteq> [] \<and> hd s = slash"

definition path_parts :: "string \<Rightarrow> string list" where
  "path_parts s = rev (foldl (clean_part (is_rooted s)) [] (split_slash s))"

definition render_path :: "bool \<Rightarrow> string list \<Rightarrow> string" where
  "render_path rooted ps =
     (if rooted then slash # join_slash ps else if ps = [] then ''.'' else join_slash ps)"

definition Clean :: "string \<Rightarrow> string" where
  "Clean s = render_path (is_rooted s) (path_parts s)"

definition Join :: "string list \<Rightarrow> string" where
  "Join elems =
     (case dropWhile (\<lambda>e. e = []) elems of [] \<Rightarrow> [] | es \<Rightarrow> Clean (join_slash es))"

definition strip_slashes :: "string \<Rightarrow> string" where
  "strip_slashes s = rev (dropWhile (\<lambda>c. c = slash) (rev s))"

definition after_last_slash :: "string \<Rightarrow> string" where
  "after_last_slash s = rev (takeWhile (\<lambda>c. c \<noteq> slash) (rev s))"

definition Base :: "string \<Rightarrow> string" where
  "Base s =
     (if s = [] then ''.''
      else let name = after_last_slash (strip_slashes s) in if name = [] then [slash] else name)"

definition Dir :: "string \<Rightarrow> string" where
  "Dir s = Clean (take (length s - length (after_last_slash s)) s)"

subsection \<open>Normal form\<close>

definition plain_name :: "string \<Rightarrow> bool" where
  "plain_name p \<longleftrightarrow> p \<noteq> [] \<and> p \<noteq> ''.'' \<and> p \<noteq> ''..'' \<and> slash \<notin> set p"

definition part_ok :: "string \<Rightarrow> bool" where
  "part_ok p \<longleftrightarrow> p \<noteq> [] \<and> p \<noteq> ''.'' \<and> slash \<notin> set p"

lemma plain_part_ok: "plain_name p \<Longrightarrow> part_ok p"
  by (simp add: plain_name_def part_ok_def)

lemma split_slash_no_slash: "p \<in> set (split_slash s) \<Longrightarrow> slash \<notin> set p"
  by (induction s arbitrary: p) (auto split: list.splits if_splits)

lemma clean_part_ok:
  "list_all part_ok stack \<Longrightarrow> slash \<notin> set p \<Longrightarrow> list_all part_ok (clean_part rooted stack p)"
  by (auto simp: clean_part_def part_ok_def split: list.splits)

lemma foldl_clean_ok:
  "list_all part_ok stack \<Longrightarrow> list_all (\<lambda>p. slash \<notin> set p) ps
     \<Longrightarrow> list_all part_ok (foldl (clean_part rooted) stack ps)"
  by (induction ps arbitrary: stack) (auto intro: clean_part_ok)

lemma path_parts_ok: "list_all part_ok (path_parts s)"
  using foldl_clean_ok [of "[]" "split_slash s" "is_rooted s"] split_slash_no_slash [of _ s]
  by (simp add: path_parts_def list_all_iff)

lemma clean_part_plain: "plain_name p \<Longrightarrow> clean_part rooted stack p = p # stack"
  by (simp add: clean_part_def plain_name_def)

lemma is_rooted_append: "a \<noteq> [] \<Longrightarrow> is_rooted (a @ b) = is_rooted a"
  by (cases a) (simp_all add: is_rooted_def)

lemma path_parts_plain:
  assumes "a \<noteq> []" and "plain_name p"
  shows "path_parts (a @ slash # p) = path_parts a @ [p]"
proof -
  have "split_slash (a @ slash # p) = split_slash a @ [p]"
    using assms(2) by (simp add: split_slash_append split_slash_plain plain_name_def)
  with assms show ?thesis
    by (simp add: path_parts_def is_rooted_append clean_part_plain)
qed

lemma join_slash_head:
  assumes "list_all part_ok ps" and "ps \<noteq> []"
  shows "join_slash ps \<noteq> []" and "hd (join_slash ps) \<noteq> slash" and "join_slash ps \<noteq> ''.''"
proof -
  obtain q qs where ps: "ps = q # qs" using assms(2) by (cases ps) auto
  from assms(1) ps have q: "q \<noteq> []" "q \<noteq> ''.''" "slash \<notin> set q" by (auto simp: part_ok_def)
  then have "hd q \<noteq> slash" by (metis hd_in_set)
  with q ps show "join_slash ps \<noteq> []" "hd (join_slash ps) \<noteq> slash" "join_slash ps \<noteq> ''.''"
    by (cases qs; auto simp: append_eq_Cons_conv)+
qed

lemma join_slash_eq_Nil: "list_all part_ok ps \<Longrightarrow> join_slash ps = [] \<longleftrightarrow> ps = []"
  using join_slash_head(1) by (cases ps) auto

lemma is_rooted_render: "list_all part_ok ps \<Longrightarrow> is_rooted (render_path rooted ps) = rooted"
  using join_slash_head [of ps] by (auto simp: is_rooted_def render_path_def)

lemma split_join_parts:
  "ps \<noteq> [] \<Longrightarrow> list_all part_ok ps \<Longrightarrow> split_slash (join_slash ps) = ps"
  by (rule split_join) (auto simp: list_all_iff part_ok_def)

lemma render_path_inj:
  assumes "list_all part_ok ps" "list_all part_ok qs" and "render_path a ps = render_path b qs"
  shows "a = b \<and> ps = qs"
proof -
  have ab: "a = b" using assms by (metis is_rooted_render)
  have "ps = qs" if "join_slash ps = join_slash qs" "ps \<noteq> []" "qs \<noteq> []"
    using that assms(1,2) by (metis split_join_parts)
  moreover have "ps = [] \<longleftrightarrow> qs = []"
    using assms ab join_slash_head(3) [OF assms(1)] join_slash_head(3) [OF assms(2)]
    by (cases b) (auto simp: render_path_def join_slash_eq_Nil dest: sym split: if_splits)
  ultimately show ?thesis using assms(3) ab by (auto simp: render_path_def split: if_splits)
qed

lemma Clean_eq_iff: "Clean a = Clean b \<longleftrightarrow> is_rooted a = is_rooted b \<and> path_parts a = path_parts b"
  using render_path_inj [OF path_parts_ok path_parts_ok] by (auto simp: Clean_def)

lemma Clean_nonempty: "Clean s \<noteq> []"
  using join_slash_head(1) [OF path_parts_ok] by (auto simp: Clean_def render_path_def)

text \<open>The stack of a cleaned path; cleaning it again changes nothing.\<close>

fun clean_stack :: "bool \<Rightarrow> string list \<Rightarrow> bool" where
  "clean_stack rooted [] = True"
| "clean_stack rooted (p # ps) =
     (part_ok p \<and> (p = ''..'' \<longrightarrow> \<not> rooted \<and> (\<forall>q\<in>set ps. q = ''..'')) \<and> clean_stack rooted ps)"

lemma clean_part_stack:
  "clean_stack rooted stack \<Longrightarrow> slash \<notin> set p \<Longrightarrow> clean_stack rooted (clean_part rooted stack p)"
  by (cases stack) (auto simp: clean_part_def part_ok_def)

lemma foldl_clean_stack:
  "clean_stack rooted stack \<Longrightarrow> list_all (\<lambda>p. slash \<notin> set p) ps
     \<Longrightarrow> clean_stack rooted (foldl (clean_part rooted) stack ps)"
  by (induction ps arbitrary: stack) (auto intro: clean_part_stack)

lemma foldl_clean_again: "clean_stack rooted stack \<Longrightarrow> foldl (clean_part rooted) [] (rev stack) = stack"
proof (induction stack)
  case (Cons p stack)
  have p: "part_ok p" "p = ''..'' \<Longrightarrow> \<not> rooted" "p = ''..'' \<Longrightarrow> q \<in> set stack \<Longrightarrow> q = ''..''"
    and stack: "foldl (clean_part rooted) [] (rev stack) = stack" for q
    using Cons by simp_all
  have "clean_part rooted stack p = p # stack"
    using p(1,2) p(3) [of "hd stack"] by (cases stack) (simp_all add: clean_part_def part_ok_def)
  with stack show ?case by simp
qed simp

lemma clean_stack_path_parts: "clean_stack (is_rooted s) (rev (path_parts s))"
  using foldl_clean_stack [of "is_rooted s" "[]" "split_slash s"] split_slash_no_slash [of _ s]
  by (simp add: path_parts_def list_all_iff)

lemma path_parts_render:
  assumes "clean_stack rooted (rev ps)" and "list_all part_ok ps"
  shows "path_parts (render_path rooted ps) = ps"
proof -
  have fold: "foldl (clean_part rooted) [] ps = rev ps"
    using foldl_clean_again [OF assms(1)] by simp
  have "is_rooted (render_path rooted ps) = rooted" using assms(2) by (rule is_rooted_render)
  moreover have "foldl (clean_part rooted) [] (split_slash (render_path rooted ps)) = rev ps"
    using fold split_join_parts [OF _ assms(2)]
    by (cases "ps = []") (auto simp: render_path_def clean_part_def)
  ultimately show ?thesis by (simp add: path_parts_def)
qed

lemma clean_stack_plain: "clean_stack rooted stack \<Longrightarrow> plain_name p \<Longrightarrow> clean_stack rooted (p # stack)"
  by (simp add: plain_part_ok plain_name_def)

lemma join_slash_append:
  assumes "qs \<noteq> []"
  shows "ps \<noteq> [] \<Longrightarrow> join_slash (ps @ qs) = join_slash ps @ slash # join_slash qs"
proof (induction ps rule: join_slash.induct)
  case (2 p)
  from assms show ?case by (cases qs) simp_all
qed simp_all

lemma path_parts_Join:
  assumes "a \<noteq> []" and "plain_name p"
  shows "is_rooted (Join [a, p]) = is_rooted a" and "path_parts (a @ slash # p) = path_parts a @ [p]"
  using assms path_parts_ok [of a] plain_part_ok
  by (simp_all add: Join_def Clean_def is_rooted_append is_rooted_render path_parts_plain)

lemma path_parts_of_Join:
  assumes "a \<noteq> []" and "plain_name p"
  shows "path_parts (Join [a, p]) = path_parts a @ [p]"
    and "Join [a, p] = render_path (is_rooted a) (path_parts a @ [p])"
proof -
  show J: "Join [a, p] = render_path (is_rooted a) (path_parts a @ [p])"
    using assms by (simp add: Join_def Clean_def is_rooted_append path_parts_plain)
  show "path_parts (Join [a, p]) = path_parts a @ [p]"
    unfolding J
    by (rule path_parts_render) (use assms clean_stack_path_parts [of a] path_parts_ok [of a] plain_part_ok
      clean_stack_plain in auto)
qed

text \<open>The normal form of a \<open>Join\<close>: plain names are appended to the components of the root.\<close>

lemma Join_plain2:
  assumes "a \<noteq> []" "plain_name p" "plain_name q"
  shows "Join [a, p, q] = render_path (is_rooted a) (path_parts a @ [p, q])"
proof -
  have "path_parts ((a @ slash # p) @ slash # q) = path_parts a @ [p, q]"
    using assms by (subst path_parts_plain) (simp_all add: path_parts_plain)
  with assms show ?thesis by (simp add: Join_def Clean_def is_rooted_append)
qed

lemma Join_plain4:
  assumes "a \<noteq> []" "plain_name p" "plain_name q" "plain_name u" "plain_name v"
  shows "Join [a, p, q, u, v] = render_path (is_rooted a) (path_parts a @ [p, q, u, v])"
proof -
  have "path_parts (a @ slash # p @ slash # q) = path_parts a @ [p, q]"
    using path_parts_plain [of "a @ slash # p" q] path_parts_plain [of a p] assms by simp
  then have "path_parts (a @ slash # p @ slash # q @ slash # u @ slash # v) = path_parts a @ [p, q, u, v]"
    using path_parts_plain [of "a @ slash # p @ slash # q" u]
      path_parts_plain [of "a @ slash # p @ slash # q @ slash # u" v] assms by simp
  with assms show ?thesis by (simp add: Join_def Clean_def is_rooted_append)
qed

subsection \<open>Cleaning never lengthens a path\<close>

definition weight :: "string list \<Rightarrow> nat" where
  "weight ps = sum_list (map (\<lambda>p. Suc (length p)) ps)"

lemma weight_simps [simp]: "weight [] = 0" "weight (p # ps) = Suc (length p) + weight ps"
  "weight (ps @ qs) = weight ps + weight qs" "weight (rev ps) = weight ps"
  by (simp_all add: weight_def rev_map [symmetric])

lemma weight_split: "weight (split_slash s) = Suc (length s)"
  by (induction s) (auto split: list.splits)

lemma length_join_slash: "ps \<noteq> [] \<Longrightarrow> Suc (length (join_slash ps)) = weight ps"
  by (induction ps rule: join_slash.induct) auto

lemma weight_clean_part: "weight (clean_part rooted stack p) \<le> weight stack + (if p = [] then 0 else Suc (length p))"
  by (auto simp: clean_part_def split: list.splits)

lemma weight_foldl: "weight (foldl (clean_part rooted) stack ps) \<le> weight stack + weight ps"
proof (induction ps arbitrary: stack)
  case (Cons p ps)
  have "weight (foldl (clean_part rooted) (clean_part rooted stack p) ps)
      \<le> weight (clean_part rooted stack p) + weight ps" by (rule Cons.IH)
  with weight_clean_part [of rooted stack p] show ?case by (simp split: if_splits)
qed simp

lemma weight_path_parts: "weight (path_parts s) \<le> (if is_rooted s then length s else Suc (length s))"
proof (cases "is_rooted s")
  case True
  then obtain t where s: "s = slash # t" by (cases s) (auto simp: is_rooted_def)
  have "weight (foldl (clean_part True) [] (split_slash t)) \<le> Suc (length t)"
    using weight_foldl [of True "[]" "split_slash t"] by (simp add: weight_split)
  with True s show ?thesis by (simp add: path_parts_def clean_part_def is_rooted_def)
next
  case False
  then show ?thesis
    using weight_foldl [of False "[]" "split_slash s"] by (simp add: path_parts_def weight_split)
qed

lemma length_Clean: "s \<noteq> [] \<Longrightarrow> length (Clean s) \<le> length s"
  using weight_path_parts [of s] length_join_slash [of "path_parts s"]
  by (cases "path_parts s = []") (auto simp: Clean_def render_path_def Suc_le_eq split: if_splits)

lemma last_join_slash: "ps \<noteq> [] \<Longrightarrow> list_all part_ok ps \<Longrightarrow> last (join_slash ps) \<noteq> slash \<and> join_slash ps \<noteq> []"
  by (induction ps rule: join_slash.induct) (auto simp: part_ok_def dest: last_in_set)

lemma last_Clean: "last (Clean s) = slash \<Longrightarrow> Clean s = [slash]"
  using last_join_slash [OF _ path_parts_ok, of s]
  by (cases "path_parts s = []") (auto simp: Clean_def render_path_def split: if_splits)

text \<open>The measure of a path that \<open>Dir\<close> lowers until its fixed point.\<close>

definition path_measure :: "string \<Rightarrow> nat" where
  "path_measure s =
     (if s = ''.'' then 0
      else Suc (2 * length s + (if s \<noteq> [] \<and> s \<noteq> [slash] \<and> last s = slash then 1 else 0)))"

lemma path_measure_Clean: "path_measure (Clean s) \<le> Suc (2 * length (Clean s))"
  using last_Clean [of s] by (auto simp: path_measure_def)

lemma Dir_measure:
  assumes "Dir s \<noteq> s"
  shows "path_measure (Dir s) < path_measure s"
proof -
  let ?n = "after_last_slash s"
  let ?t = "take (length s - length ?n) s"
  have le: "length ?n \<le> length s" 
    using length_takeWhile_le [of "\<lambda>c. c \<noteq> slash" "rev s"] by (simp add: after_last_slash_def)
  have Dir: "Dir s = Clean ?t" by (simp add: Dir_def)
  have dot: "Clean [] = ''.''"
    by (simp add: Clean_def path_parts_def clean_part_def render_path_def is_rooted_def)
  show ?thesis
  proof (cases "?t = []")
    case True
    with Dir dot have "Dir s = ''.''" by simp
    with assms show ?thesis by (simp add: path_measure_def)
  next
    case t: False
    then have short: "length (Dir s) \<le> length s - length ?n"
      using length_Clean [OF t] Dir by simp
    have m: "path_measure (Dir s) \<le> Suc (2 * length (Dir s))" using path_measure_Clean Dir by simp
    have s: "s \<noteq> ''.''" "s \<noteq> []" using t by (auto simp: after_last_slash_def)
    show ?thesis
    proof (cases "?n = []")
      case True
      then have "last s = slash"
        using s by (cases s rule: rev_cases) (auto simp: after_last_slash_def split: if_splits)
      moreover have "Clean [slash] = [slash]"
        by (simp add: Clean_def path_parts_def clean_part_def render_path_def is_rooted_def)
      then have "s \<noteq> [slash]" using assms Dir True by auto
      ultimately have "path_measure s = Suc (Suc (2 * length s))" using s by (simp add: path_measure_def)
      then show ?thesis using m short by simp
    next
      case False
      then have "0 < length ?n" "0 < length s" using s by simp_all
      then have "length (Dir s) < length s" using short by linarith
      moreover have "Suc (2 * length s) \<le> path_measure s" using s by (simp add: path_measure_def)
      ultimately show ?thesis using m by simp
    qed
  qed
qed

end
