(* ===== verification/Worker_Files.thy ===== *)
theory Worker_Files
  imports Go_Path
begin

text \<open>
  \<open>worker-node/go/internal/spool\<close> and \<open>diskusage\<close>: where a worker keeps its files, and how it
  finds the directory whose file system it measures. A \<open>Manager\<close> is its root. \<open>os.Stat\<close> and
  \<open>syscall.Statfs\<close> are arguments: \<open>stat\<close> says for every path whether it exists, does not exist
  or cannot be looked at.
\<close>

subsection \<open>Spool\<close>

definition NewSpool :: "string \<Rightarrow> string" where
  "NewSpool dataDir = Join [dataDir, ''spool'']"

definition Dirs :: "string \<Rightarrow> string list" where
  "Dirs root =
     [Join [root, ''uploads''], Join [root, ''outgoing''], Join [root, ''artifacts''],
      Join [root, ''results''], Join [root, ''tmp'']]"

definition ResultsDir :: "string \<Rightarrow> string" where
  "ResultsDir root = Join [root, ''results'']"

definition UploadPath :: "string \<Rightarrow> string \<Rightarrow> string" where
  "UploadPath root taskID = Join [root, ''uploads'', taskID @ ''.input'']"

definition TempUploadPath :: "string \<Rightarrow> string \<Rightarrow> string" where
  "TempUploadPath root taskID = Join [root, ''tmp'', taskID @ ''.upload.tmp'']"

definition ArtifactPath :: "string \<Rightarrow> string \<Rightarrow> string" where
  "ArtifactPath root taskID = Join [root, ''artifacts'', taskID @ ''.segment'']"

definition ResultPath :: "string \<Rightarrow> string \<Rightarrow> string" where
  "ResultPath root resultName = Join [root, ''results'', resultName]"

definition AssembleArtifactPath :: "string \<Rightarrow> string \<Rightarrow> string \<Rightarrow> string" where
  "AssembleArtifactPath root jobID taskID =
     Join [root, ''tmp'', ''assemble'', jobID, taskID @ ''.segment'']"

definition OutgoingDir :: "string \<Rightarrow> string \<Rightarrow> string" where
  "OutgoingDir root jobID = Join [root, ''outgoing'', jobID]"

definition OutgoingSegmentPath :: "string \<Rightarrow> string \<Rightarrow> int \<Rightarrow> string" where
  "OutgoingSegmentPath root jobID segmentIndex =
     Join [root, ''outgoing'', jobID, ''segment_'' @ Itoa segmentIndex @ ''.mp4'']"

subsection \<open>Disk usage\<close>

datatype StatResult = StatExists | StatNotExist | StatError string

function existingPath :: "(string \<Rightarrow> StatResult) \<Rightarrow> string \<Rightarrow> string + string" where
  "existingPath stat current =
     (case stat current of
        StatExists \<Rightarrow> Inr current
      | StatError err \<Rightarrow> Inl err
      | StatNotExist \<Rightarrow>
          if Dir current = current then Inl ''file does not exist''
          else existingPath stat (Dir current))"
  by pat_completeness auto
termination
  by (relation "measure (\<lambda>(stat, current). path_measure current)") (auto intro: Dir_measure)

declare existingPath.simps [simp del]

text \<open>\<open>statfs\<close> gives block size, blocks and available blocks, as unsigned numbers of 64 bits
  (the block size signed).\<close>

definition UsageOf :: "int \<Rightarrow> int \<Rightarrow> int \<Rightarrow> int \<times> int" where
  "UsageOf bsize blocks bavail = (mul64 (wrap64 blocks) (wrap64 bsize), mul64 (wrap64 bavail) (wrap64 bsize))"

definition Usage ::
  "(string \<Rightarrow> StatResult) \<Rightarrow> (string \<Rightarrow> string + int \<times> int \<times> int) \<Rightarrow> string \<Rightarrow> string + int \<times> int" where
  "Usage stat statfs path =
     (case existingPath stat (if path = [] then ''.'' else path) of
        Inl err \<Rightarrow> Inl err
      | Inr statPath \<Rightarrow>
          (case statfs statPath of
             Inl err \<Rightarrow> Inl err
           | Inr (bsize, blocks, bavail) \<Rightarrow> Inr (UsageOf bsize blocks bavail)))"

subsection \<open>Distinct identifiers have distinct files\<close>

lemma plain_suffix:
  assumes "slash \<notin> set x" "slash \<notin> set y" "3 \<le> length y"
  shows "plain_name (x @ y)"
proof -
  have "3 \<le> length (x @ y)" using assms(3) by simp
  then have "x @ y \<noteq> []" "x @ y \<noteq> ''.''" "x @ y \<noteq> ''..''" by fastforce+
  with assms show ?thesis by (simp add: plain_name_def)
qed

lemma spool_dir_plain [simp]:
  "plain_name ''uploads''" "plain_name ''tmp''" "plain_name ''artifacts''" "plain_name ''results''"
  "plain_name ''assemble''" "plain_name ''outgoing''"
  by (simp_all add: plain_name_def)

definition spool_path :: "string \<Rightarrow> string list \<Rightarrow> string" where
  "spool_path root ps = render_path (is_rooted root) (path_parts root @ ps)"

lemma spool_path_inj:
  "list_all part_ok ps \<Longrightarrow> list_all part_ok qs \<Longrightarrow> spool_path root ps = spool_path root qs \<longleftrightarrow> ps = qs"
  using render_path_inj [of "path_parts root @ ps" "path_parts root @ qs"] path_parts_ok [of root]
  by (auto simp: spool_path_def)

text \<open>The components below the root of the file of a task, an assembly or a result.\<close>

datatype SpoolFile =
    UploadFile string | TempUploadFile string | ArtifactFile string | ResultFile string
  | AssembleFile string string

fun spool_file :: "string \<Rightarrow> SpoolFile \<Rightarrow> string" where
  "spool_file root (UploadFile t) = UploadPath root t"
| "spool_file root (TempUploadFile t) = TempUploadPath root t"
| "spool_file root (ArtifactFile t) = ArtifactPath root t"
| "spool_file root (ResultFile n) = ResultPath root n"
| "spool_file root (AssembleFile j t) = AssembleArtifactPath root j t"

fun spool_parts :: "SpoolFile \<Rightarrow> string list" where
  "spool_parts (UploadFile t) = [''uploads'', t @ ''.input'']"
| "spool_parts (TempUploadFile t) = [''tmp'', t @ ''.upload.tmp'']"
| "spool_parts (ArtifactFile t) = [''artifacts'', t @ ''.segment'']"
| "spool_parts (ResultFile n) = [''results'', n]"
| "spool_parts (AssembleFile j t) = [''tmp'', ''assemble'', j, t @ ''.segment'']"

fun safe_ids :: "SpoolFile \<Rightarrow> bool" where
  "safe_ids (UploadFile t) = (slash \<notin> set t)"
| "safe_ids (TempUploadFile t) = (slash \<notin> set t)"
| "safe_ids (ArtifactFile t) = (slash \<notin> set t)"
| "safe_ids (ResultFile n) = plain_name n"
| "safe_ids (AssembleFile j t) = (plain_name j \<and> slash \<notin> set t)"

lemma spool_file_parts:
  "root \<noteq> [] \<Longrightarrow> safe_ids f \<Longrightarrow> spool_file root f = spool_path root (spool_parts f)
     \<and> list_all part_ok (spool_parts f)"
  by (cases f)
    (simp_all add: spool_path_def UploadPath_def TempUploadPath_def ArtifactPath_def ResultPath_def
      AssembleArtifactPath_def Join_plain2 Join_plain4 plain_suffix plain_part_ok)

lemma spool_parts_inj: "spool_parts f = spool_parts g \<longleftrightarrow> f = g"
  by (cases f; cases g) auto

lemma NewSpool_nonempty: "NewSpool dataDir \<noteq> []"
  by (simp add: NewSpool_def Join_def Clean_nonempty)

lemma NewSpool_parts: "\<exists>ps. path_parts (NewSpool dataDir) = ps @ [''spool'']"
  and NewSpool_render: "NewSpool dataDir = render_path (is_rooted dataDir) (path_parts (NewSpool dataDir))"
  and NewSpool_rooted: "is_rooted (NewSpool dataDir) = is_rooted dataDir"
proof -
  have sp: "plain_name ''spool''" by (simp add: plain_name_def)
  have nil: "NewSpool [] = ''spool''" "path_parts ''spool'' = [''spool'']" "\<not> is_rooted ''spool''"
    by (simp_all add: NewSpool_def Join_def Clean_def path_parts_def clean_part_def render_path_def is_rooted_def)
  show "\<exists>ps. path_parts (NewSpool dataDir) = ps @ [''spool'']"
    using nil path_parts_of_Join(1) [OF _ sp, of dataDir] by (cases "dataDir = []") (auto simp: NewSpool_def)
  show "NewSpool dataDir = render_path (is_rooted dataDir) (path_parts (NewSpool dataDir))"
    using nil path_parts_of_Join [OF _ sp, of dataDir]
    by (cases "dataDir = []") (auto simp: NewSpool_def is_rooted_def render_path_def)
  show "is_rooted (NewSpool dataDir) = is_rooted dataDir"
    using nil path_parts_Join(1) [OF _ sp, of dataDir]
    by (cases "dataDir = []") (auto simp: NewSpool_def is_rooted_def)
qed

lemma spool_path_below:
  assumes "ps \<noteq> []"
  shows "spool_path (NewSpool dataDir) ps = NewSpool dataDir @ slash # join_slash ps"
proof -
  obtain qs where qs: "path_parts (NewSpool dataDir) = qs @ [''spool'']" using NewSpool_parts by blast
  then have "join_slash (path_parts (NewSpool dataDir) @ ps)
      = join_slash (path_parts (NewSpool dataDir)) @ slash # join_slash ps"
    using assms by (intro join_slash_append) simp_all
  then show ?thesis
    using NewSpool_render [of dataDir] NewSpool_rooted [of dataDir] qs
    by (auto simp: spool_path_def render_path_def)
qed

text \<open>
  Files whose identifiers hold no slash (and whose job identifier or result name is no dot name)
  lie below the spool's root, at a path of their own: two uploads, temporary uploads, artifacts,
  results or assembly inputs share a path only if they are the same file of the same task or job.
\<close>

theorem spool_files_distinct:
  assumes "safe_ids f" and "safe_ids g"
  shows "(spool_file (NewSpool dataDir) f = spool_file (NewSpool dataDir) g \<longleftrightarrow> f = g)
    \<and> spool_file (NewSpool dataDir) f = NewSpool dataDir @ slash # join_slash (spool_parts f)"
proof -
  note parts = spool_file_parts [OF NewSpool_nonempty [of dataDir]]
  have "spool_parts f \<noteq> []" by (cases f) simp_all
  moreover have "spool_file (NewSpool dataDir) f = spool_file (NewSpool dataDir) g \<longleftrightarrow> f = g"
    using parts [OF assms(1)] parts [OF assms(2)] by (simp add: spool_path_inj spool_parts_inj)
  ultimately show ?thesis using parts [OF assms(1)] by (simp add: spool_path_below)
qed

theorem spool_files_distinct_witness:
  "spool_file (NewSpool ''data'') (UploadFile ''tsk_1'') \<noteq> spool_file (NewSpool ''data'') (AssembleFile ''job_1'' ''tsk_1'')
   \<and> spool_file (NewSpool ''data'') (AssembleFile ''job_1'' ''tsk_1'') = ''data/spool/tmp/assemble/job_1/tsk_1.segment''"
proof -
  have "safe_ids (AssembleFile ''job_1'' ''tsk_1'')" "safe_ids (UploadFile ''tsk_1'')"
    by (simp_all add: plain_name_def)
  moreover have "NewSpool ''data'' = ''data/spool''" by code_simp
  ultimately show ?thesis
    using spool_files_distinct [of "AssembleFile ''job_1'' ''tsk_1''" "UploadFile ''tsk_1''" "''data''"]
    by auto
qed

text \<open>
  The job identifier of an assembly request is any non-empty string: with dot names in it the
  artifacts the worker downloads for the job are written outside its spool.
\<close>

theorem assemble_path_escapes:
  "AssembleArtifactPath (NewSpool ''data'') ''../../../..'' ''x'' = ''x.segment''
   \<and> AssembleArtifactPath (NewSpool ''/srv/data'') ''../../../../../etc'' ''x'' = ''/etc/x.segment''"
  by (rule conjI; code_simp)

text \<open>
  The walk up to an existing directory ends for every path; it ends at the root or at \<open>.\<close>, and
  a directory it returns exists, with none missing between it and the path asked for.
\<close>

definition missing_below :: "(string \<Rightarrow> StatResult) \<Rightarrow> string \<Rightarrow> nat \<Rightarrow> bool" where
  "missing_below stat path n \<longleftrightarrow> list_all (\<lambda>k. stat ((Dir ^^ k) path) = StatNotExist) [0..<n]"

lemma missing_below_0 [simp]: "missing_below stat path 0"
  by (simp add: missing_below_def)

lemma missing_below_Suc [simp]:
  "missing_below stat path (Suc n) \<longleftrightarrow> stat path = StatNotExist \<and> missing_below stat (Dir path) n"
proof -
  have "[0..<Suc n] = 0 # map Suc [0..<n]" by (simp add: map_Suc_upt upt_conv_Cons del: upt_Suc)
  then show ?thesis
    by (simp add: missing_below_def list.pred_map comp_def funpow_swap1 del: upt_Suc)
qed

text \<open>
  C39. The search for the directory whose file system is measured ends for every path: it climbs
  parent by parent past what does not exist, and returns the first that does, the first error, or
  that there is none once the path is its own parent.
\<close>

theorem existingPath_exact:
  "\<exists>n. missing_below stat path n \<and>
     (case existingPath stat path of
        Inr found \<Rightarrow> found = (Dir ^^ n) path \<and> stat found = StatExists
      | Inl err \<Rightarrow> stat ((Dir ^^ n) path) = StatError err
          \<or> stat ((Dir ^^ n) path) = StatNotExist \<and> Dir ((Dir ^^ n) path) = (Dir ^^ n) path)"
proof (induction stat path rule: existingPath.induct)
  case (1 stat current)
  show ?case
  proof (cases "stat current = StatNotExist \<and> Dir current \<noteq> current")
    case True
    with 1 obtain n where n: "missing_below stat (Dir current) n"
      "case existingPath stat (Dir current) of
        Inr found \<Rightarrow> found = (Dir ^^ n) (Dir current) \<and> stat found = StatExists
      | Inl err \<Rightarrow> stat ((Dir ^^ n) (Dir current)) = StatError err
          \<or> stat ((Dir ^^ n) (Dir current)) = StatNotExist
            \<and> Dir ((Dir ^^ n) (Dir current)) = (Dir ^^ n) (Dir current)" by blast
    with True show ?thesis
      unfolding existingPath.simps [of stat current]
      by (intro exI [of _ "Suc n"]) (simp only: missing_below_Suc funpow_Suc_right comp_apply, simp)
  next
    case False
    then show ?thesis
      by (intro exI [of _ 0]) (auto simp: existingPath.simps [of stat current] split: StatResult.splits)
  qed
qed

end
