(* ===== verification/Source_Runner.thy ===== *)
theory Source_Runner
  imports Worker_State Worker_Files Engine_Pool "HOL-Library.AList"
begin

text \<open>
  \<open>worker-node/go/internal/sourceworker\<close>: the loop that splits the videos of the input
  directory, creates their jobs and dispatches their segments. The runner's own state and the
  worker's state are explicit; every call it makes of the engine pool, of Entry or of a peer is
  appended to \<open>sw_calls\<close> with the outcome it had. An outcome may be anything: \<open>SourceEnv\<close> gives
  it as a function of the number of calls made before. Logging is left out.
\<close>

subsection \<open>State\<close>

record sourceVideoTask =
  svt_Path :: string
  svt_VideoName :: string
  svt_TotalSizeBytes :: int

record splitVideoTask =
  spt_Path :: string
  spt_VideoName :: string
  spt_TotalSizeBytes :: int
  spt_Segments :: "SegmentFile list"

record internalSegmentWork =
  isw_segment :: SegmentFile
  isw_lease :: engine_ref

datatype SourcePhase =
    sourcePhaseNone | sourcePhaseIdle | sourcePhaseSplitWaitSlot | sourcePhaseSplitRunning
  | sourcePhaseCreateJob | sourcePhaseDispatchSegments | sourcePhaseProcessInternalSegment
  | sourcePhaseUploadExternalSegment | sourcePhaseDone

record sourceActiveState =
  sa_videoName :: string
  sa_path :: string
  sa_phase :: SourcePhase
  sa_segmentIndex :: int
  sa_hasSegmentIndex :: bool

record Runner =
  rn_pendingSplit :: "string \<rightharpoonup> sourceVideoTask"
  rn_done :: "string \<rightharpoonup> unit"
  rn_active :: sourceActiveState

definition NewRunner :: Runner where
  "NewRunner =
     \<lparr>rn_pendingSplit = Map.empty, rn_done = Map.empty,
      rn_active = \<lparr>sa_videoName = [], sa_path = [], sa_phase = sourcePhaseNone, sa_segmentIndex = 0,
                  sa_hasSegmentIndex = False\<rparr>\<rparr>"

definition createJobRetryDelays :: "int list" where
  "createJobRetryDelays = [1000000000, 2000000000, 4000000000]"

subsection \<open>The lock regions\<close>

definition enqueueSourceVideo :: "sourceVideoTask \<Rightarrow> Runner \<Rightarrow> Runner" where
  "enqueueSourceVideo task r =
     (if rn_done r (svt_Path task) \<noteq> None then r
      else if rn_pendingSplit r (svt_Path task) \<noteq> None then r
      else r\<lparr>rn_pendingSplit := (rn_pendingSplit r)(svt_Path task \<mapsto> task)\<rparr>)"

text \<open>\<open>ord\<close> is the order in which the map is iterated; the loop takes the first entry.\<close>

definition popPendingSplit :: "string list \<Rightarrow> Runner \<Rightarrow> sourceVideoTask option \<times> Runner" where
  "popPendingSplit ord r =
     (case ord of
        [] \<Rightarrow> (None, r)
      | path # rest \<Rightarrow>
          (rn_pendingSplit r path, r\<lparr>rn_pendingSplit := (rn_pendingSplit r)(path := None)\<rparr>))"

definition requeuePendingSplit :: "sourceVideoTask \<Rightarrow> Runner \<Rightarrow> Runner" where
  "requeuePendingSplit task r =
     (if rn_done r (svt_Path task) \<noteq> None then r
      else r\<lparr>rn_pendingSplit := (rn_pendingSplit r)(svt_Path task \<mapsto> task)\<rparr>)"

definition markDone :: "string \<Rightarrow> Runner \<Rightarrow> Runner" where
  "markDone path r =
     r\<lparr>rn_pendingSplit := (rn_pendingSplit r)(path := None), rn_done := (rn_done r)(path \<mapsto> ())\<rparr>"

definition setActive :: "string \<Rightarrow> string \<Rightarrow> SourcePhase \<Rightarrow> int \<Rightarrow> bool \<Rightarrow> Runner \<Rightarrow> Runner" where
  "setActive videoName path phase segmentIndex hasSegmentIndex r =
     r\<lparr>rn_active := \<lparr>sa_videoName = videoName, sa_path = path, sa_phase = phase,
                      sa_segmentIndex = segmentIndex, sa_hasSegmentIndex = hasSegmentIndex\<rparr>\<rparr>"

definition clearActive :: "Runner \<Rightarrow> Runner" where
  "clearActive r =
     r\<lparr>rn_active := \<lparr>sa_videoName = [], sa_path = [], sa_phase = sourcePhaseIdle, sa_segmentIndex = 0,
                      sa_hasSegmentIndex = False\<rparr>\<rparr>"

text \<open>What \<open>os.ReadDir\<close> and \<open>os.Stat\<close> report of an entry: its name, whether it is a directory
  and its size (0 when it cannot be looked at).\<close>

record DirEntry =
  de_Name :: string
  de_IsDir :: bool
  de_Size :: int

fun scan_entries :: "string \<Rightarrow> DirEntry list \<Rightarrow> Runner \<Rightarrow> Runner" where
  "scan_entries inputDir [] r = r"
| "scan_entries inputDir (e # es) r =
     scan_entries inputDir es
       (if de_IsDir e then r
        else enqueueSourceVideo
               \<lparr>svt_Path = Join [inputDir, de_Name e], svt_VideoName = de_Name e,
                svt_TotalSizeBytes = de_Size e\<rparr> r)"

text \<open>\<open>scan\<close>: a directory that cannot be read adds nothing (one that is missing is created).\<close>

definition scan :: "string \<Rightarrow> (string + DirEntry list) \<Rightarrow> Runner \<Rightarrow> Runner" where
  "scan inputDir entries r = (case entries of Inl err \<Rightarrow> r | Inr es \<Rightarrow> scan_entries inputDir es r)"

subsection \<open>The outside\<close>

datatype SourceCall =
    Acquired "EngineError + engine_ref"
  | TryAcquired "EngineError + engine_ref"
  | Released engine_ref
  | EngineCalled engine_ref Request "EngineError + Response"
  | JobCreated CreateJobRequest "string + CreateJobResponse"
  | TaskFailed string TaskFailedRequest
  | TaskCompleted string TaskCompletedRequest
  | SegmentUploaded string string string "string option"

record SourceEnv =
  se_spool :: string
  se_nano :: "nat \<Rightarrow> int"
  se_acquire :: "nat \<Rightarrow> EngineError + engine_ref"
  se_tryAcquire :: "nat \<Rightarrow> EngineError + engine_ref"
  se_engine :: "nat \<Rightarrow> EngineError + Response"
  se_create :: "nat \<Rightarrow> string + CreateJobResponse"
  se_cancelled :: "nat \<Rightarrow> string option"
  se_upload :: "nat \<Rightarrow> string option"
  se_shuffle :: "(int \<times> internalSegmentWork) list \<Rightarrow> (int \<times> internalSegmentWork) list"
  se_error_text :: "EngineError \<Rightarrow> string"

record SourceWorld =
  sw_runner :: Runner
  sw_state :: WorkerState
  sw_calls :: "SourceCall list"

abbreviation calls_made :: "SourceWorld \<Rightarrow> nat" where
  "calls_made W \<equiv> length (sw_calls W)"

definition did :: "SourceCall \<Rightarrow> SourceWorld \<Rightarrow> SourceWorld" where
  "did c W = W\<lparr>sw_calls := sw_calls W @ [c]\<rparr>"

definition activate :: "string \<Rightarrow> string \<Rightarrow> SourcePhase \<Rightarrow> int \<Rightarrow> bool \<Rightarrow> SourceWorld \<Rightarrow> SourceWorld" where
  "activate videoName path phase i has W =
     W\<lparr>sw_runner := setActive videoName path phase i has (sw_runner W)\<rparr>"

subsection \<open>Splitting\<close>

definition splitPolicy :: "WorkerState \<Rightarrow> SplitPolicy" where
  "splitPolicy s =
     (let policy = ws_splitPolicy s
      in if sp_TargetSegmentDurationMS policy \<le> 0 \<and> sp_TargetSegmentSizeBytes policy \<le> 0
            \<and> sp_MaxSegments policy \<le> 0
         then policy\<lparr>sp_TargetSegmentDurationMS := 3000\<rparr> else policy)"

definition fileRef :: "string \<Rightarrow> string \<Rightarrow> FileRef option" where
  "fileRef path name = Some \<lparr>fr_Mode = DataModeFile, fr_Path = path, fr_Name = name, fr_SizeBytes = 0\<rparr>"

definition safeJobKey :: "int \<Rightarrow> string \<Rightarrow> string" where
  "safeJobKey nano videoName = ''src_'' @ Itoa nano @ ''_'' @ Base videoName"

definition zero_Request :: Request where
  "zero_Request =
     \<lparr>rq_Version = 0, rq_RequestID = [], rq_Operation = OpOther [], rq_TargetSegmentSizeBytes = 0,
      rq_TargetSegmentDurationMS = 0, rq_MaxSegments = 0, rq_Input = None, rq_Inputs = [],
      rq_Output = None, rq_OutputDir = []\<rparr>"

definition split_request :: "string \<Rightarrow> SplitPolicy \<Rightarrow> string \<Rightarrow> sourceVideoTask \<Rightarrow> Request" where
  "split_request root policy jobKey task =
     zero_Request
       \<lparr>rq_Operation := OpSplitVideo,
        rq_TargetSegmentSizeBytes := sp_TargetSegmentSizeBytes policy,
        rq_TargetSegmentDurationMS := sp_TargetSegmentDurationMS policy,
        rq_MaxSegments := sp_MaxSegments policy,
        rq_Input := fileRef (svt_Path task) (svt_VideoName task),
        rq_OutputDir := OutgoingDir root jobKey\<rparr>"

definition split_result :: "sourceVideoTask \<Rightarrow> EngineError + Response \<Rightarrow> splitVideoTask option" where
  "split_result task outcome =
     (case outcome of
        Inl err \<Rightarrow> None
      | Inr resp \<Rightarrow>
          if rs_Type resp = ResponseTypeFailed then None
          else if rs_Segments resp = [] then None
          else Some \<lparr>spt_Path = svt_Path task, spt_VideoName = svt_VideoName task,
                     spt_TotalSizeBytes = svt_TotalSizeBytes task, spt_Segments = rs_Segments resp\<rparr>)"

definition splitVideo ::
  "SourceEnv \<Rightarrow> sourceVideoTask \<Rightarrow> SourceWorld \<Rightarrow> splitVideoTask option \<times> SourceWorld" where
  "splitVideo env task W =
     (let W = activate (svt_VideoName task) (svt_Path task) sourcePhaseSplitWaitSlot 0 False W;
          slot = se_acquire env (calls_made W);
          W = did (Acquired slot) W
      in case slot of
           Inl err \<Rightarrow> (None, W)
         | Inr lease \<Rightarrow>
             let W = activate (svt_VideoName task) (svt_Path task) sourcePhaseSplitRunning 0 False W;
                 jobKey = safeJobKey (se_nano env (calls_made W)) (svt_VideoName task);
                 req = split_request (se_spool env) (splitPolicy (sw_state W)) jobKey task;
                 outcome = se_engine env (calls_made W);
                 W = did (EngineCalled lease req outcome) W
             in (split_result task outcome, did (Released lease) W))"

subsection \<open>Creating the job and dispatching the segments\<close>

text \<open>\<open>internalWork\<close> is an association list: its order is the order of insertion, and the
  deferred release visits it in the order \<open>se_shuffle\<close> gives.\<close>

fun plan_segments ::
  "SourceEnv \<Rightarrow> SegmentFile list \<Rightarrow> (int \<times> internalSegmentWork) list \<Rightarrow> CreateJobTaskRequest list
     \<Rightarrow> SourceWorld \<Rightarrow> (int \<times> internalSegmentWork) list \<times> CreateJobTaskRequest list \<times> SourceWorld"
where
  "plan_segments env [] internalWork jobTasks W = (internalWork, jobTasks, W)"
| "plan_segments env (segment # rest) internalWork jobTasks W =
     (let slot = se_tryAcquire env (calls_made W);
          W = did (TryAcquired slot) W
      in case slot of
           Inr lease \<Rightarrow>
             plan_segments env rest
               (AList.update (sf_SegmentIndex segment) \<lparr>isw_segment = segment, isw_lease = lease\<rparr> internalWork)
               (jobTasks @ [\<lparr>cjt_SegmentIndex = sf_SegmentIndex segment, cjt_Mode = TaskProcessingModeInternal\<rparr>]) W
         | Inl err \<Rightarrow>
             plan_segments env rest internalWork
               (jobTasks @ [\<lparr>cjt_SegmentIndex = sf_SegmentIndex segment, cjt_Mode = TaskProcessingModeExternal\<rparr>]) W)"

text \<open>One attempt per delay and one more; a cancelled context ends the wait.\<close>

fun create_attempts ::
  "SourceEnv \<Rightarrow> CreateJobRequest \<Rightarrow> int list \<Rightarrow> SourceWorld \<Rightarrow> (string + CreateJobResponse) \<times> SourceWorld"
where
  "create_attempts env req [] W =
     (let outcome = se_create env (calls_made W) in (outcome, did (JobCreated req outcome) W))"
| "create_attempts env req (delay # delays) W =
     (let outcome = se_create env (calls_made W);
          W = did (JobCreated req outcome) W
      in case outcome of
           Inr resp \<Rightarrow> (outcome, W)
         | Inl err \<Rightarrow>
             (case se_cancelled env (calls_made W) of
                Some err \<Rightarrow> (Inl err, W)
              | None \<Rightarrow> create_attempts env req delays W))"

definition createJobWithRetry ::
  "SourceEnv \<Rightarrow> CreateJobRequest \<Rightarrow> SourceWorld \<Rightarrow> (string + CreateJobResponse) \<times> SourceWorld" where
  "createJobWithRetry env req W = create_attempts env req createJobRetryDelays W"

definition reasonFromEngine :: "(EngineError \<Rightarrow> string) \<Rightarrow> EngineError + Response \<Rightarrow> string" where
  "reasonFromEngine text outcome =
     (case outcome of
        Inl err \<Rightarrow> text err
      | Inr resp \<Rightarrow> if rs_Reason resp \<noteq> [] then rs_Reason resp else ''engine operation failed'')"

definition process_request :: "string \<Rightarrow> string \<Rightarrow> string \<Rightarrow> Request" where
  "process_request inputPath inputName artifactPath =
     zero_Request
       \<lparr>rq_Operation := OpProcessSegment, rq_Input := fileRef inputPath inputName,
        rq_Output := fileRef artifactPath (Base artifactPath)\<rparr>"

definition completed_report :: "string \<Rightarrow> Response \<Rightarrow> TaskCompletedRequest" where
  "completed_report workerID resp =
     \<lparr>tcr_WorkerID = workerID, tcr_Checksum = rs_Checksum resp, tcr_FrameCount = rs_FrameCount resp,
      tcr_DurationMS = rs_DurationMS resp, tcr_OutputSizeBytes = rs_OutputSizeBytes resp\<rparr>"

definition internal_report ::
  "(EngineError \<Rightarrow> string) \<Rightarrow> string \<Rightarrow> string \<Rightarrow> EngineError + Response \<Rightarrow> SourceCall" where
  "internal_report text workerID taskID outcome =
     (case outcome of
        Inr resp \<Rightarrow>
          if rs_Type resp = ResponseTypeFailed
          then TaskFailed taskID
                 \<lparr>tfr_WorkerID = workerID, tfr_Reason = reasonFromEngine text outcome, tfr_Retryable = True\<rparr>
          else TaskCompleted taskID (completed_report workerID resp)
      | Inl err \<Rightarrow>
          TaskFailed taskID
            \<lparr>tfr_WorkerID = workerID, tfr_Reason = reasonFromEngine text outcome, tfr_Retryable = True\<rparr>)"

definition processInternalSegment ::
  "SourceEnv \<Rightarrow> engine_ref \<Rightarrow> string \<Rightarrow> TaskAssignment \<Rightarrow> SegmentFile \<Rightarrow> SourceWorld \<Rightarrow> SourceWorld" where
  "processInternalSegment env lease workerID assignment segment W =
     (let artifactPath = ArtifactPath (se_spool env) (ta_TaskID assignment);
          W = W\<lparr>sw_state := StartTask (ta_TaskID assignment) TaskTypeProcessSegment (sw_state W)\<rparr>;
          req = process_request (sf_Path segment) (sf_Name segment) artifactPath;
          outcome = se_engine env (calls_made W);
          W = did (EngineCalled lease req outcome) W;
          W = W\<lparr>sw_state := FinishTask (ta_TaskID assignment) (sw_state W)\<rparr>
      in did (internal_report (se_error_text env) workerID (ta_TaskID assignment) outcome) W)"

fun segmentByIndex :: "SegmentFile list \<Rightarrow> int \<Rightarrow> SegmentFile option" where
  "segmentByIndex [] i = None"
| "segmentByIndex (segment # rest) i =
     (if sf_SegmentIndex segment = i then Some segment else segmentByIndex rest i)"

text \<open>The loop over the assignments: whether it ran to its end, and the work left in the map.\<close>

fun dispatch_loop ::
  "SourceEnv \<Rightarrow> splitVideoTask \<Rightarrow> string \<Rightarrow> TaskAssignment list \<Rightarrow> (int \<times> internalSegmentWork) list
     \<Rightarrow> SourceWorld \<Rightarrow> bool \<times> (int \<times> internalSegmentWork) list \<times> SourceWorld"
where
  "dispatch_loop env task workerID [] internalWork W = (True, internalWork, W)"
| "dispatch_loop env task workerID (assignment # rest) internalWork W =
     (let i = ta_SegmentIndex assignment
      in case ta_Mode assignment of
           TaskProcessingModeInternal \<Rightarrow>
             (case map_of internalWork i of
                None \<Rightarrow> (False, internalWork, W)
              | Some work \<Rightarrow>
                  let W = activate (spt_VideoName task) (spt_Path task) sourcePhaseProcessInternalSegment i True W;
                      W = processInternalSegment env (isw_lease work) workerID assignment (isw_segment work) W;
                      W = did (Released (isw_lease work)) W
                  in dispatch_loop env task workerID rest (AList.delete i internalWork) W)
         | TaskProcessingModeExternal \<Rightarrow>
             (case segmentByIndex (spt_Segments task) i of
                None \<Rightarrow> (False, internalWork, W)
              | Some segment \<Rightarrow>
                  if ta_Address assignment = [] then (False, internalWork, W)
                  else
                    let W = activate (spt_VideoName task) (spt_Path task) sourcePhaseUploadExternalSegment i True W;
                        outcome = se_upload env (calls_made W);
                        W = did (SegmentUploaded (ta_Address assignment) (ta_TaskID assignment) (sf_Path segment) outcome) W
                    in case outcome of
                         Some err \<Rightarrow> (False, internalWork, W)
                       | None \<Rightarrow> dispatch_loop env task workerID rest internalWork W)
         | TaskProcessingModeOther mode \<Rightarrow> (False, internalWork, W))"

fun release_all :: "(int \<times> internalSegmentWork) list \<Rightarrow> SourceWorld \<Rightarrow> SourceWorld" where
  "release_all [] W = W"
| "release_all ((i, work) # rest) W = release_all rest (did (Released (isw_lease work)) W)"

definition job_request :: "string \<Rightarrow> splitVideoTask \<Rightarrow> CreateJobTaskRequest list \<Rightarrow> CreateJobRequest" where
  "job_request workerID task jobTasks =
     \<lparr>cjr_WorkerID = workerID, cjr_VideoName = spt_VideoName task, cjr_SegmentCount = 0,
      cjr_TotalSizeBytes = spt_TotalSizeBytes task, cjr_Mode = TaskProcessingModeOther [],
      cjr_Tasks = jobTasks\<rparr>"

definition registerAndDispatch :: "SourceEnv \<Rightarrow> splitVideoTask \<Rightarrow> SourceWorld \<Rightarrow> bool \<times> SourceWorld" where
  "registerAndDispatch env task W =
     (let workerID = ws_workerID (sw_state W)
      in if workerID = [] then (False, W)
         else
           let (internalWork, jobTasks, W) = plan_segments env (spt_Segments task) [] [] W;
               W = activate (spt_VideoName task) (spt_Path task) sourcePhaseCreateJob 0 False W
           in case createJobWithRetry env (job_request workerID task jobTasks) W of
                (Inl err, W) \<Rightarrow> (False, release_all (se_shuffle env internalWork) W)
              | (Inr resp, W) \<Rightarrow>
                  let W = activate (spt_VideoName task) (spt_Path task) sourcePhaseDispatchSegments 0 False W
                  in case dispatch_loop env task workerID (cjp_Assignments resp) internalWork W of
                       (False, left, W) \<Rightarrow> (True, release_all (se_shuffle env left) W)
                     | (True, left, W) \<Rightarrow>
                         (True, activate (spt_VideoName task) (spt_Path task) sourcePhaseDone 0 False W))"

definition processOne :: "SourceEnv \<Rightarrow> string list \<Rightarrow> SourceWorld \<Rightarrow> SourceWorld" where
  "processOne env ord W =
     (if BackpressureActive (sw_state W) then W
      else
        case popPendingSplit ord (sw_runner W) of
          (None, r) \<Rightarrow> W\<lparr>sw_runner := r\<rparr>
        | (Some task, r) \<Rightarrow>
            let W = W\<lparr>sw_runner := r\<rparr>;
                W = activate (svt_VideoName task) (svt_Path task) sourcePhaseSplitWaitSlot 0 False W;
                W = (case splitVideo env task W of
                       (Some splitTask, W) \<Rightarrow>
                         (case registerAndDispatch env splitTask W of
                            (ok, W) \<Rightarrow> W\<lparr>sw_runner := markDone (svt_Path task) (sw_runner W)\<rparr>)
                     | (None, W) \<Rightarrow> W\<lparr>sw_runner := requeuePendingSplit task (sw_runner W)\<rparr>)
            in W\<lparr>sw_runner := clearActive (sw_runner W)\<rparr>)"

record SourceSnapshot =
  sn_PendingSplit :: int
  sn_Done :: int
  sn_Active :: sourceActiveState

definition SourceSnapshotOf :: "Runner \<Rightarrow> SourceSnapshot" where
  "SourceSnapshotOf r =
     \<lparr>sn_PendingSplit = int (card (dom (rn_pendingSplit r))), sn_Done = int (card (dom (rn_done r))),
      sn_Active = rn_active r\<rparr>"

end
