(* ===== verification/Source_Leases.thy ===== *)
theory Source_Leases
  imports Source_Runner "HOL-Library.Multiset"
begin

text \<open>
  The leases of the source worker: what the calls of a run acquire and give back. \<open>balance\<close>
  counts, per engine, acquisitions less releases; every function of the runner changes it by what
  its own result says it still holds.
\<close>

fun lease_delta :: "SourceCall \<Rightarrow> engine_ref \<Rightarrow> int" where
  "lease_delta (Acquired (Inr x)) e = (if x = e then 1 else 0)"
| "lease_delta (TryAcquired (Inr x)) e = (if x = e then 1 else 0)"
| "lease_delta (Released x) e = (if x = e then - 1 else 0)"
| "lease_delta c e = 0"

definition balance :: "SourceWorld \<Rightarrow> engine_ref \<Rightarrow> int" where
  "balance W e = (\<Sum>c\<leftarrow>sw_calls W. lease_delta c e)"

lemma balance_did [simp]: "balance (did c W) e = balance W e + lease_delta c e"
  by (simp add: balance_def did_def)

lemma balance_other [simp]:
  "balance (activate v p ph i has W) e = balance W e"
  "balance (W\<lparr>sw_state := s\<rparr>) e = balance W e"
  "balance (W\<lparr>sw_runner := r\<rparr>) e = balance W e"
  by (simp_all add: balance_def activate_def)

lemma lease_delta_report [simp]: "lease_delta (internal_report text w t outcome) e = 0"
  by (simp add: internal_report_def split: sum.split)

definition leases :: "(int \<times> internalSegmentWork) list \<Rightarrow> engine_ref \<Rightarrow> int" where
  "leases al e = int (count_list (map (isw_lease \<circ> snd) al) e)"

lemma leases_simps [simp]:
  "leases [] e = 0"
  "leases (x # al) e = (if isw_lease (snd x) = e then 1 else 0) + leases al e"
  "leases (al @ bl) e = leases al e + leases bl e"
  by (auto simp: leases_def)

lemma leases_nonneg: "0 \<le> leases al e"
  by (simp add: leases_def)

lemma leases_mset: "mset al = mset bl \<Longrightarrow> leases al e = leases bl e"
  by (simp add: leases_def count_mset [symmetric])

subsection \<open>The map of held work\<close>

lemma alist_update_fresh: "k \<notin> fst ` set al \<Longrightarrow> AList.update k v al = al @ [(k, v)]"
  by (induction al) auto

lemma alist_delete_absent: "k \<notin> fst ` set al \<Longrightarrow> AList.delete k al = al"
  by (induction al) auto

lemma leases_delete:
  "distinct (map fst al) \<Longrightarrow> map_of al i = Some w \<Longrightarrow>
   leases al e = leases (AList.delete i al) e + (if isw_lease w = e then 1 else 0)"
  by (induction al) (auto simp: alist_delete_absent split: if_splits)

lemma distinct_delete: "distinct (map fst al) \<Longrightarrow> distinct (map fst (AList.delete i al))"
  by (simp add: distinct_delete)

subsection \<open>What each part of the run holds\<close>

lemma plan_segments_leases:
  assumes "plan_segments env segs iw ts W = (iw', ts', W')"
    and "distinct (map fst iw)" "distinct (map sf_SegmentIndex segs)"
    and "fst ` set iw \<inter> sf_SegmentIndex ` set segs = {}"
  shows "distinct (map fst iw') \<and> balance W' e = balance W e + leases iw' e - leases iw e"
  using assms
proof (induction segs arbitrary: iw ts W)
  case (Cons s segs)
  let ?slot = "se_tryAcquire env (calls_made W)"
  show ?case
  proof (cases ?slot)
    case (Inl err)
    with Cons.IH [of iw _ "did (TryAcquired ?slot) W"] Cons.prems show ?thesis by simp
  next
    case (Inr lease)
    let ?iw = "iw @ [(sf_SegmentIndex s, \<lparr>isw_segment = s, isw_lease = lease\<rparr>)]"
    from Cons.prems(4) have fresh: "sf_SegmentIndex s \<notin> fst ` set iw" by auto
    have "distinct (map fst ?iw)" "fst ` set ?iw \<inter> sf_SegmentIndex ` set segs = {}"
      using Cons.prems(2-4) fresh by auto
    with Cons.IH [of ?iw _ "did (TryAcquired ?slot) W"] Cons.prems(1,3) Inr show ?thesis
      by (simp add: alist_update_fresh [OF fresh])
  qed
qed simp

lemma processInternalSegment_balance [simp]: "balance (processInternalSegment env l w a s W) e = balance W e"
  by (simp add: processInternalSegment_def Let_def)

lemma create_attempts_balance: "balance (snd (create_attempts env req ds W)) e = balance W e"
  by (induction env req ds W rule: create_attempts.induct)
    (auto simp: Let_def split: sum.split option.split)

lemma dispatch_loop_leases:
  assumes "dispatch_loop env task w as iw W = (finished, left, W')" and "distinct (map fst iw)"
  shows "distinct (map fst left) \<and> balance W' e + leases iw e = balance W e + leases left e"
  using assms
proof (induction as arbitrary: iw W)
  case (Cons a as)
  show ?case
  proof (cases "ta_Mode a")
    case TaskProcessingModeInternal
    show ?thesis
    proof (cases "map_of iw (ta_SegmentIndex a)")
      case None
      with TaskProcessingModeInternal Cons.prems show ?thesis by (simp add: Let_def)
    next
      case (Some work)
      with TaskProcessingModeInternal Cons.prems(1) Cons.IH [OF _ distinct_delete [OF Cons.prems(2)]]
      show ?thesis
        using leases_delete [OF Cons.prems(2) Some, of e] by (fastforce simp: Let_def)
    qed
  next
    case TaskProcessingModeExternal
    with Cons show ?thesis
      by (fastforce simp: Let_def split: option.splits if_splits)
  qed (use Cons.prems in simp)
qed simp

lemma release_all_balance: "balance (release_all al W) e = balance W e - leases al e"
  by (induction al W rule: release_all.induct) auto

end
