(* ===== verification/Worker_State_Spec.thy ===== *)
theory Worker_State_Spec
  imports Worker_State Entry_Handlers_Spec
begin

text \<open>
  What a worker tells Entry, and when Entry believes it: the reachable states of a worker
  (\<open>ws_step\<close>, one step per operation of \<open>workerstate.State\<close>, the task types those the program
  starts), the exact counts of a heartbeat, and the heartbeat composed with Entry's handler.
\<close>

inductive ws_step :: "WorkerState \<Rightarrow> WorkerState \<Rightarrow> bool" where
  ws_register: "ws_step s (SetRegistration workerID policy s)"
| ws_backpressure: "ws_step s (SetBackpressure status s)"
| ws_start: "IsSupportedTaskType taskType \<Longrightarrow> ws_step s (StartTask taskID taskType s)"
| ws_finish: "ws_step s (FinishTask taskID s)"

definition ws_ok :: "int \<Rightarrow> int \<Rightarrow> int \<Rightarrow> WorkerState \<Rightarrow> bool" where
  "ws_ok slots tot free s \<longleftrightarrow>
     finite (dom (ws_runningTasks s)) \<and> (\<forall>t\<in>ran (ws_runningTasks s). IsSupportedTaskType t)
     \<and> ws_TotalSlots s = slots \<and> ws_DiskTotalBytes s = tot \<and> ws_DiskFreeBytes s = free"

lemma ws_init_ok: "ws_ok slots tot free (NewWorkerState slots tot free)"
  by (simp add: ws_ok_def NewWorkerState_def)

lemma ran_upd_subset: "ran (m(k \<mapsto> v)) \<subseteq> insert v (ran m)" "ran (m(k := None)) \<subseteq> ran m"
  by (auto simp: ran_def)

lemma ws_step_ok:
  assumes "ws_ok slots tot free s" and "ws_step s s'"
  shows "ws_ok slots tot free s'"
  using assms(2)
proof (cases rule: ws_step.cases)
  case (ws_start taskType taskID)
  with assms(1) ran_upd_subset(1) [of "ws_runningTasks s" taskID taskType] show ?thesis
    by (auto simp: ws_ok_def StartTask_def)
next
  case (ws_finish taskID)
  with assms(1) ran_upd_subset(2) [of "ws_runningTasks s" taskID] show ?thesis
    by (auto simp: ws_ok_def FinishTask_def)
qed (use assms(1) in \<open>simp_all add: ws_ok_def SetRegistration_def SetBackpressure_def\<close>)

interpretation ws: transition_system "NewWorkerState slots tot free" ws_step "ws_ok slots tot free"
  for slots tot free
  by unfold_locales (rule ws_init_ok, rule ws_step_ok)

abbreviation ws_reachable :: "int \<Rightarrow> int \<Rightarrow> int \<Rightarrow> WorkerState \<Rightarrow> bool" where
  "ws_reachable slots tot free \<equiv> reachable_from (NewWorkerState slots tot free) ws_step"

subsection \<open>The request\<close>

definition running_of :: "TaskType \<Rightarrow> WorkerState \<Rightarrow> string set" where
  "running_of t s = {k. ws_runningTasks s k = Some t}"

lemma running_loop_exact:
  assumes "set ks \<subseteq> dom m"
    and "0 \<le> a" "a + int (length ks) < 2 ^ 63" "0 \<le> b" "b + int (length ks) < 2 ^ 63"
  shows "running_loop m ks (acc, a, b) =
     (acc @ map (\<lambda>k. \<lparr>rt_TaskID = k, rt_TaskType = the (m k)\<rparr>) ks,
      a + int (length (filter (\<lambda>k. m k = Some TaskTypeProcessSegment) ks)),
      b + int (length (filter (\<lambda>k. m k = Some TaskTypeAssembleGIF) ks)))"
  using assms
proof (induction ks arbitrary: acc a b)
  case (Cons k ks)
  then obtain t where t: "m k = Some t" by auto
  have add: "add64 a 1 = a + 1" "add64 b 1 = b + 1"
    using Cons.prems by (auto intro!: add64_eq simp: in64_def)
  have ks: "set ks \<subseteq> dom m" and
    le: "a + 1 + int (length ks) < 2 ^ 63" "b + 1 + int (length ks) < 2 ^ 63"
      "a + int (length ks) < 2 ^ 63" "b + int (length ks) < 2 ^ 63" "0 \<le> a + 1" "0 \<le> b + 1"
    using Cons.prems by simp_all
  show ?case
  proof (cases t)
    case TaskTypeProcessSegment
    with t add show ?thesis
      using Cons.IH [OF ks le(5,1) \<open>0 \<le> b\<close> le(4)] by simp
  next
    case TaskTypeAssembleGIF
    with t add show ?thesis
      using Cons.IH [OF ks \<open>0 \<le> a\<close> le(3) le(6,2)] by simp
  next
    case (TaskTypeOther x)
    with t show ?thesis
      using Cons.IH [OF ks \<open>0 \<le> a\<close> le(3) \<open>0 \<le> b\<close> le(4)] by simp
  qed
qed simp

lemma filter_card:
  assumes "enumerates (ws_runningTasks s) ord"
  shows "length (filter (\<lambda>k. ws_runningTasks s k = Some t) ord) = card (running_of t s)"
proof -
  have "set (filter (\<lambda>k. ws_runningTasks s k = Some t) ord) = running_of t s"
    using assms by (auto simp: running_of_def enumerates_def)
  with assms show ?thesis
    by (metis distinct_card distinct_filter enumerates_def)
qed

lemma HeartbeatRequest_fields:
  assumes "enumerates (ws_runningTasks s) ord" and "int (length ord) < 2 ^ 63"
  shows "HeartbeatRequest usage ord s =
     \<lparr>hwr_WorkerID = ws_workerID s, hwr_TotalSlots = ws_TotalSlots s,
      hwr_RunningProcessSegment = int (card (running_of TaskTypeProcessSegment s)),
      hwr_RunningAssembleGIF = int (card (running_of TaskTypeAssembleGIF s)),
      hwr_RunningTasks = map (\<lambda>k. \<lparr>rt_TaskID = k, rt_TaskType = the (ws_runningTasks s k)\<rparr>) ord,
      hwr_DiskTotalBytes = fst (diskUsageLocked usage s),
      hwr_DiskFreeBytes = snd (diskUsageLocked usage s), hwr_Metrics = []\<rparr>"
proof -
  have "running_loop (ws_runningTasks s) ord ([], 0, 0) =
      (map (\<lambda>k. \<lparr>rt_TaskID = k, rt_TaskType = the (ws_runningTasks s k)\<rparr>) ord,
       int (card (running_of TaskTypeProcessSegment s)), int (card (running_of TaskTypeAssembleGIF s)))"
    using running_loop_exact [of ord "ws_runningTasks s" 0 0 "[]"] assms filter_card [OF assms(1)]
    by (simp add: enumerates_def)
  then show ?thesis by (simp add: HeartbeatRequest_def split_beta)
qed

lemma validate_tasks_supported:
  assumes "ws_ok slots tot free s" and "set ord \<subseteq> dom (ws_runningTasks s)"
  shows "validate_tasks (map (\<lambda>k. the (ws_runningTasks s k)) ord) = None"
  using assms(2)
proof (induction ord)
  case (Cons k ks)
  then obtain t where t: "ws_runningTasks s k = Some t" by auto
  then have "t \<in> ran (ws_runningTasks s)" by (rule ranI)
  with assms(1) have "IsSupportedTaskType t" unfolding ws_ok_def by blast
  with Cons t show ?case by simp
qed simp

lemma HeartbeatRequest_valid:
  assumes "ws_ok slots tot free s" and "enumerates (ws_runningTasks s) ord" and "int (length ord) < 2 ^ 63"
  shows "validateHeartbeatWorkerRequest (HeartbeatRequest usage ord s) = None"
  using validate_tasks_supported [OF assms(1), of ord] assms(2)
  by (simp add: validateHeartbeatWorkerRequest_def HeartbeatRequest_fields [OF assms(2,3)] enumerates_def comp_def)

lemma running_counts:
  assumes "ws_ok slots tot free s" and "enumerates (ws_runningTasks s) ord"
  shows "card (running_of TaskTypeProcessSegment s) + card (running_of TaskTypeAssembleGIF s) = length ord"
proof -
  have "dom (ws_runningTasks s) = running_of TaskTypeProcessSegment s \<union> running_of TaskTypeAssembleGIF s"
  proof (intro equalityI subsetI)
    fix k assume "k \<in> dom (ws_runningTasks s)"
    then obtain t where t: "ws_runningTasks s k = Some t" by auto
    then have "t \<in> ran (ws_runningTasks s)" by (rule ranI)
    with assms(1) have "IsSupportedTaskType t" unfolding ws_ok_def by blast
    with t show "k \<in> running_of TaskTypeProcessSegment s \<union> running_of TaskTypeAssembleGIF s"
      by (simp add: running_of_def IsSupportedTaskType_iff)
  qed (auto simp: running_of_def)
  moreover have "finite (dom (ws_runningTasks s))" using assms(1) by (simp add: ws_ok_def)
  moreover have "running_of TaskTypeProcessSegment s \<inter> running_of TaskTypeAssembleGIF s = {}"
    by (auto simp: running_of_def)
  ultimately have "card (dom (ws_runningTasks s))
      = card (running_of TaskTypeProcessSegment s) + card (running_of TaskTypeAssembleGIF s)"
    by (metis card_Un_disjoint finite_Un)
  moreover have "card (dom (ws_runningTasks s)) = length ord"
    using assms(2) by (metis distinct_card enumerates_def)
  ultimately show ?thesis by simp
qed

subsection \<open>The heartbeat, answered by Entry\<close>

text \<open>A handler's reply as the client receives it; the framework answers a panic with 500 and
  no body.\<close>

definition over_http :: "'a reply \<Rightarrow> 'a HttpResult" where
  "over_http r = (case r of Some (code, body) \<Rightarrow> HttpResp code (Inr body)
                  | None \<Rightarrow> HttpResp StatusInternalServerError (Inl ''EOF''))"

definition entry_heartbeat ::
  "int \<Rightarrow> HeartbeatWorkerRequest \<Rightarrow> WorkerRegistry \<Rightarrow> HeartbeatWorkerResponse HttpResult \<times> WorkerRegistry" where
  "entry_heartbeat now req r = (case Heartbeat (Some req) now r of (rep, r') \<Rightarrow> (over_http rep, r'))"

text \<open>What it takes for a heartbeat to be accepted, of the worker and of Entry (a predicate of the
  specification).\<close>

definition heartbeat_valid :: "(int \<times> int) option \<Rightarrow> WorkerState \<Rightarrow> WorkerRegistry \<Rightarrow> bool" where
  "heartbeat_valid usage s r \<longleftrightarrow>
     ws_workerID s \<noteq> [] \<and> wr_byID r (ws_workerID s) \<noteq> None \<and> 1 \<le> ws_TotalSlots s
     \<and> 0 < fst (diskUsageLocked usage s) \<and> 0 < snd (diskUsageLocked usage s)"

lemma HeartbeatRequest_bind:
  assumes "ws_ok slots tot free s" and "enumerates (ws_runningTasks s) ord" and "int (length ord) < 2 ^ 63"
  shows "bind_HeartbeatWorkerRequest (HeartbeatRequest usage ord s) \<longleftrightarrow>
      ws_workerID s \<noteq> [] \<and> 1 \<le> slots \<and> in64 slots
      \<and> 0 < fst (diskUsageLocked usage s) \<and> in64 (fst (diskUsageLocked usage s))
      \<and> 0 < snd (diskUsageLocked usage s) \<and> in64 (snd (diskUsageLocked usage s))"
  using assms(1) by (auto simp: bind_HeartbeatWorkerRequest_def HeartbeatRequest_fields [OF assms(2,3)] ws_ok_def)

text \<open>The exchange of one heartbeat.\<close>

lemma heartbeat_exchange:
  assumes "ws_ok slots tot free s"
    and "enumerates (ws_runningTasks s) ord" and "int (length ord) < 2 ^ 63"
    and "in64 slots" and "in64 (fst (diskUsageLocked usage s))" and "in64 (snd (diskUsageLocked usage s))"
  shows "heartbeat_send (entry_heartbeat now) usage ord (s, r) =
     (if heartbeat_valid usage s r
      then (SetBackpressure (wr_backpressure r) s, snd (HeartbeatWorker (HeartbeatRequest usage ord s) now r))
      else (s, r))"
proof -
  let ?req = "HeartbeatRequest usage ord s"
  note fields = HeartbeatRequest_fields [OF assms(2,3)]
  have valid: "validateHeartbeatWorkerRequest ?req = None"
    by (rule HeartbeatRequest_valid [OF assms(1-3)])
  have bind: "bind_HeartbeatWorkerRequest ?req \<longleftrightarrow>
      ws_workerID s \<noteq> [] \<and> 1 \<le> ws_TotalSlots s \<and> 0 < fst (diskUsageLocked usage s)
      \<and> 0 < snd (diskUsageLocked usage s)"
    using HeartbeatRequest_bind [OF assms(1-3), of usage] assms(1,4-6) by (simp add: ws_ok_def)
  have wid: "hwr_WorkerID ?req = ws_workerID s" by (simp add: fields)
  show ?thesis
  proof (cases "heartbeat_valid usage s r")
    case True
    with bind valid wid have "Heartbeat (Some ?req) now r =
        (Some (StatusOK, \<lparr>hwp_Status = HeartbeatWorkerStatusSuccess,
           hwp_GlobalBackpressure = GetBackpressureStatus (snd (HeartbeatWorker ?req now r))\<rparr>),
         snd (HeartbeatWorker ?req now r))"
      by (auto simp: Heartbeat_def ShouldBindJSON_def HeartbeatWorker_def heartbeat_valid_def)
    moreover have "GetBackpressureStatus (snd (HeartbeatWorker ?req now r)) = wr_backpressure r"
      by (auto simp: GetBackpressureStatus_def HeartbeatWorker_def set_worker_def split: option.split)
    ultimately show ?thesis
      using True wid
      by (simp add: heartbeat_send_def Let_def entry_heartbeat_def over_http_def read_heartbeat_def
          postJSON_def heartbeat_valid_def)
  next
    case False
    then have "ws_workerID s = [] \<or> (\<exists>code st. code \<noteq> StatusOK \<and> 400 \<le> code \<and>
        Heartbeat (Some ?req) now r = (Some (code, \<lparr>hwp_Status = st,
          hwp_GlobalBackpressure = zero_BackpressureStatus\<rparr>), r))"
      using bind valid wid
      by (auto simp: Heartbeat_def ShouldBindJSON_def HeartbeatWorker_def heartbeat_valid_def)
    with False wid show ?thesis
      by (auto simp: heartbeat_send_def Let_def entry_heartbeat_def over_http_def read_heartbeat_def
          postJSON_def)
  qed
qed

text \<open>
  C28. In every state a worker can reach, its heartbeat names each running task once, with the counts
  per type, which add up to the number of tasks; it carries the worker's identifier, its slots and
  the disk figures it read; and Entry's validation of the task types never refuses it. Entry's
  binding takes it exactly when the worker is registered, has a slot and both disk figures are positive
  (and these fit in 64 bits): a full disk, with 0 bytes free, is refused.
\<close>

theorem heartbeat_well_typed:
  assumes "ws_reachable slots tot free s"
    and "enumerates (ws_runningTasks s) ord" and "int (length ord) < 2 ^ 63"
  shows "let req = HeartbeatRequest usage ord s in
      distinct (map rt_TaskID (hwr_RunningTasks req))
    \<and> set (map rt_TaskID (hwr_RunningTasks req)) = dom (ws_runningTasks s)
    \<and> hwr_RunningProcessSegment req + hwr_RunningAssembleGIF req = int (length (hwr_RunningTasks req))
    \<and> hwr_RunningProcessSegment req = int (card (running_of TaskTypeProcessSegment s))
    \<and> in64 (hwr_RunningProcessSegment req) \<and> in64 (hwr_RunningAssembleGIF req)
    \<and> hwr_WorkerID req = ws_workerID s \<and> hwr_TotalSlots req = slots
    \<and> (hwr_DiskTotalBytes req, hwr_DiskFreeBytes req) = diskUsageLocked usage s
    \<and> validateHeartbeatWorkerRequest req = None
    \<and> (bind_HeartbeatWorkerRequest req \<longleftrightarrow>
        ws_workerID s \<noteq> [] \<and> 1 \<le> slots \<and> in64 slots
        \<and> 0 < fst (diskUsageLocked usage s) \<and> in64 (fst (diskUsageLocked usage s))
        \<and> 0 < snd (diskUsageLocked usage s) \<and> in64 (snd (diskUsageLocked usage s)))"
proof -
  have ok: "ws_ok slots tot free s" using assms(1) by (rule ws.reachable_inv)
  note fields = HeartbeatRequest_fields [OF assms(2,3)]
  note valid = HeartbeatRequest_valid [OF ok assms(2,3), of usage]
    and bind = HeartbeatRequest_bind [OF ok assms(2,3), of usage]
  have "int (card (running_of TaskTypeProcessSegment s)) + int (card (running_of TaskTypeAssembleGIF s))
      = int (length ord)"
    using running_counts [OF ok assms(2)] by simp
  moreover have "in64 x" if "0 \<le> x" "x \<le> int (length ord)" for x
    using that assms(3) by (simp add: in64_def)
  moreover have "ws_TotalSlots s = slots" using ok by (simp add: ws_ok_def)
  ultimately show ?thesis
    unfolding Let_def using assms(2) valid bind by (simp add: fields comp_def enumerates_def)
qed

text \<open>
  C27. A heartbeat of a reachable worker, sent to Entry's handler: it is accepted, and the worker
  takes over Entry's backpressure, exactly when the worker is registered there, has a slot and
  has disk space left. In every other case, a full disk too (\<open>binding:"required"\<close> refuses the
  value 0), neither side changes: Entry does not refresh the worker, which then expires.
\<close>

theorem heartbeat_accepted_iff:
  assumes "ws_reachable slots tot free s"
    and "enumerates (ws_runningTasks s) ord" and "int (length ord) < 2 ^ 63"
    and "in64 slots" and "in64 (fst (diskUsageLocked usage s))" and "in64 (snd (diskUsageLocked usage s))"
  shows "heartbeat_send (entry_heartbeat now) usage ord (s, r) =
     (if heartbeat_valid usage s r
      then (SetBackpressure (wr_backpressure r) s, snd (HeartbeatWorker (HeartbeatRequest usage ord s) now r))
      else (s, r))"
  by (rule heartbeat_exchange [OF ws.reachable_inv [OF assms(1)] assms(2-6)])

subsection \<open>Witnesses\<close>

definition ex_ws :: WorkerState where
  "ex_ws = StartTask ''tsk_2'' TaskTypeAssembleGIF (StartTask ''tsk_1'' TaskTypeProcessSegment
     (SetRegistration ''a'' zero_SplitPolicy (NewWorkerState 2 100 50)))"

lemma ex_ws_reachable: "ws_reachable 2 100 50 ex_ws"
  unfolding ex_ws_def
  by (rule reachable_from_path, rule converse_rtranclp_into_rtranclp, rule ws_register,
      rule converse_rtranclp_into_rtranclp, rule ws_start [where taskID = "''tsk_1''" and taskType = TaskTypeProcessSegment], simp,
      rule converse_rtranclp_into_rtranclp, rule ws_start [where taskID = "''tsk_2''" and taskType = TaskTypeAssembleGIF], simp,
      rule rtranclp.rtrancl_refl)

lemma ex_ws_enum: "enumerates (ws_runningTasks ex_ws) [''tsk_1'', ''tsk_2'']"
  by (auto simp: enumerates_def ex_ws_def StartTask_def SetRegistration_def NewWorkerState_def)

theorem heartbeat_well_typed_witness:
  "hwr_RunningProcessSegment (HeartbeatRequest None [''tsk_1'', ''tsk_2''] ex_ws)
     + hwr_RunningAssembleGIF (HeartbeatRequest None [''tsk_1'', ''tsk_2''] ex_ws) = 2
   \<and> bind_HeartbeatWorkerRequest (HeartbeatRequest None [''tsk_1'', ''tsk_2''] ex_ws)
   \<and> \<not> bind_HeartbeatWorkerRequest (HeartbeatRequest (Some (100, 0)) [''tsk_1'', ''tsk_2''] ex_ws)"
proof -
  have vals: "diskUsageLocked None ex_ws = (100, 50)" "diskUsageLocked (Some (100, 0)) ex_ws = (100, 0)"
    "ws_workerID ex_ws = ''a''"
    by (simp_all add: diskUsageLocked_def ex_ws_def StartTask_def SetRegistration_def NewWorkerState_def)
  note T = heartbeat_well_typed [OF ex_ws_reachable ex_ws_enum, unfolded Let_def]
  have "length (hwr_RunningTasks (HeartbeatRequest None [''tsk_1'', ''tsk_2''] ex_ws)) = 2"
    by (simp add: HeartbeatRequest_fields [OF ex_ws_enum])
  with T [of None] T [of "Some (100, 0)"] show ?thesis by (simp add: vals in64_def)
qed

theorem heartbeat_accepted_iff_witness:
  "fst (heartbeat_send (entry_heartbeat 5) None [''tsk_1'', ''tsk_2''] (ex_ws, ex_registry))
     = SetBackpressure zero_BackpressureStatus ex_ws
   \<and> heartbeat_send (entry_heartbeat 5) (Some (100, 0)) [''tsk_1'', ''tsk_2''] (ex_ws, ex_registry)
     = (ex_ws, ex_registry)"
proof -
  have vals: "diskUsageLocked None ex_ws = (100, 50)" "diskUsageLocked (Some (100, 0)) ex_ws = (100, 0)"
    "ws_workerID ex_ws = ''a''" "ws_TotalSlots ex_ws = 2"
    by (simp_all add: diskUsageLocked_def ex_ws_def StartTask_def SetRegistration_def NewWorkerState_def)
  note ok = heartbeat_accepted_iff [OF ex_ws_reachable ex_ws_enum, where now = 5 and r = ex_registry]
  have reg: "wr_byID ex_registry ''a'' \<noteq> None" "wr_backpressure ex_registry = zero_BackpressureStatus"
    by (simp_all add: ex_registry_def)
  have "heartbeat_valid None ex_ws ex_registry" "\<not> heartbeat_valid (Some (100, 0)) ex_ws ex_registry"
    using reg by (simp_all add: heartbeat_valid_def vals)
  then show ?thesis
    using ok [of None] ok [of "Some (100, 0)"] reg by (simp add: vals in64_def)
qed

end
