(* ===== verification/Source_Spec.thy ===== *)
theory Source_Spec
  imports Source_Leases Worker_State_Spec
begin

text \<open>
  What the source worker does with a split video: which leases it may still hold at the end, that
  a fresh answer of Entry leads to every segment dispatched once and every lease returned, what
  an "already exists" answer does instead, and that no video is dispatched twice.
\<close>

subsection \<open>The calls a run makes\<close>

fun task_sent :: "SourceCall \<Rightarrow> string list" where
  "task_sent (TaskFailed t req) = [t]"
| "task_sent (TaskCompleted t req) = [t]"
| "task_sent (SegmentUploaded address t path outcome) = [t]"
| "task_sent c = []"

text \<open>The tasks reported on or uploaded, in the order of the calls.\<close>

definition dispatched :: "SourceWorld \<Rightarrow> string list" where
  "dispatched W = concat (map task_sent (sw_calls W))"

lemma dispatched_did [simp]: "dispatched (did c W) = dispatched W @ task_sent c"
  by (simp add: dispatched_def did_def)

lemma dispatched_other [simp]:
  "dispatched (activate v p ph i has W) = dispatched W"
  "dispatched (W\<lparr>sw_state := s\<rparr>) = dispatched W"
  by (simp_all add: dispatched_def activate_def)

lemma task_sent_report [simp]: "task_sent (internal_report text w t outcome) = [t]"
  by (simp add: internal_report_def split: sum.split)

lemma processInternalSegment_dispatched [simp]:
  "dispatched (processInternalSegment env l w a s W) = dispatched W @ [ta_TaskID a]"
  by (simp add: processInternalSegment_def Let_def)

lemma release_all_dispatched: "dispatched (release_all al W) = dispatched W"
  by (induction al W rule: release_all.induct) auto

lemma create_attempts_dispatched: "dispatched (snd (create_attempts env req ds W)) = dispatched W"
  by (induction env req ds W rule: create_attempts.induct)
    (auto simp: Let_def split: sum.split option.split)

lemma plan_segments_dispatched:
  "plan_segments env segs iw ts W = (iw', ts', W') \<Longrightarrow> dispatched W' = dispatched W"
  by (induction segs arbitrary: iw ts W) (fastforce simp: Let_def split: sum.splits)+

lemma plan_segments_state:
  "plan_segments env segs iw ts W = (iw', ts', W') \<Longrightarrow> sw_state W' = sw_state W"
  by (induction segs arbitrary: iw ts W) (fastforce simp: Let_def did_def split: sum.splits)+

subsection \<open>The plan\<close>

definition internal_indexes :: "CreateJobTaskRequest list \<Rightarrow> int set" where
  "internal_indexes ts = cjt_SegmentIndex ` {t \<in> set ts. cjt_Mode t = TaskProcessingModeInternal}"

lemma plan_segments_plan:
  assumes "plan_segments env segs iw ts W = (iw', ts', W')"
  shows "map cjt_SegmentIndex ts' = map cjt_SegmentIndex ts @ map sf_SegmentIndex segs
    \<and> cjt_Mode ` set ts' \<subseteq> cjt_Mode ` set ts \<union> {TaskProcessingModeInternal, TaskProcessingModeExternal}
    \<and> (fst ` set iw = internal_indexes ts \<longrightarrow> fst ` set iw' = internal_indexes ts')"
  using assms
proof (induction segs arbitrary: iw ts W)
  case (Cons s segs)
  let ?slot = "se_tryAcquire env (calls_made W)"
  let ?t = "\<lambda>mode. \<lparr>cjt_SegmentIndex = sf_SegmentIndex s, cjt_Mode = mode\<rparr>"
  have ind: "internal_indexes (ts @ [?t TaskProcessingModeInternal]) = insert (sf_SegmentIndex s) (internal_indexes ts)"
    "internal_indexes (ts @ [?t TaskProcessingModeExternal]) = internal_indexes ts"
    by (force simp: internal_indexes_def)+
  have upd: "fst ` set (AList.update k v al) = insert k (fst ` set al)" for k v and al :: "(int \<times> internalSegmentWork) list"
    using dom_update [of k v al] by simp
  show ?case
  proof (cases ?slot)
    case (Inl err)
    with Cons.IH [of iw "ts @ [?t TaskProcessingModeExternal]" "did (TryAcquired ?slot) W"] Cons.prems ind
    show ?thesis by auto
  next
    case (Inr lease)
    with Cons.IH [of "AList.update (sf_SegmentIndex s) \<lparr>isw_segment = s, isw_lease = lease\<rparr> iw"
        "ts @ [?t TaskProcessingModeInternal]" "did (TryAcquired ?slot) W"] Cons.prems ind upd
    show ?thesis by auto
  qed
qed auto

lemma segmentByIndex_Some: "i \<in> sf_SegmentIndex ` set segs \<Longrightarrow> \<exists>s. segmentByIndex segs i = Some s"
  by (induction segs) auto

subsection \<open>Dispatching a fresh job\<close>

text \<open>An answer that gives every task of the plan one assignment, as Entry does for a new job.\<close>

definition answers_plan :: "CreateJobTaskRequest \<Rightarrow> TaskAssignment \<Rightarrow> bool" where
  "answers_plan t a \<longleftrightarrow>
     ta_SegmentIndex a = cjt_SegmentIndex t \<and> ta_Mode a = cjt_Mode t
     \<and> (cjt_Mode t = TaskProcessingModeExternal \<longrightarrow> ta_Address a \<noteq> [])"

lemma dispatch_loop_all:
  assumes "list_all2 answers_plan ts as"
    and "distinct (map cjt_SegmentIndex ts)" "distinct (map fst iw)"
    and "cjt_SegmentIndex ` set ts \<subseteq> sf_SegmentIndex ` set (spt_Segments task)"
    and "cjt_Mode ` set ts \<subseteq> {TaskProcessingModeInternal, TaskProcessingModeExternal}"
    and "fst ` set iw = internal_indexes ts"
    and "\<forall>n. se_upload env n = None"
  shows "\<exists>W'. dispatch_loop env task w as iw W = (True, [], W') \<and> dispatched W' = dispatched W @ map ta_TaskID as"
  using assms
proof (induction ts as arbitrary: iw W rule: list_all2_induct)
  case Nil
  then show ?case by (simp add: internal_indexes_def)
next
  case (Cons t ts a as)
  note a = Cons.hyps(1) [unfolded answers_plan_def]
  show ?case
  proof (cases "cjt_Mode t")
    case TaskProcessingModeInternal
    let ?iw = "AList.delete (cjt_SegmentIndex t) iw"
    have "cjt_SegmentIndex t \<in> fst ` set iw"
      using Cons.prems(5) TaskProcessingModeInternal by (auto simp: internal_indexes_def)
    then obtain work where w: "map_of iw (cjt_SegmentIndex t) = Some work"
      by (metis map_of_eq_None_iff not_Some_eq)
    have "fst ` set ?iw = fst ` set iw - {cjt_SegmentIndex t}"
      using delete_keys [of "cjt_SegmentIndex t" iw] by (metis list.set_map set_removeAll)
    also have "\<dots> = internal_indexes ts"
      using Cons.prems(1,5) TaskProcessingModeInternal
      by (auto simp: internal_indexes_def dest: sym [of "cjt_SegmentIndex _" "cjt_SegmentIndex t"])
    finally have "fst ` set ?iw = internal_indexes ts" .
    let ?W = "did (Released (isw_lease work)) (processInternalSegment env (isw_lease work) w a (isw_segment work)
      (activate (spt_VideoName task) (spt_Path task) sourcePhaseProcessInternalSegment (cjt_SegmentIndex t) True W))"
    obtain W' where "dispatch_loop env task w as ?iw ?W = (True, [], W')"
      "dispatched W' = dispatched ?W @ map ta_TaskID as"
      using Cons.IH [of ?iw ?W] Cons.prems \<open>fst ` set ?iw = internal_indexes ts\<close>
      by (auto simp: distinct_delete)
    with w a TaskProcessingModeInternal show ?thesis
      by (intro exI [of _ W']) (simp add: Let_def)
  next
    case TaskProcessingModeExternal
    have ext: "internal_indexes (t # ts) = internal_indexes ts"
      using TaskProcessingModeExternal by (auto simp: internal_indexes_def)
    obtain s where s: "segmentByIndex (spt_Segments task) (cjt_SegmentIndex t) = Some s"
      using segmentByIndex_Some [of "cjt_SegmentIndex t" "spt_Segments task"] Cons.prems(3) by auto
    let ?W = "did (SegmentUploaded (ta_Address a) (ta_TaskID a) (sf_Path s) None)
      (activate (spt_VideoName task) (spt_Path task) sourcePhaseUploadExternalSegment (cjt_SegmentIndex t) True W)"
    obtain W' where "dispatch_loop env task w as iw ?W = (True, [], W')"
      "dispatched W' = dispatched ?W @ map ta_TaskID as"
      using Cons.IH [of iw ?W] Cons.prems ext by auto
    with s a TaskProcessingModeExternal Cons.prems(6) show ?thesis
      by (intro exI [of _ W']) (simp add: Let_def)
  next
    case (TaskProcessingModeOther x)
    with Cons.prems(4) show ?thesis by auto
  qed
qed

subsection \<open>Leases\<close>

text \<open>The held work that no internal assignment of an answer names.\<close>

definition unassigned ::
  "TaskAssignment list \<Rightarrow> (int \<times> internalSegmentWork) list \<Rightarrow> (int \<times> internalSegmentWork) list" where
  "unassigned as iw =
     filter (\<lambda>x. \<forall>a\<in>set as. ta_Mode a = TaskProcessingModeInternal \<longrightarrow> ta_SegmentIndex a \<noteq> fst x) iw"

lemma unassigned_Cons:
  "unassigned (a # as) iw =
     (if ta_Mode a = TaskProcessingModeInternal then unassigned as (AList.delete (ta_SegmentIndex a) iw)
      else unassigned as iw)"
  by (auto simp: unassigned_def AList.delete_eq intro!: filter_cong)

lemma dispatch_loop_left:
  "dispatch_loop env task w as iw W = (True, left, W') \<Longrightarrow> left = unassigned as iw"
proof (induction as arbitrary: iw W)
  case (Cons a as)
  show ?case
  proof (cases "ta_Mode a")
    case TaskProcessingModeInternal
    then obtain work where w: "map_of iw (ta_SegmentIndex a) = Some work"
      using Cons.prems by (cases "map_of iw (ta_SegmentIndex a)") (simp_all add: Let_def)
    let ?iw = "AList.delete (ta_SegmentIndex a) iw"
    obtain W1 where "dispatch_loop env task w as ?iw W1 = (True, left, W')"
      using Cons.prems TaskProcessingModeInternal w by (simp add: Let_def)
    from Cons.IH [OF this] TaskProcessingModeInternal show ?thesis by (simp add: unassigned_Cons)
  next
    case TaskProcessingModeExternal
    with Cons.prems obtain W1 where "dispatch_loop env task w as iw W1 = (True, left, W')"
      by (auto simp: Let_def split: option.splits if_splits)
    from Cons.IH [OF this] TaskProcessingModeExternal show ?thesis by (simp add: unassigned_Cons)
  qed (use Cons.prems in simp)
qed (simp add: unassigned_def)

lemma dispatch_answered:
  assumes "createJobWithRetry env req W2 = (Inr resp, W3)"
    and "dispatch_loop env task w (cjp_Assignments resp) iw (activate v path phase n b W3) = (fin, left, W5)"
    and "distinct (map fst iw)" and "\<forall>al. mset (se_shuffle env al) = mset al"
  shows "balance (if fin then W5 else release_all (se_shuffle env left) W5) e
      = balance W2 e - leases iw e + (if fin then leases (unassigned (cjp_Assignments resp) iw) e else 0)"
proof -
  have "balance W3 e = balance W2 e" for e
    using create_attempts_balance [of env req createJobRetryDelays W2 e] assms(1) by (simp add: createJobWithRetry_def)
  moreover have "leases (se_shuffle env al) e = leases al e" for al e
    using assms(4) leases_mset by blast
  ultimately show ?thesis
    using dispatch_loop_leases [OF assms(2,3), of e] dispatch_loop_left [of env task w "cjp_Assignments resp" iw _ left W5]
      assms(2) by (cases fin) (simp_all add: release_all_balance)
qed

text \<open>
  C17. The leases of a dispatch, engine by engine and for any outcomes of its calls. Planning leases one
  engine per internal segment. When the job cannot be created, or one of the assignments cannot be
  carried out (no lease or no segment for it, no address, a failed upload), every lease of the plan is
  given back, whatever was already processed. When all assignments went through, what the
  runner still holds are exactly the leases of planned internal segments that no internal
  assignment of the answer names: none is released twice, and an assigned one is always given back.
\<close>

theorem leases_accounted:
  assumes "distinct (map sf_SegmentIndex (spt_Segments task))" and "\<forall>al. mset (se_shuffle env al) = mset al"
    and "w = ws_workerID (sw_state W)" and "w \<noteq> []"
    and "plan_segments env (spt_Segments task) [] [] W = (iw, ts, W1)"
    and "createJobWithRetry env (job_request w task ts)
      (activate (spt_VideoName task) (spt_Path task) sourcePhaseCreateJob 0 False W1) = (answer, W3)"
    and "registerAndDispatch env task W = (ok, W')"
  shows "balance W1 e = balance W e + leases iw e
    \<and> (case answer of
         Inl err \<Rightarrow> \<not> ok \<and> balance W' e = balance W e
       | Inr resp \<Rightarrow> ok \<and> balance W' e = balance W e +
           (if fst (dispatch_loop env task w (cjp_Assignments resp) iw
               (activate (spt_VideoName task) (spt_Path task) sourcePhaseDispatchSegments 0 False W3))
            then leases (unassigned (cjp_Assignments resp) iw) e else 0))"
proof -
  let ?W2 = "activate (spt_VideoName task) (spt_Path task) sourcePhaseCreateJob 0 False W1"
  have iw: "distinct (map fst iw)" "balance W1 e = balance W e + leases iw e"
    using plan_segments_leases [OF assms(5) _ assms(1)] by simp_all
  show ?thesis
  proof (cases answer)
    case (Inl err)
    have "balance W3 e = balance W1 e"
      using create_attempts_balance [of env "job_request w task ts" createJobRetryDelays ?W2 e] assms(6) by (simp add: createJobWithRetry_def)
    moreover from Inl assms(3-7) have "\<not> ok" "W' = release_all (se_shuffle env iw) W3"
      by (simp_all add: registerAndDispatch_def Let_def)
    moreover have "leases (se_shuffle env iw) e = leases iw e" using assms(2) leases_mset by blast
    ultimately show ?thesis using iw(2) Inl by (simp add: release_all_balance)
  next
    case (Inr resp)
    let ?W4 = "activate (spt_VideoName task) (spt_Path task) sourcePhaseDispatchSegments 0 False W3"
    obtain fin left W5 where D: "dispatch_loop env task w (cjp_Assignments resp) iw ?W4 = (fin, left, W5)"
      by (metis prod.exhaust)
    note answered = dispatch_answered [OF assms(6) [unfolded Inr] D iw(1) assms(2), of e]
    from assms(3-7) Inr D have "ok" "W' = (if fin then activate (spt_VideoName task) (spt_Path task) sourcePhaseDone 0 False W5
        else release_all (se_shuffle env left) W5)"
      by (cases fin; simp add: registerAndDispatch_def Let_def)+
    with answered iw(2) Inr D show ?thesis by (cases fin) simp_all
  qed
qed

subsection \<open>Entry's answer\<close>

lemma Create_fresh_answer:
  assumes C: "Create (Some req) ev E = (Some (code, resp), E')" and S: "cjp_Status resp = CreateJobStatusSuccess"
    and L: "ledger_registry (en_workers E)"
    and lim: "\<forall>k. slots_of (en_workers E) k + int (length (cjr_Tasks req)) < slot_limit"
    and addr: "\<forall>w. addr_of (en_workers E) w \<noteq> Some []"
    and ts: "cjr_Tasks req \<noteq> []" "cjt_Mode ` set (cjr_Tasks req) \<subseteq> {TaskProcessingModeInternal, TaskProcessingModeExternal}"
  shows "code = StatusOK \<and> cjp_JobID resp \<noteq> [] \<and> list_all2 answers_plan (cjr_Tasks req) (cjp_Assignments resp)"
proof -
  have plan: "createJobTaskPlan req = Inr (cjr_Tasks req)"
    using ts by (auto simp: createJobTaskPlan_def plan_modes_known_iff)
  obtain res err where R: "CreateJob req ev E = ((res, err), E')" and code: "code = StatusOK"
    and err: "err = None" "\<not> cr_AlreadyExists res" and resp: "cjp_JobID resp = cr_JobID res" "cjp_Assignments resp = cr_Assignments res"
    using C S by (auto simp: Create_def ShouldBindJSON_def create_error_def zero_CreateJobResponse_def
        split: if_splits prod.splits option.splits ServiceError.splits)
  obtain sw where sw: "wr_byID (en_workers E) (cjr_WorkerID req) = Some sw"
    using R err plan by (auto simp: CreateJob_def GetWorker_def split: option.splits)
  let ?key = "jobIdentityKey (w_Address sw) (cjr_VideoName req)"
  have W: "createJobWithTaskPlan req sw ?key (cjr_Tasks req) ev E = ((res, None), E')"
    using R err plan sw by (auto simp: CreateJob_def GetWorker_def already_exists_def Let_def split: option.splits)
  from createJobWithTaskPlan_cases [OF L lim W] err
  have "job_created req (cjr_Tasks req) sw res E E'" by simp
  then obtain tasks now where tasks: "list_all2 (task_for (cr_JobID res) now) (cjr_Tasks req) tasks"
    "cr_Assignments res = map assignment_for tasks"
    "\<forall>t\<in>set tasks. \<exists>w. wr_byID (en_workers E') (t_AssignedWorkerID t) = Some w \<and> t_AssignedWorkerAddress t = w_Address w"
    unfolding job_created_def by blast
  have "addr_of (en_workers E') = addr_of (en_workers E)"
    using CreateJob_addr [OF _ R] L by (simp add: ledger_registry_def)
  with addr tasks(3) have "\<forall>t\<in>set tasks. t_AssignedWorkerAddress t \<noteq> []"
    unfolding addr_of_def by (metis option.map(2))
  with tasks(1) have "list_all2 answers_plan (cjr_Tasks req) (map assignment_for tasks)"
    by (auto simp: list_all2_conv_all_nth task_for_def answers_plan_def assignment_for_def)
  moreover have "cr_JobID res \<noteq> []"
    using W err(2) by (auto simp: createJobWithTaskPlan_def nextID_def Let_def created_def new_job_def already_exists_def
        commit_job_def split: sum.splits prod.splits option.splits)
  ultimately show ?thesis using code resp tasks(2) by simp
qed

text \<open>
  C15. A new job is dispatched completely: when Entry answers the first attempt with a new job and
  every upload succeeds, the source worker sends or processes each task of the job exactly once,
  in the order of the segments, and returns every lease it took for them.
\<close>

theorem fresh_job_dispatched:
  assumes "plan_segments env (spt_Segments task) [] [] W = (iw, ts, W1)"
    and "Create (Some (job_request (ws_workerID (sw_state W)) task ts)) ev E = (Some (code, resp), E')"
    and "se_create env (calls_made W1) = read_create (over_http (Some (code, resp)))"
    and "cjp_Status resp = CreateJobStatusSuccess" and "\<forall>n. se_upload env n = None"
    and "ws_workerID (sw_state W) \<noteq> []" and "spt_Segments task \<noteq> []"
    and "distinct (map sf_SegmentIndex (spt_Segments task))"
    and "ledger_registry (en_workers E)" and "\<forall>k. addr_of (en_workers E) k \<noteq> Some []"
    and "\<forall>k. slots_of (en_workers E) k + int (length (spt_Segments task)) < slot_limit"
  shows "\<exists>W'. registerAndDispatch env task W = (True, W')
    \<and> dispatched W' = dispatched W @ map ta_TaskID (cjp_Assignments resp)
    \<and> map ta_SegmentIndex (cjp_Assignments resp) = map sf_SegmentIndex (spt_Segments task)
    \<and> (\<forall>e. balance W' e = balance W e)"
proof -
  let ?w = "ws_workerID (sw_state W)"
  let ?req = "job_request ?w task ts"
  have plan: "map cjt_SegmentIndex ts = map sf_SegmentIndex (spt_Segments task)"
    "cjt_Mode ` set ts \<subseteq> {TaskProcessingModeInternal, TaskProcessingModeExternal}"
    "fst ` set iw = internal_indexes ts"
    using plan_segments_plan [OF assms(1)] by (simp_all add: internal_indexes_def)
  have len: "length ts = length (spt_Segments task)" using plan(1) by (metis length_map)
  then have "ts \<noteq> []" using assms(7) by auto
  moreover have "cjr_Tasks ?req = ts" by (simp add: job_request_def)
  ultimately have ans: "code = StatusOK" "cjp_JobID resp \<noteq> []" "list_all2 answers_plan ts (cjp_Assignments resp)"
    using Create_fresh_answer [OF assms(2,4,9)] assms(7,10,11) plan(2) len by auto
  have iw: "distinct (map fst iw)" "\<And>e. balance W1 e = balance W e + leases iw e"
    using plan_segments_leases [OF assms(1) _ assms(8)] by simp_all
  let ?W2 = "activate (spt_VideoName task) (spt_Path task) sourcePhaseCreateJob 0 False W1"
  let ?W3 = "did (JobCreated ?req (Inr resp)) ?W2"
  have "se_create env (calls_made ?W2) = Inr resp"
    using assms(3,4) ans(1,2) by (simp add: read_create_def postJSON_def over_http_def activate_def)
  then have C: "createJobWithRetry env ?req ?W2 = (Inr resp, ?W3)"
    by (simp add: createJobWithRetry_def createJobRetryDelays_def Let_def)
  let ?W4 = "activate (spt_VideoName task) (spt_Path task) sourcePhaseDispatchSegments 0 False ?W3"
  have "cjt_SegmentIndex ` set ts \<subseteq> sf_SegmentIndex ` set (spt_Segments task)" "distinct (map cjt_SegmentIndex ts)"
    using plan(1) assms(8) by (metis list.set_map order_refl, simp)
  then obtain W5 where D: "dispatch_loop env task ?w (cjp_Assignments resp) iw ?W4 = (True, [], W5)"
    and sent: "dispatched W5 = dispatched ?W4 @ map ta_TaskID (cjp_Assignments resp)"
    using dispatch_loop_all [OF ans(3) _ iw(1) _ plan(2,3) assms(5)] by blast
  have "balance W5 e = balance W e" for e
    using dispatch_loop_leases [OF D iw(1), of e] iw(2) [of e] by simp
  moreover have "dispatched W1 = dispatched W" by (rule plan_segments_dispatched [OF assms(1)])
  moreover have "map ta_SegmentIndex (cjp_Assignments resp) = map cjt_SegmentIndex ts"
    using ans(3) by (induction rule: list_all2_induct) (simp_all add: answers_plan_def)
  ultimately show ?thesis
    using assms(1,6) C D sent plan(1)
    by (intro exI [of _ "activate (spt_VideoName task) (spt_Path task) sourcePhaseDone 0 False W5"])
      (simp add: registerAndDispatch_def Let_def)
qed

text \<open>
  A job that exists already: Entry's answer carries no assignments, so the source worker dispatches
  nothing, takes the video for done, and keeps every lease it acquired while planning, for good.
  (A source worker that lost the first answer, or restarts with its videos in place, gets this
  answer; the tasks of the existing job stay assigned.)
\<close>

theorem already_exists_leaks:
  assumes "plan_segments env (spt_Segments task) [] [] W = (iw, ts, W1)"
    and "wr_byID (en_workers E) (ws_workerID (sw_state W)) = Some sw"
    and "findJobByIdentity (jobIdentityKey (w_Address sw) (spt_VideoName task)) (en_manager E) = Some job"
    and "j_ID job \<noteq> []"
    and "se_create env (calls_made W1)
      = read_create (over_http (fst (Create (Some (job_request (ws_workerID (sw_state W)) task ts)) ev E)))"
    and "bind_CreateJobRequest (job_request (ws_workerID (sw_state W)) task ts)"
    and "spt_Segments task \<noteq> []" and "distinct (map sf_SegmentIndex (spt_Segments task))"
  shows "\<exists>W'. registerAndDispatch env task W = (True, W') \<and> dispatched W' = dispatched W
    \<and> (\<forall>e. balance W' e = balance W e + leases iw e)"
proof -
  let ?w = "ws_workerID (sw_state W)"
  let ?req = "job_request ?w task ts"
  have plan: "map cjt_SegmentIndex ts = map sf_SegmentIndex (spt_Segments task)"
    "cjt_Mode ` set ts \<subseteq> {TaskProcessingModeInternal, TaskProcessingModeExternal}"
    using plan_segments_plan [OF assms(1)] by simp_all
  then have "ts \<noteq> []" using assms(7) by auto
  then have tp: "createJobTaskPlan ?req = Inr ts"
    using plan(2) by (auto simp: createJobTaskPlan_def plan_modes_known_iff job_request_def)
  obtain resp where resp: "fst (Create (Some ?req) ev E) = Some (StatusOK, resp)" "cjp_Assignments resp = []"
    "cjp_Status resp = CreateJobStatusAlreadyExists" "cjp_JobID resp = j_ID job"
    using assms(2,3,6) tp
    by (simp add: Create_def ShouldBindJSON_def CreateJob_def GetWorker_def already_exists_def job_request_def
        zero_CreateJobResult_def)
  let ?W2 = "activate (spt_VideoName task) (spt_Path task) sourcePhaseCreateJob 0 False W1"
  let ?W3 = "did (JobCreated ?req (Inr resp)) ?W2"
  have "se_create env (calls_made ?W2) = Inr resp"
    using assms(4,5) resp by (simp add: read_create_def postJSON_def over_http_def activate_def)
  then have C: "createJobWithRetry env ?req ?W2 = (Inr resp, ?W3)"
    by (simp add: createJobWithRetry_def createJobRetryDelays_def Let_def)
  have w: "?w \<noteq> []" using assms(6) by (simp add: bind_CreateJobRequest_def job_request_def)
  have "balance W1 e = balance W e + leases iw e" for e
    using plan_segments_leases [OF assms(1) _ assms(8)] by simp
  then show ?thesis
    using w assms(1) C resp(2) plan_segments_dispatched [OF assms(1)]
    by (simp add: registerAndDispatch_def Let_def)
qed

subsection \<open>Witnesses\<close>

definition ex_segment :: "int \<Rightarrow> SegmentFile" where
  "ex_segment i = \<lparr>sf_SegmentIndex = i, sf_Path = ''out/s'', sf_Name = ''s'', sf_SizeBytes = 3\<rparr>"

definition ex_split :: splitVideoTask where
  "ex_split = \<lparr>spt_Path = ''in/v'', spt_VideoName = ''v'', spt_TotalSizeBytes = 9,
     spt_Segments = [ex_segment 0, ex_segment 1]\<rparr>"

definition ex_plan :: "CreateJobTaskRequest list" where
  "ex_plan = [\<lparr>cjt_SegmentIndex = 0, cjt_Mode = TaskProcessingModeInternal\<rparr>,
              \<lparr>cjt_SegmentIndex = 1, cjt_Mode = TaskProcessingModeExternal\<rparr>]"

definition ex_create :: "Entry \<Rightarrow> CreateJobResponse reply \<times> Entry" where
  "ex_create E = Create (Some (job_request ''a'' ex_split ex_plan)) (ex_env (\<lambda>n. Some [of_nat n])) E"

text \<open>Engine 7 is idle for the first segment, none for the second; Entry answers from state \<open>E\<close>.\<close>

definition ex_source_env :: "Entry \<Rightarrow> SourceEnv" where
  "ex_source_env E =
     \<lparr>se_spool = ''data/spool'', se_nano = (\<lambda>n. 5), se_acquire = (\<lambda>n. Inr 7),
      se_tryAcquire = (\<lambda>n. if n = 0 then Inr 7 else Inl ErrNoIdleEngine),
      se_engine = (\<lambda>n. Inl EngineNotStarted), se_create = (\<lambda>n. read_create (over_http (fst (ex_create E)))),
      se_cancelled = (\<lambda>n. None), se_upload = (\<lambda>n. None), se_shuffle = rev, se_error_text = (\<lambda>e. ''error'')\<rparr>"

definition ex_source :: SourceWorld where
  "ex_source =
     \<lparr>sw_runner = NewRunner, sw_state = SetRegistration ''a'' zero_SplitPolicy (NewWorkerState 2 100 50),
      sw_calls = []\<rparr>"

lemma ex_source_plan:
  "\<exists>iw W1. plan_segments (ex_source_env E) (spt_Segments ex_split) [] [] ex_source = (iw, ex_plan, W1)
     \<and> leases iw 7 = 1"
  by (simp add: ex_split_def ex_source_env_def ex_source_def ex_plan_def ex_segment_def did_def Let_def)

lemma ex_source_simps:
  "ws_workerID (sw_state ex_source) = ''a''" "balance ex_source e = 0" "dispatched ex_source = []"
  "distinct (map sf_SegmentIndex (spt_Segments ex_split))" "spt_Segments ex_split \<noteq> []"
  "length (spt_Segments ex_split) = 2" "spt_VideoName ex_split = ''v''"
  "se_create (ex_source_env E) n = read_create (over_http (fst (ex_create E)))"
  "se_upload (ex_source_env E) n = None" "se_shuffle (ex_source_env E) = rev"
  by (simp_all add: ex_source_def ex_split_def ex_segment_def ex_source_env_def SetRegistration_def
      balance_def dispatched_def)

theorem leases_accounted_witness:
  "balance (snd (registerAndDispatch ((ex_source_env ex_entry)\<lparr>se_create := (\<lambda>n. Inl ''refused'')\<rparr>) ex_split ex_source)) 7 = 0"
proof -
  let ?env = "(ex_source_env ex_entry)\<lparr>se_create := (\<lambda>n. Inl ''refused'')\<rparr>"
  obtain iw ts W1 where P: "plan_segments ?env (spt_Segments ex_split) [] [] ex_source = (iw, ts, W1)" by (metis prod.exhaust)
  let ?W2 = "activate (spt_VideoName ex_split) (spt_Path ex_split) sourcePhaseCreateJob 0 False W1"
  obtain answer W3 where C: "createJobWithRetry ?env (job_request ''a'' ex_split ts) ?W2 = (answer, W3)" by (metis prod.exhaust)
  then have answer: "answer = Inl ''refused''"
    by (simp add: createJobWithRetry_def createJobRetryDelays_def ex_source_env_def Let_def)
  obtain ok W' where R: "registerAndDispatch ?env ex_split ex_source = (ok, W')" by (metis prod.exhaust)
  have shuffle: "\<forall>al. mset (se_shuffle ?env al) = mset al" by (simp add: ex_source_env_def)
  from leases_accounted [OF ex_source_simps(4) shuffle ex_source_simps(1) [symmetric] _ P C R] answer R show ?thesis
    by (simp add: ex_source_simps(2))
qed

lemma ex_entry_lim:
  "ledger_registry (en_workers ex_entry)" "addr_of (en_workers ex_entry) k \<noteq> Some []"
  "slots_of (en_workers ex_entry) k + 2 < slot_limit"
  using ex_ledger
  by (simp_all add: addr_of_def ex_entry_def ex_registry_byID ex_worker_def ex_slots slot_limit_def)

theorem fresh_job_dispatched_witness:
  "\<exists>W'. registerAndDispatch (ex_source_env ex_entry) ex_split ex_source = (True, W')
     \<and> length (dispatched W') = 2 \<and> balance W' 7 = 0"
proof -
  obtain iw W1 where P: "plan_segments (ex_source_env ex_entry) (spt_Segments ex_split) [] [] ex_source = (iw, ex_plan, W1)"
    using ex_source_plan by blast
  have "(case fst (ex_create ex_entry) of None \<Rightarrow> False
      | Some (c, resp) \<Rightarrow> cjp_Status resp = CreateJobStatusSuccess)"
    by code_simp
  then obtain c resp where rep: "fst (ex_create ex_entry) = Some (c, resp)" "cjp_Status resp = CreateJobStatusSuccess"
    by (auto split: option.splits)
  then have C: "Create (Some (job_request (ws_workerID (sw_state ex_source)) ex_split ex_plan))
      (ex_env (\<lambda>n. Some [of_nat n])) ex_entry = (Some (c, resp), snd (ex_create ex_entry))"
    by (simp add: ex_source_simps ex_create_def prod_eq_iff)
  obtain W' where "registerAndDispatch (ex_source_env ex_entry) ex_split ex_source = (True, W')"
    "dispatched W' = map ta_TaskID (cjp_Assignments resp)"
    "map ta_SegmentIndex (cjp_Assignments resp) = map sf_SegmentIndex (spt_Segments ex_split)"
    "\<forall>e. balance W' e = 0"
    using fresh_job_dispatched [OF P C] rep ex_entry_lim by (auto simp: ex_source_simps)
  then show ?thesis by (metis length_map ex_source_simps(6))
qed

theorem already_exists_leaks_witness:
  "\<exists>W'. registerAndDispatch (ex_source_env (snd (ex_create ex_entry))) ex_split ex_source = (True, W')
     \<and> dispatched W' = [] \<and> balance W' 7 = 1"
proof -
  let ?E = "snd (ex_create ex_entry)"
  obtain iw W1 where P: "plan_segments (ex_source_env ?E) (spt_Segments ex_split) [] [] ex_source = (iw, ex_plan, W1)"
    and iw: "leases iw 7 = 1"
    using ex_source_plan by blast
  have "(case wr_byID (en_workers ?E) ''a'' of None \<Rightarrow> False | Some sw \<Rightarrow> w_Address sw = ''a:1'')"
    by code_simp
  then obtain sw where sw: "wr_byID (en_workers ?E) ''a'' = Some sw" "w_Address sw = ''a:1''"
    by (auto split: option.splits)
  have "(case findJobByIdentity (jobIdentityKey ''a:1'' ''v'') (en_manager ?E) of None \<Rightarrow> False | Some j \<Rightarrow> j_ID j \<noteq> [])"
    by code_simp
  then obtain j where j: "findJobByIdentity (jobIdentityKey ''a:1'' ''v'') (en_manager ?E) = Some j" "j_ID j \<noteq> []"
    by (auto split: option.splits)
  have bind: "bind_CreateJobRequest (job_request ''a'' ex_split ex_plan)"
    by (simp add: bind_CreateJobRequest_def job_request_def ex_split_def in64_def)
  show ?thesis
    using already_exists_leaks [OF P, of ?E sw j "ex_env (\<lambda>n. Some [of_nat n])"] sw j bind iw
    by (auto simp: ex_source_simps ex_create_def [symmetric])
qed

end
