(* ===== verification/Source_Videos.thy ===== *)
theory Source_Videos
  imports Source_Runner
begin

text \<open>
  The life of a video in the source worker: the scanner and the processor as interleaved steps,
  one per lock region (\<open>video_step\<close>). The processor's local variables are \<open>vw_current\<close> (the video
  it popped, and whether it has handed it to \<open>registerAndDispatch\<close>); \<open>vw_given\<close> lists the paths
  handed over. \<open>processOne\<close> is a run of these steps.
\<close>

record VideoWorld =
  vw_runner :: Runner
  vw_current :: "(sourceVideoTask \<times> bool) option"
  vw_given :: "string list"

inductive video_step :: "VideoWorld \<Rightarrow> VideoWorld \<Rightarrow> bool" where
  vs_scan: "video_step \<lparr>vw_runner = r, vw_current = c, vw_given = g\<rparr>
     \<lparr>vw_runner = scan inputDir entries r, vw_current = c, vw_given = g\<rparr>"
| vs_active: "video_step \<lparr>vw_runner = r, vw_current = c, vw_given = g\<rparr>
     \<lparr>vw_runner = r\<lparr>rn_active := a\<rparr>, vw_current = c, vw_given = g\<rparr>"
| vs_pop: "popPendingSplit ord r = (Some task, r') \<Longrightarrow>
     video_step \<lparr>vw_runner = r, vw_current = None, vw_given = g\<rparr>
       \<lparr>vw_runner = r', vw_current = Some (task, False), vw_given = g\<rparr>"
| vs_requeue: "video_step \<lparr>vw_runner = r, vw_current = Some (task, False), vw_given = g\<rparr>
     \<lparr>vw_runner = requeuePendingSplit task r, vw_current = None, vw_given = g\<rparr>"
| vs_give: "video_step \<lparr>vw_runner = r, vw_current = Some (task, False), vw_given = g\<rparr>
     \<lparr>vw_runner = r, vw_current = Some (task, True), vw_given = g @ [svt_Path task]\<rparr>"
| vs_done: "video_step \<lparr>vw_runner = r, vw_current = Some (task, True), vw_given = g\<rparr>
     \<lparr>vw_runner = markDone (svt_Path task) r, vw_current = None, vw_given = g\<rparr>"

definition new_videos :: VideoWorld where
  "new_videos = \<lparr>vw_runner = NewRunner, vw_current = None, vw_given = []\<rparr>"

definition queue_ok :: "Runner \<Rightarrow> bool" where
  "queue_ok r \<longleftrightarrow>
     (\<forall>p task. rn_pendingSplit r p = Some task \<longrightarrow> svt_Path task = p \<and> rn_done r p = None)"

definition given_now :: "VideoWorld \<Rightarrow> string set" where
  "given_now V = (case vw_current V of Some (task, True) \<Rightarrow> {svt_Path task} | _ \<Rightarrow> {})"

definition current_path :: "VideoWorld \<Rightarrow> string set" where
  "current_path V = (case vw_current V of Some (task, b) \<Rightarrow> {svt_Path task} | None \<Rightarrow> {})"

definition videos_ok :: "VideoWorld \<Rightarrow> bool" where
  "videos_ok V \<longleftrightarrow>
     queue_ok (vw_runner V) \<and> distinct (vw_given V)
     \<and> set (vw_given V) = dom (rn_done (vw_runner V)) \<union> given_now V
     \<and> current_path V \<inter> dom (rn_done (vw_runner V)) = {}"

lemma enqueue_queue: "queue_ok r \<Longrightarrow> queue_ok (enqueueSourceVideo task r) \<and> rn_done (enqueueSourceVideo task r) = rn_done r"
  by (cases "rn_done r (svt_Path task)") (auto simp: queue_ok_def enqueueSourceVideo_def)

lemma scan_entries_queue:
  "queue_ok r \<Longrightarrow> queue_ok (scan_entries d es r) \<and> rn_done (scan_entries d es r) = rn_done r"
  by (induction d es r rule: scan_entries.induct) (simp_all add: enqueue_queue)

lemma scan_queue: "queue_ok r \<Longrightarrow> queue_ok (scan d es r) \<and> rn_done (scan d es r) = rn_done r"
  by (simp add: scan_def scan_entries_queue split: sum.split)

lemma pop_queue:
  "queue_ok r \<Longrightarrow> popPendingSplit ord r = (Some task, r') \<Longrightarrow>
   queue_ok r' \<and> rn_done r' = rn_done r \<and> svt_Path task \<notin> dom (rn_done r)"
  by (cases ord) (auto simp: popPendingSplit_def queue_ok_def split: if_splits)

lemma requeue_queue:
  "queue_ok r \<Longrightarrow> queue_ok (requeuePendingSplit task r) \<and> rn_done (requeuePendingSplit task r) = rn_done r"
  by (cases "rn_done r (svt_Path task)") (auto simp: queue_ok_def requeuePendingSplit_def)

lemma markDone_queue:
  "queue_ok r \<Longrightarrow> queue_ok (markDone p r) \<and> dom (rn_done (markDone p r)) = insert p (dom (rn_done r))"
  by (auto simp: queue_ok_def markDone_def)

lemma video_step_ok:
  assumes "videos_ok V" and "video_step V V'"
  shows "videos_ok V'"
  using assms(2,1)
proof (induction rule: video_step.induct)
  case (vs_scan r c g d es)
  then show ?case
    using scan_queue [of r d es] by (simp add: videos_ok_def given_now_def current_path_def)
next
  case (vs_active r c g a)
  then show ?case by (simp add: videos_ok_def given_now_def current_path_def queue_ok_def)
next
  case (vs_pop ord r task r' g)
  then show ?case
    using pop_queue [of r ord task r'] by (simp add: videos_ok_def given_now_def current_path_def)
next
  case (vs_requeue r task g)
  then show ?case
    using requeue_queue [of r task] by (simp add: videos_ok_def given_now_def current_path_def)
next
  case (vs_give r task g)
  then show ?case by (auto simp: videos_ok_def given_now_def current_path_def)
next
  case (vs_done r task g)
  then show ?case
    using markDone_queue [of r "svt_Path task"] by (simp add: videos_ok_def given_now_def current_path_def)
qed

lemma new_videos_ok: "videos_ok new_videos"
  by (simp add: videos_ok_def new_videos_def NewRunner_def queue_ok_def given_now_def current_path_def)

interpretation videos: transition_system new_videos video_step videos_ok
  by unfold_locales (rule new_videos_ok, rule video_step_ok)

text \<open>
  C18. A video is dispatched at most once in the life of a worker, however often the scanner sees its
  file and whenever it does: in every reachable state no path is both queued and done, no path
  was given to the dispatcher twice, and the paths given are the done ones and the one in progress.
\<close>

theorem videos_dispatched_once:
  assumes "reachable_from new_videos video_step V"
  shows "distinct (vw_given V)
    \<and> set (vw_given V) = dom (rn_done (vw_runner V)) \<union> given_now V
    \<and> dom (rn_pendingSplit (vw_runner V)) \<inter> dom (rn_done (vw_runner V)) = {}"
  using videos.reachable_inv [OF assms] by (auto simp: videos_ok_def queue_ok_def)

subsection \<open>\<open>processOne\<close> is a run of the steps\<close>

lemma runner_kept:
  "rn_pendingSplit (setActive v p ph i has r) = rn_pendingSplit r"
  "rn_done (setActive v p ph i has r) = rn_done r"
  by (simp_all add: setActive_def)

definition same_queue :: "Runner \<Rightarrow> Runner \<Rightarrow> bool" where
  "same_queue r r' \<longleftrightarrow> r' = r\<lparr>rn_active := rn_active r'\<rparr>"

lemma same_queue_refl [simp]: "same_queue r r"
  by (simp add: same_queue_def)

lemma same_queue_simps [simp]:
  "same_queue r (sw_runner (did c W)) = same_queue r (sw_runner W)"
  "same_queue r (sw_runner W) \<Longrightarrow> same_queue r (sw_runner (activate v p ph i has W))"
  "same_queue r (sw_runner W) \<Longrightarrow> same_queue r (clearActive (sw_runner W))"
  by (cases r; cases "sw_runner W"; simp add: same_queue_def did_def activate_def setActive_def clearActive_def)+

lemma processInternalSegment_runner [simp]: "sw_runner (processInternalSegment env l w a s W) = sw_runner W"
  by (simp add: processInternalSegment_def Let_def did_def)

lemma did_runner [simp]: "sw_runner (did c W) = sw_runner W"
  by (simp add: did_def)

lemma plan_segments_runner: "sw_runner (snd (snd (plan_segments env segs iw ts W))) = sw_runner W"
  by (induction segs arbitrary: iw ts W) (auto simp: Let_def split: sum.split)

lemma create_attempts_runner: "sw_runner (snd (create_attempts env req ds W)) = sw_runner W"
  by (induction env req ds W rule: create_attempts.induct) (auto simp: Let_def split: sum.split option.split)

lemma release_all_runner: "sw_runner (release_all al W) = sw_runner W"
  by (induction al W rule: release_all.induct) auto

lemma dispatch_loop_queue:
  "same_queue r (sw_runner W) \<Longrightarrow> same_queue r (sw_runner (snd (snd (dispatch_loop env task w as iw W))))"
  by (induction as arbitrary: iw W)
    (auto simp: Let_def split: TaskProcessingMode.split option.split)

lemma splitVideo_queue: "same_queue (sw_runner W) (sw_runner (snd (splitVideo env task W)))"
  by (auto simp: splitVideo_def Let_def split: sum.split)

lemma registerAndDispatch_queue: "same_queue (sw_runner W) (sw_runner (snd (registerAndDispatch env task W)))"
proof -
  obtain iw ts W1 where P: "plan_segments env (spt_Segments task) [] [] W = (iw, ts, W1)"
    by (metis prod.exhaust)
  let ?W2 = "activate (spt_VideoName task) (spt_Path task) sourcePhaseCreateJob 0 False W1"
  let ?req = "job_request (ws_workerID (sw_state W)) task ts"
  obtain out W3 where C: "createJobWithRetry env ?req ?W2 = (out, W3)" by (metis prod.exhaust)
  have 1: "sw_runner W1 = sw_runner W" using plan_segments_runner [of env "spt_Segments task" "[]" "[]" W] P by simp
  have 3: "same_queue (sw_runner W) (sw_runner W3)"
    using create_attempts_runner [of env ?req createJobRetryDelays ?W2] C 1
    by (simp add: createJobWithRetry_def)
  show ?thesis
  proof (cases out)
    case (Inl err)
    with P C 3 show ?thesis by (simp add: registerAndDispatch_def Let_def release_all_runner)
  next
    case (Inr resp)
    let ?W4 = "activate (spt_VideoName task) (spt_Path task) sourcePhaseDispatchSegments 0 False W3"
    obtain fin left W5 where D: "dispatch_loop env task (ws_workerID (sw_state W)) (cjp_Assignments resp) iw ?W4
        = (fin, left, W5)" by (metis prod.exhaust)
    have "same_queue (sw_runner W) (sw_runner W5)"
      using dispatch_loop_queue [of "sw_runner W" ?W4 env task "ws_workerID (sw_state W)" "cjp_Assignments resp" iw] D 3
      by simp
    with P C Inr D show ?thesis
      by (cases fin) (simp_all add: registerAndDispatch_def Let_def release_all_runner)
  qed
qed

lemma same_queue_step:
  "same_queue r r' \<Longrightarrow> video_step \<lparr>vw_runner = r, vw_current = c, vw_given = g\<rparr> \<lparr>vw_runner = r', vw_current = c, vw_given = g\<rparr>"
  using vs_active [of r c g "rn_active r'"] by (simp add: same_queue_def)

lemma processOne_is_run:
  "\<exists>g'. video_step\<^sup>*\<^sup>* \<lparr>vw_runner = sw_runner W, vw_current = None, vw_given = g\<rparr>
     \<lparr>vw_runner = sw_runner (processOne env ord W), vw_current = None, vw_given = g'\<rparr>"
proof (cases "BackpressureActive (sw_state W)")
  case True
  then show ?thesis by (intro exI [of _ g]) (simp add: processOne_def)
next
  case active: False
  obtain popped r1 where pop: "popPendingSplit ord (sw_runner W) = (popped, r1)" by (metis prod.exhaust)
  show ?thesis
  proof (cases popped)
    case None
    obtain rest where "r1 = sw_runner W \<or> (\<exists>p. rn_pendingSplit (sw_runner W) p = None
        \<and> r1 = (sw_runner W)\<lparr>rn_pendingSplit := (rn_pendingSplit (sw_runner W))(p := None)\<rparr>)"
      using pop None by (cases ord) (auto simp: popPendingSplit_def)
    then have "r1 = sw_runner W" by (auto simp: fun_upd_idem)
    with active pop None show ?thesis by (intro exI [of _ g]) (simp add: processOne_def)
  next
    case (Some task)
    let ?st = "\<lambda>r c g. \<lparr>vw_runner = r, vw_current = c, vw_given = g\<rparr>"
    let ?W1 = "activate (svt_VideoName task) (svt_Path task) sourcePhaseSplitWaitSlot 0 False (W\<lparr>sw_runner := r1\<rparr>)"
    have 1: "video_step\<^sup>*\<^sup>* (?st (sw_runner W) None g) (?st r1 (Some (task, False)) g)"
      using vs_pop [OF pop [unfolded Some], of g] by blast
    obtain out W2 where S: "splitVideo env task ?W1 = (out, W2)" by (metis prod.exhaust)
    have "same_queue r1 (sw_runner ?W1)" by simp
    then have 2: "video_step\<^sup>*\<^sup>* (?st r1 (Some (task, False)) g) (?st (sw_runner W2) (Some (task, False)) g)"
      using splitVideo_queue [of ?W1 env task] S same_queue_step
      by (metis (no_types, lifting) converse_rtranclp_into_rtranclp r_into_rtranclp snd_conv)
    show ?thesis
    proof (cases out)
      case None
      let ?r = "requeuePendingSplit task (sw_runner W2)"
      have "video_step\<^sup>*\<^sup>* (?st (sw_runner W2) (Some (task, False)) g) (?st (clearActive ?r) None g)"
        using vs_requeue [of "sw_runner W2" task g] same_queue_step [of ?r "clearActive ?r" None g]
        by (simp add: same_queue_def clearActive_def)
      moreover have "sw_runner (processOne env ord W) = clearActive ?r"
        using active pop Some S None by (simp add: processOne_def Let_def)
      ultimately show ?thesis using 1 2 by (intro exI [of _ g]) (metis rtranclp_trans)
    next
      case split: (Some splitTask)
      obtain ok W3 where D: "registerAndDispatch env splitTask W2 = (ok, W3)" by (metis prod.exhaust)
      let ?g = "g @ [svt_Path task]" and ?r = "markDone (svt_Path task) (sw_runner W3)"
      have "video_step (?st (sw_runner W2) (Some (task, False)) g) (?st (sw_runner W2) (Some (task, True)) ?g)"
        by (rule vs_give)
      moreover have "video_step (?st (sw_runner W2) (Some (task, True)) ?g) (?st (sw_runner W3) (Some (task, True)) ?g)"
        using registerAndDispatch_queue [of W2 env splitTask] D by (intro same_queue_step) simp
      moreover have "video_step (?st (sw_runner W3) (Some (task, True)) ?g) (?st ?r None ?g)"
        by (rule vs_done)
      moreover have "video_step (?st ?r None ?g) (?st (clearActive ?r) None ?g)"
        by (rule same_queue_step) (simp add: same_queue_def clearActive_def)
      ultimately have "video_step\<^sup>*\<^sup>* (?st (sw_runner W2) (Some (task, False)) g) (?st (clearActive ?r) None ?g)"
        by (meson converse_rtranclp_into_rtranclp r_into_rtranclp)
      moreover have "sw_runner (processOne env ord W) = clearActive ?r"
        using active pop Some S split D by (simp add: processOne_def Let_def)
      ultimately show ?thesis using 1 2 by (intro exI [of _ ?g]) (metis rtranclp_trans)
    qed
  qed
qed

subsection \<open>A video scanned, dispatched and scanned again\<close>

definition ex_scan :: "Runner \<Rightarrow> Runner" where
  "ex_scan = scan ''in'' (Inr [\<lparr>de_Name = ''v'', de_IsDir = False, de_Size = 9\<rparr>])"

definition ex_video :: sourceVideoTask where
  "ex_video = \<lparr>svt_Path = ''in/v'', svt_VideoName = ''v'', svt_TotalSizeBytes = 9\<rparr>"

lemma ex_scan_queue:
  "rn_done r ''in/v'' = None \<Longrightarrow> rn_pendingSplit r ''in/v'' = None \<Longrightarrow>
     ex_scan r = r\<lparr>rn_pendingSplit := (rn_pendingSplit r)(''in/v'' \<mapsto> ex_video)\<rparr>"
  "rn_done r ''in/v'' \<noteq> None \<Longrightarrow> ex_scan r = r"
proof -
  have "Join [''in'', ''v''] = ''in/v''" by code_simp
  then show "rn_done r ''in/v'' = None \<Longrightarrow> rn_pendingSplit r ''in/v'' = None \<Longrightarrow>
      ex_scan r = r\<lparr>rn_pendingSplit := (rn_pendingSplit r)(''in/v'' \<mapsto> ex_video)\<rparr>"
    and "rn_done r ''in/v'' \<noteq> None \<Longrightarrow> ex_scan r = r"
    by (simp_all add: ex_scan_def scan_def enqueueSourceVideo_def ex_video_def)
qed

definition ex_done :: VideoWorld where
  "ex_done = \<lparr>vw_runner = ex_scan (markDone ''in/v'' (snd (popPendingSplit [''in/v''] (ex_scan NewRunner)))),
     vw_current = None, vw_given = [''in/v'']\<rparr>"

lemma ex_done_reachable: "reachable_from new_videos video_step ex_done"
proof -
  let ?r = "ex_scan NewRunner"
  have pop: "popPendingSplit [''in/v''] ?r = (Some ex_video, snd (popPendingSplit [''in/v''] ?r))"
    by (simp add: ex_scan_queue NewRunner_def popPendingSplit_def)
  have path: "svt_Path ex_video = ''in/v''" by (simp add: ex_video_def)
  show ?thesis
    unfolding new_videos_def ex_done_def
    by (rule reachable_from_path, rule converse_rtranclp_into_rtranclp, rule vs_scan,
        rule converse_rtranclp_into_rtranclp, rule vs_pop, rule pop [unfolded ex_scan_def],
        rule converse_rtranclp_into_rtranclp, rule vs_give,
        rule converse_rtranclp_into_rtranclp, rule vs_done,
        unfold path append.simps ex_scan_def, rule r_into_rtranclp, rule vs_scan)
qed

theorem videos_dispatched_once_witness:
  "distinct (vw_given ex_done) \<and> set (vw_given ex_done) = {''in/v''}
   \<and> dom (rn_done (vw_runner ex_done)) = {''in/v''}
   \<and> dom (rn_pendingSplit (vw_runner ex_done)) \<inter> {''in/v''} = {}"
  using videos_dispatched_once [OF ex_done_reachable]
  by (simp add: ex_done_def given_now_def)

end
