(* ===== verification/Worker_Handlers.thy ===== *)
theory Worker_Handlers
  imports Source_Runner Entry_Handlers
begin

text \<open>
  \<open>worker-node/go/internal/handlers\<close>, and the replies of \<open>peerclient\<close>: the HTTP interface of a
  worker. Entry is a state \<open>'e\<close> that the reports of a handler change (\<open>EntryApi\<close>: the four
  reporting calls, each with the result the entry client reads from the answer). What the file
  system, the engine and the peers do are arguments. A handler that starts a goroutine says so;
  the goroutine's body is a function of its own.
\<close>

record 'e EntryApi =
  ea_accept :: "string \<Rightarrow> TaskAcceptedRequest \<Rightarrow> 'e \<Rightarrow> (string + TaskUpdateResponse) \<times> 'e"
  ea_complete :: "string \<Rightarrow> TaskCompletedRequest \<Rightarrow> 'e \<Rightarrow> (string + TaskUpdateResponse) \<times> 'e"
  ea_fail :: "string \<Rightarrow> TaskFailedRequest \<Rightarrow> 'e \<Rightarrow> (string + TaskUpdateResponse) \<times> 'e"
  ea_assembled :: "string \<Rightarrow> JobAssembledRequest \<Rightarrow> 'e \<Rightarrow> (string + JobAssembledResponse) \<times> 'e"

subsection \<open>Segments\<close>

definition reportSegmentFailure ::
  "('e, 'm) EntryApi_scheme \<Rightarrow> string \<Rightarrow> string \<Rightarrow> string \<Rightarrow> bool \<Rightarrow> 'e \<Rightarrow> 'e" where
  "reportSegmentFailure api taskID workerID reason retryable E =
     (if taskID = [] \<or> workerID = [] then E
      else snd (ea_fail api taskID
             \<lparr>tfr_WorkerID = workerID, tfr_Reason = reason, tfr_Retryable = retryable\<rparr> E))"

definition respondSegmentFailure ::
  "('e, 'm) EntryApi_scheme \<Rightarrow> int \<Rightarrow> string \<Rightarrow> string \<Rightarrow> string \<Rightarrow> bool \<Rightarrow> 'e
     \<Rightarrow> (int \<times> SegmentUploadResponse) \<times> 'e" where
  "respondSegmentFailure api code taskID workerID reason retryable E =
     ((code, \<lparr>sur_Status = SegmentUploadStatusFailed, sur_Reason = reason\<rparr>),
      if taskID \<noteq> [] \<and> workerID \<noteq> [] then reportSegmentFailure api taskID workerID reason retryable E else E)"

text \<open>\<open>writeRequestBody\<close>: the first error of creating the directory, creating the file and
  copying the body.\<close>

definition writeRequestBody :: "string option \<Rightarrow> string option \<Rightarrow> string option \<Rightarrow> string option" where
  "writeRequestBody mkdir create copy =
     (case mkdir of Some err \<Rightarrow> Some err
      | None \<Rightarrow> (case create of Some err \<Rightarrow> Some err | None \<Rightarrow> copy))"

text \<open>The reply, Entry, and the paths a started \<open>processUploadedSegment\<close> works on.\<close>

definition UploadSegment ::
  "('e, 'm) EntryApi_scheme \<Rightarrow> string \<Rightarrow> string option \<Rightarrow> string option \<Rightarrow> WorkerState \<Rightarrow> string \<Rightarrow> 'e
     \<Rightarrow> (int \<times> SegmentUploadResponse) \<times> 'e \<times> (string \<times> string) option" where
  "UploadSegment api root stored renamed s taskID E =
     (if taskID = [] then
        ((StatusBadRequest, \<lparr>sur_Status = SegmentUploadStatusFailed, sur_Reason = ''missing task_id''\<rparr>), E, None)
      else if ws_workerID s = [] then
        ((StatusServiceUnavailable,
          \<lparr>sur_Status = SegmentUploadStatusFailed, sur_Reason = ''worker is not registered''\<rparr>), E, None)
      else
        let workerID = ws_workerID s;
            inputPath = UploadPath root taskID;
            artifactPath = ArtifactPath root taskID
        in case stored of
             Some err \<Rightarrow>
               (case respondSegmentFailure api StatusInternalServerError taskID workerID
                       (''store upload failed: '' @ err) False E of (reply, E) \<Rightarrow> (reply, E, None))
           | None \<Rightarrow>
               (case renamed of
                  Some err \<Rightarrow>
                    (case respondSegmentFailure api StatusInternalServerError taskID workerID
                            (''finalize upload failed: '' @ err) False E of (reply, E) \<Rightarrow> (reply, E, None))
                | None \<Rightarrow>
                    (case ea_accept api taskID \<lparr>tar_WorkerID = workerID\<rparr> E of
                       (Inl err, E) \<Rightarrow>
                         (case respondSegmentFailure api StatusBadRequest taskID workerID
                                 (''entry accept task failed: '' @ err) False E of (reply, E) \<Rightarrow> (reply, E, None))
                     | (Inr resp, E) \<Rightarrow>
                         ((StatusOK, \<lparr>sur_Status = SegmentUploadStatusSuccess, sur_Reason = []\<rparr>), E,
                          Some (inputPath, artifactPath)))))"

text \<open>What the engine's answer makes the worker tell Entry about a task.\<close>

definition segment_outcome ::
  "('e, 'm) EntryApi_scheme \<Rightarrow> (EngineError \<Rightarrow> string) \<Rightarrow> string \<Rightarrow> string \<Rightarrow> EngineError + Response \<Rightarrow> 'e \<Rightarrow> 'e" where
  "segment_outcome api text taskID workerID outcome E =
     (case outcome of
        Inl err \<Rightarrow> reportSegmentFailure api taskID workerID (''engine call failed: '' @ text err) True E
      | Inr resp \<Rightarrow>
          if rs_Type resp = ResponseTypeFailed then
            reportSegmentFailure api taskID workerID
              (if rs_Reason resp = [] then ''engine process_segment failed'' else rs_Reason resp)
              (rs_Retryable resp) E
          else snd (ea_complete api taskID (completed_report workerID resp) E))"

text \<open>The goroutine: \<open>acquired\<close> is what \<open>Acquire\<close> returned, \<open>engine\<close> the engine's answer to a
  request. The result is the worker's state, Entry and the engines released.\<close>

definition processUploadedSegment ::
  "('e, 'm) EntryApi_scheme \<Rightarrow> (EngineError \<Rightarrow> string) \<Rightarrow> EngineError + engine_ref
     \<Rightarrow> (Request \<Rightarrow> EngineError + Response) \<Rightarrow> string \<Rightarrow> string \<Rightarrow> string \<Rightarrow> string \<Rightarrow> WorkerState \<times> 'e
     \<Rightarrow> (WorkerState \<times> 'e) \<times> engine_ref list" where
  "processUploadedSegment api text acquired engine taskID workerID inputPath artifactPath W =
     (case W of (s, E) \<Rightarrow>
        (case acquired of
           Inl err \<Rightarrow>
             ((s, reportSegmentFailure api taskID workerID (''engine slot acquire failed: '' @ text err) True E), [])
         | Inr lease \<Rightarrow>
             let s = StartTask taskID TaskTypeProcessSegment s;
                 outcome = engine (process_request inputPath (Base inputPath) artifactPath);
                 E = segment_outcome api text taskID workerID outcome E
             in ((FinishTask taskID s, E), [lease])))"

subsection \<open>Assembly\<close>

text \<open>The validator looks into the struct \<open>Video\<close> but not into the elements of a slice without
  the tag \<open>dive\<close>.\<close>

definition bind_StartAssembleGIFRequest :: "StartAssembleGIFRequest \<Rightarrow> bool" where
  "bind_StartAssembleGIFRequest r \<longleftrightarrow>
     sar_JobID r \<noteq> [] \<and> sar_AssembleTaskID r \<noteq> []
     \<and> avi_Name (sar_Video r) \<noteq> [] \<and> avi_SourceWorkerID (sar_Video r) \<noteq> []
     \<and> avi_SourceWorkerAddress (sar_Video r) \<noteq> []
     \<and> avi_TotalSizeBytes (sar_Video r) \<noteq> 0 \<and> 0 \<le> avi_TotalSizeBytes (sar_Video r)
     \<and> sar_Segments r \<noteq> [] \<and> in64 (avi_TotalSizeBytes (sar_Video r))"

fun output_size_loop :: "AssembleSegmentRef list \<Rightarrow> int \<Rightarrow> int \<times> bool" where
  "output_size_loop [] acc = (acc, True)"
| "output_size_loop (segment # rest) acc =
     (if asr_OutputSizeBytes segment \<le> 0 then (acc, False)
      else output_size_loop rest (add64 acc (asr_OutputSizeBytes segment)))"

definition workerEstimateAssembleDiskBytes :: "int \<Rightarrow> AssembleSegmentRef list \<Rightarrow> int" where
  "workerEstimateAssembleDiskBytes totalSizeBytes segments =
     (let (totalOutputSize, all_positive) = output_size_loop segments 0;
          allOutputSizesKnown = (segments \<noteq> [] \<and> all_positive);
          base = (if allOutputSizesKnown \<and> 0 < totalOutputSize then mul64 totalOutputSize 2 else totalSizeBytes);
          base = (if base < 1 then 1 else base)
      in quot64 (mul64 base 12) 10)"

text \<open>The reply, and whether \<open>runAssembleGIF\<close> is started (with which worker identifier).\<close>

definition StartAssembleGIF ::
  "(int \<times> int) option \<Rightarrow> WorkerState \<Rightarrow> StartAssembleGIFRequest option
     \<Rightarrow> (int \<times> StartAssembleGIFResponse) \<times> (StartAssembleGIFRequest \<times> string) option" where
  "StartAssembleGIF usage s body =
     (case ShouldBindJSON bind_StartAssembleGIFRequest body of
        None \<Rightarrow>
          ((StatusBadRequest, \<lparr>sap_Status = StartAssembleGIFStatusInvalidRequest, sap_DiskFreeBytes = 0\<rparr>), None)
      | Some req \<Rightarrow>
          if ws_workerID s = [] then
            ((StatusServiceUnavailable, \<lparr>sap_Status = StartAssembleGIFStatusFailed, sap_DiskFreeBytes = 0\<rparr>), None)
          else
            let requiredDiskBytes =
                  workerEstimateAssembleDiskBytes (avi_TotalSizeBytes (sar_Video req)) (sar_Segments req);
                free = snd (diskUsageLocked usage s)
            in if free < requiredDiskBytes then
                 ((StatusOK,
                   \<lparr>sap_Status = StartAssembleGIFStatusInsufficientStorage, sap_DiskFreeBytes = free\<rparr>), None)
               else
                 ((StatusOK, \<lparr>sap_Status = StartAssembleGIFStatusSuccess, sap_DiskFreeBytes = 0\<rparr>),
                  Some (req, ws_workerID s)))"

definition reportAssembleFailed ::
  "('e, 'm) EntryApi_scheme \<Rightarrow> string \<Rightarrow> string \<Rightarrow> string \<Rightarrow> bool \<Rightarrow> 'e \<Rightarrow> 'e" where
  "reportAssembleFailed api jobID workerID reason retryable E =
     (if jobID = [] \<or> workerID = [] then E
      else snd (ea_assembled api jobID
             \<lparr>jar_WorkerID = workerID, jar_Status = JobResultStatusFailed, jar_ResultName = [], jar_Checksum = [],
              jar_DurationMS = 0, jar_OutputSizeBytes = 0, jar_Reason = reason, jar_Retryable = retryable\<rparr> E))"

text \<open>The downloads in the order of the segments, up to the first that fails.\<close>

fun download_loop ::
  "string \<Rightarrow> (AssembleSegmentRef \<Rightarrow> string \<Rightarrow> string option) \<Rightarrow> string \<Rightarrow> AssembleSegmentRef list
     \<Rightarrow> FileRef list \<Rightarrow> string + FileRef list"
where
  "download_loop root download jobID [] inputs = Inr inputs"
| "download_loop root download jobID (segment # rest) inputs =
     (let localPath = AssembleArtifactPath root jobID (asr_TaskID segment)
      in case download segment localPath of
           Some err \<Rightarrow> Inl (''download artifact '' @ asr_TaskID segment @ '' failed: '' @ err)
         | None \<Rightarrow>
             download_loop root download jobID rest
               (inputs @ [\<lparr>fr_Mode = DataModeFile, fr_Path = localPath, fr_Name = Base localPath, fr_SizeBytes = 0\<rparr>]))"

definition assemble_engine_request :: "FileRef list \<Rightarrow> string \<Rightarrow> string \<Rightarrow> Request" where
  "assemble_engine_request inputs outputPath resultName =
     zero_Request
       \<lparr>rq_Operation := OpAssembleGIF, rq_Inputs := inputs, rq_Output := fileRef outputPath resultName\<rparr>"

definition assembled_report :: "string \<Rightarrow> string \<Rightarrow> Response \<Rightarrow> JobAssembledRequest" where
  "assembled_report workerID resultName resp =
     \<lparr>jar_WorkerID = workerID, jar_Status = JobResultStatusSuccess, jar_ResultName = resultName,
      jar_Checksum = rs_Checksum resp, jar_DurationMS = rs_DurationMS resp,
      jar_OutputSizeBytes = rs_OutputSizeBytes resp, jar_Reason = [], jar_Retryable = False\<rparr>"

definition assemble_outcome ::
  "('e, 'm) EntryApi_scheme \<Rightarrow> (EngineError \<Rightarrow> string) \<Rightarrow> string \<Rightarrow> string \<Rightarrow> string \<Rightarrow> EngineError + Response
     \<Rightarrow> 'e \<Rightarrow> 'e" where
  "assemble_outcome api text jobID workerID resultName outcome E =
     (case outcome of
        Inl err \<Rightarrow> reportAssembleFailed api jobID workerID (''engine assemble_gif failed: '' @ text err) True E
      | Inr resp \<Rightarrow>
          if rs_Type resp = ResponseTypeFailed then
            reportAssembleFailed api jobID workerID
              (if rs_Reason resp = [] then ''engine assemble_gif failed'' else rs_Reason resp)
              (rs_Retryable resp) E
          else snd (ea_assembled api jobID (assembled_report workerID resultName resp) E))"

definition runAssembleGIF ::
  "('e, 'm) EntryApi_scheme \<Rightarrow> (EngineError \<Rightarrow> string) \<Rightarrow> string
     \<Rightarrow> (AssembleSegmentRef \<Rightarrow> string \<Rightarrow> string option) \<Rightarrow> EngineError + engine_ref
     \<Rightarrow> (Request \<Rightarrow> EngineError + Response) \<Rightarrow> StartAssembleGIFRequest \<Rightarrow> string \<Rightarrow> WorkerState \<times> 'e
     \<Rightarrow> (WorkerState \<times> 'e) \<times> engine_ref list" where
  "runAssembleGIF api text root download acquired engine req workerID W =
     (case W of (s, E) \<Rightarrow>
        (case download_loop root download (sar_JobID req) (sar_Segments req) [] of
           Inl reason \<Rightarrow> ((s, reportAssembleFailed api (sar_JobID req) workerID reason True E), [])
         | Inr inputs \<Rightarrow>
             let resultName = sar_JobID req @ ''.gif'';
                 outputPath = ResultPath root resultName
             in (case acquired of
                   Inl err \<Rightarrow>
                     ((s, reportAssembleFailed api (sar_JobID req) workerID
                            (''engine slot acquire failed: '' @ text err) True E), [])
                 | Inr lease \<Rightarrow>
                     let s = StartTask (sar_AssembleTaskID req) TaskTypeAssembleGIF s;
                         outcome = engine (assemble_engine_request inputs outputPath resultName);
                         E = assemble_outcome api text (sar_JobID req) workerID resultName outcome E
                     in ((FinishTask (sar_AssembleTaskID req) s, E), [lease]))))"

subsection \<open>Files and notifications\<close>

datatype FileReply = FileBadRequest string | FileNotFound | FileServerError string | FileServed string

text \<open>\<open>GetArtifact\<close> and \<open>GetResult\<close>: \<open>stat\<close> is \<open>os.Stat\<close>, a served path is \<open>c.File\<close>'s.\<close>

definition file_reply :: "(string \<Rightarrow> StatResult) \<Rightarrow> string \<Rightarrow> FileReply" where
  "file_reply stat path =
     (case stat path of
        StatExists \<Rightarrow> FileServed path | StatNotExist \<Rightarrow> FileNotFound | StatError err \<Rightarrow> FileServerError err)"

definition GetArtifact :: "(string \<Rightarrow> StatResult) \<Rightarrow> string \<Rightarrow> string \<Rightarrow> FileReply" where
  "GetArtifact stat root taskID =
     (if taskID = [] then FileBadRequest ''missing task_id'' else file_reply stat (ArtifactPath root taskID))"

definition GetResult :: "(string \<Rightarrow> StatResult) \<Rightarrow> string \<Rightarrow> string \<Rightarrow> FileReply" where
  "GetResult stat root resultName =
     (if resultName = [] then FileBadRequest ''missing result_name'' else file_reply stat (ResultPath root resultName))"

definition bind_JobResultNotificationRequest :: "JobResultNotificationRequest \<Rightarrow> bool" where
  "bind_JobResultNotificationRequest r \<longleftrightarrow>
     jrn_JobID r \<noteq> [] \<and> jrn_VideoName r \<noteq> [] \<and> jrn_Status r \<noteq> JobResultStatusOther []"

definition JobResultNotification ::
  "JobResultNotificationRequest option \<Rightarrow> int \<times> JobResultNotificationResponse" where
  "JobResultNotification body =
     (case ShouldBindJSON bind_JobResultNotificationRequest body of
        None \<Rightarrow> (StatusBadRequest, \<lparr>jrp_Status = JobResultNotifyStatusFailed\<rparr>)
      | Some req \<Rightarrow> (StatusOK, \<lparr>jrp_Status = JobResultNotifyStatusSuccess\<rparr>))"

text \<open>The address the notification logs for the result.\<close>

definition download_url :: "JobResultNotificationRequest \<Rightarrow> string option" where
  "download_url req =
     (if jrn_Status req = JobResultStatusSuccess \<and> jrn_ResultWorkerAddress req \<noteq> [] \<and> jrn_ResultName req \<noteq> []
      then Some (''http://'' @ jrn_ResultWorkerAddress req @ ''/results/'' @ jrn_ResultName req) else None)"

subsection \<open>The peer's replies\<close>

text \<open>\<open>peerclient.UploadSegment\<close> after the exchange: the error the uploader sees.\<close>

fun upload_status_name :: "SegmentUploadStatus \<Rightarrow> string" where
  "upload_status_name SegmentUploadStatusSuccess = ''success''"
| "upload_status_name SegmentUploadStatusFailed = ''failed''"
| "upload_status_name (SegmentUploadStatusOther s) = s"

definition read_upload :: "SegmentUploadResponse HttpResult \<Rightarrow> string option" where
  "read_upload reply =
     (case reply of
        HttpErr err \<Rightarrow> Some err
      | HttpResp code body \<Rightarrow>
          let bad = (code < 200 \<or> 300 \<le> code);
              status_text = ''segment upload returned http status '' @ Itoa code
          in (case body of
                Inl err \<Rightarrow> if bad then Some status_text else Some err
              | Inr resp \<Rightarrow>
                  if bad then
                    (if sur_Reason resp \<noteq> [] then Some (status_text @ '': '' @ sur_Reason resp) else Some status_text)
                  else if upload_status_name (sur_Status resp) \<noteq> ''success'' then
                    (if sur_Reason resp = [] then Some ''segment upload failed'' else Some (sur_Reason resp))
                  else None))"

end
