(* ===== verification/Worker_Handlers_Spec.thy ===== *)
theory Worker_Handlers_Spec
  imports Worker_Handlers Worker_State_Spec
begin

text \<open>
  The worker's handlers composed with Entry's: \<open>entry_api\<close> sends each report to Entry's handler
  and reads its reply as the entry client does. Shown: the outcome of an upload for every state of
  its task, one accepted report per goroutine, and that worker and Entry compute the same disk
  demand for an assembly.
\<close>

definition entry_api :: "assemble_post \<Rightarrow> (nat \<Rightarrow> Env) \<Rightarrow> Entry EntryApi" where
  "entry_api post ev =
     \<lparr>ea_accept = (\<lambda>t req E. case Accepted t (Some req) (ev 0) E of (r, E') \<Rightarrow> (read_accept (over_http r), E')),
      ea_complete = (\<lambda>t req E. case Completed post t (Some req) ev E of (r, E') \<Rightarrow> (read_complete (over_http r), E')),
      ea_fail = (\<lambda>t req E. case Failed t (Some req) (ev 0) E of (r, E') \<Rightarrow> (read_fail (over_http r), E')),
      ea_assembled = (\<lambda>j req E. case Assembled j (Some req) (ev_now (ev 0)) E of
                        (r, E') \<Rightarrow> (read_assembled (over_http r), E'))\<rparr>"

lemma entry_api_sel:
  "ea_accept (entry_api post ev) t areq E =
     (read_accept (over_http (fst (Accepted t (Some areq) (ev 0) E))), snd (Accepted t (Some areq) (ev 0) E))"
  "ea_complete (entry_api post ev) t creq E =
     (read_complete (over_http (fst (Completed post t (Some creq) ev E))), snd (Completed post t (Some creq) ev E))"
  "ea_fail (entry_api post ev) t freq E =
     (read_fail (over_http (fst (Failed t (Some freq) (ev 0) E))), snd (Failed t (Some freq) (ev 0) E))"
  by (simp_all add: entry_api_def split_beta)

subsection \<open>Reading Entry's answer to a report\<close>

lemma read_task_update_respond:
  "read_task_update what (over_http (respond_task err)) =
     Inr \<lparr>tur_Status = TaskUpdateStatusSuccess\<rparr> \<longleftrightarrow> err = None"
  by (auto simp: read_task_update_def postJSON_def over_http_def respond_task_def respondTaskError_def
      split: option.splits ServiceError.splits)

lemma read_task_update_error:
  "err \<noteq> None \<Longrightarrow> \<exists>e. read_task_update what (over_http (respond_task err)) = Inl e"
  by (auto simp: read_task_update_def postJSON_def over_http_def respond_task_def respondTaskError_def
      split: option.splits ServiceError.splits)

lemma read_task_update_ok:
  "read_task_update what (over_http (respond_task None)) = Inr \<lparr>tur_Status = TaskUpdateStatusSuccess\<rparr>"
  by (simp add: read_task_update_respond)

subsection \<open>An upload\<close>

text \<open>What a worker's failure report does to a task and its job in Entry.\<close>

definition failed_by :: "string \<Rightarrow> Entry \<Rightarrow> bool" where
  "failed_by taskID E \<longleftrightarrow>
     (case jm_tasks (en_manager E) taskID of None \<Rightarrow> False
      | Some t \<Rightarrow> t_Status t = TaskStatusFailed
          \<and> (case jm_jobs (en_manager E) (t_JobID t) of None \<Rightarrow> False | Some j \<Rightarrow> j_Status j = JobStatusFailed))"

lemma Failed_inflight:
  assumes "segmentTaskAndJobLocked k (tfr_WorkerID req) (en_manager E) = Inr (task, job)"
    and "t_Status task \<noteq> TaskStatusCompleted" "t_Status task \<noteq> TaskStatusFailed"
    and "bind_TaskFailedRequest req"
  shows "fst (Failed k (Some req) ev E) = respond_task None \<and> failed_by k (snd (Failed k (Some req) ev E))"
  using assms
  by (auto simp: Failed_def ShouldBindJSON_def FailSegmentTask_def fail_segment_locked_def failed_by_def
      segmentTaskAndJobLocked_def set_job_def set_task_def split: option.splits if_splits)

lemma Failed_refused:
  assumes "case segmentTaskAndJobLocked k (tfr_WorkerID req) (en_manager E) of Inl e \<Rightarrow> True
    | Inr (task, job) \<Rightarrow> t_Status task = TaskStatusCompleted \<or> t_Status task = TaskStatusFailed"
  shows "snd (Failed k (Some req) ev E) = E"
  using assms
  by (auto simp: Failed_def ShouldBindJSON_def FailSegmentTask_def fail_segment_locked_def split: sum.splits)

definition upload_code :: "(ServiceError + Task \<times> Job) \<Rightarrow> int" where
  "upload_code found =
     (case found of Inl e \<Rightarrow> StatusBadRequest
      | Inr (task, job) \<Rightarrow> if t_Status task = TaskStatusAssigned then StatusOK else StatusBadRequest)"

lemma upload_refused:
  assumes "ws_workerID s \<noteq> []" and "k \<noteq> []"
    and "UploadSegment (entry_api post ev) root None None s k E = ((code, resp), E', started)"
    and "AcceptSegmentTask k \<lparr>tar_WorkerID = ws_workerID s\<rparr> (ev_now (ev 0)) (en_manager E) = (Some e, m')"
  shows "\<exists>freq. code = StatusBadRequest \<and> started = None \<and> E' = snd (Failed k (Some freq) (ev 0) E)
    \<and> tfr_WorkerID freq = ws_workerID s \<and> bind_TaskFailedRequest freq"
proof -
  have m': "E\<lparr>en_manager := m'\<rparr> = E" using segment_errors_keep(1) assms(4) by simp
  obtain msg where msg: "read_accept (over_http (respond_task (Some e))) = Inl msg"
    using read_task_update_error [of "Some e" "''accepted''"] by (auto simp: read_accept_def)
  let ?freq = "\<lparr>tfr_WorkerID = ws_workerID s, tfr_Reason = ''entry accept task failed: '' @ msg, tfr_Retryable = False\<rparr>"
  from assms msg m' have "code = StatusBadRequest" "started = None" "E' = snd (Failed k (Some ?freq) (ev 0) E)"
    by (auto simp: UploadSegment_def Let_def respondSegmentFailure_def reportSegmentFailure_def entry_api_sel
        Accepted_def ShouldBindJSON_def bind_TaskAcceptedRequest_def)
  moreover have "bind_TaskFailedRequest ?freq" using assms(1) by (simp add: bind_TaskFailedRequest_def)
  ultimately show ?thesis by (intro exI [of _ ?freq]) simp
qed

text \<open>
  C19. An upload that could be stored, for every state of its task at Entry: it is answered 200 and
  processed exactly when the task is a segment assigned to this worker that nobody accepted yet,
  and Entry then has it running. If the task already runs here, the second upload is answered 400
  and the running task and its job are failed at Entry. In every other case the answer is 400
  and Entry's jobs and tasks do not change.
\<close>

theorem upload_outcome:
  assumes "ws_workerID s \<noteq> []" and "k \<noteq> []"
    and "UploadSegment (entry_api post ev) root None None s k E = ((code, resp), E', started)"
  shows "let found = segmentTaskAndJobLocked k (ws_workerID s) (en_manager E) in
      code = upload_code found
    \<and> (started \<noteq> None \<longleftrightarrow> code = StatusOK)
    \<and> (case found of Inl e \<Rightarrow> E' = E
       | Inr (task, job) \<Rightarrow>
           (if t_Status task = TaskStatusAssigned
            then started = Some (UploadPath root k, ArtifactPath root k)
              \<and> map_option t_Status (jm_tasks (en_manager E') k) = Some TaskStatusRunning
            else if t_Status task = TaskStatusRunning then failed_by k E'
            else E' = E))"
proof -
  let ?w = "ws_workerID s" and ?m = "en_manager E"
  let ?areq = "\<lparr>tar_WorkerID = ?w\<rparr>"
  obtain err m' where A: "AcceptSegmentTask k ?areq (ev_now (ev 0)) ?m = (err, m')" by (metis prod.exhaust)
  have acc: "ea_accept (entry_api post ev) k ?areq E = (read_accept (over_http (respond_task err)), E\<lparr>en_manager := m'\<rparr>)"
    using assms(1) A by (simp add: entry_api_sel Accepted_def ShouldBindJSON_def bind_TaskAcceptedRequest_def)
  show ?thesis
  proof (cases err)
    case None
    then obtain task job where f: "segmentTaskAndJobLocked k ?w ?m = Inr (task, job)" "t_Status task = TaskStatusAssigned"
      and m': "jm_tasks m' k = Some (task\<lparr>t_Status := TaskStatusRunning, t_AcceptedAt := Some (ev_now (ev 0)),
        t_UpdatedAt := ev_now (ev 0)\<rparr>)"
      using A by (auto simp: AcceptSegmentTask_def set_job_def set_task_def split: sum.splits if_splits)
    from assms acc None have "code = StatusOK" "E' = E\<lparr>en_manager := m'\<rparr>"
      "started = Some (UploadPath root k, ArtifactPath root k)"
      by (auto simp: UploadSegment_def Let_def read_accept_def read_task_update_ok)
    with f m' show ?thesis by (simp add: upload_code_def)
  next
    case (Some e)
    from upload_refused [OF assms A [unfolded Some]] obtain freq where
      R: "code = StatusBadRequest" "started = None" "E' = snd (Failed k (Some freq) (ev 0) E)"
      and freq: "tfr_WorkerID freq = ?w" "bind_TaskFailedRequest freq" by blast
    show ?thesis
    proof (cases "segmentTaskAndJobLocked k ?w ?m")
      case (Inl x)
      with R freq Failed_refused [of k freq E "ev 0"] show ?thesis by (simp add: upload_code_def)
    next
      case (Inr tj)
      obtain task job where tj: "tj = (task, job)" by (metis prod.exhaust)
      have ns: "t_Status task \<noteq> TaskStatusAssigned"
        using A Some Inr tj by (auto simp: AcceptSegmentTask_def)
      show ?thesis
      proof (cases "t_Status task = TaskStatusRunning")
        case True
        then have "failed_by k E'"
          using Failed_inflight [of k freq E task job "ev 0"] Inr tj freq R(3) by simp
        with R Inr tj ns True show ?thesis by (simp add: upload_code_def)
      next
        case False
        with ns have "t_Status task = TaskStatusCompleted \<or> t_Status task = TaskStatusFailed"
          by (cases "t_Status task") auto
        then have "E' = E" using R(3) Failed_refused [of k freq E "ev 0"] Inr tj freq by simp
        with R Inr tj ns False show ?thesis by (simp add: upload_code_def)
      qed
    qed
  qed
qed

subsection \<open>The report of a processed segment\<close>

text \<open>The one report the goroutine makes: a failure or a completion.\<close>

definition segment_report ::
  "(EngineError \<Rightarrow> string) \<Rightarrow> string \<Rightarrow> EngineError + engine_ref \<Rightarrow> EngineError + Response
     \<Rightarrow> TaskFailedRequest + TaskCompletedRequest" where
  "segment_report text workerID acquired outcome =
     (case acquired of
        Inl err \<Rightarrow> Inl \<lparr>tfr_WorkerID = workerID, tfr_Reason = ''engine slot acquire failed: '' @ text err, tfr_Retryable = True\<rparr>
      | Inr lease \<Rightarrow>
          (case outcome of
             Inl err \<Rightarrow> Inl \<lparr>tfr_WorkerID = workerID, tfr_Reason = ''engine call failed: '' @ text err, tfr_Retryable = True\<rparr>
           | Inr resp \<Rightarrow>
               if rs_Type resp = ResponseTypeFailed
               then Inl \<lparr>tfr_WorkerID = workerID,
                      tfr_Reason = (if rs_Reason resp = [] then ''engine process_segment failed'' else rs_Reason resp),
                      tfr_Retryable = rs_Retryable resp\<rparr>
               else Inr (completed_report workerID resp)))"

lemma segment_report_wid:
  "case segment_report errText w acquired outcome of
     Inl f \<Rightarrow> tfr_WorkerID f = w \<and> tfr_Reason f \<noteq> [] | Inr c \<Rightarrow> tcr_WorkerID c = w"
  by (auto simp: segment_report_def completed_report_def split: sum.split)

lemma processUploadedSegment_report:
  assumes "k \<noteq> []" and "w \<noteq> []"
  shows "processUploadedSegment api text acquired engine k w inputPath artifactPath (s, E) =
     (let outcome = engine (process_request inputPath (Base inputPath) artifactPath) in
      ((case acquired of Inl err \<Rightarrow> s | Inr lease \<Rightarrow> FinishTask k (StartTask k TaskTypeProcessSegment s),
        case segment_report text w acquired outcome of
          Inl freq \<Rightarrow> snd (ea_fail api k freq E) | Inr creq \<Rightarrow> snd (ea_complete api k creq E)),
       case acquired of Inl err \<Rightarrow> [] | Inr lease \<Rightarrow> [lease]))"
  using assms
  by (auto simp: processUploadedSegment_def segment_outcome_def segment_report_def reportSegmentFailure_def Let_def
      split: sum.split)

lemma Completed_inflight:
  assumes "segmentTaskAndJobLocked k (tcr_WorkerID req) (en_manager E) = Inr (task, job)"
    and "t_Status task = TaskStatusAssigned \<or> t_Status task = TaskStatusRunning"
    and "bind_TaskCompletedRequest req"
  shows "fst (Completed post k (Some req) ev E) = respond_task None"
  using assms
  by (auto simp: Completed_def ShouldBindJSON_def CompleteSegmentTask_def complete_segment_locked_def Let_def
      split: if_splits prod.splits)

definition report_answer ::
  "('e, 'm) EntryApi_scheme \<Rightarrow> string \<Rightarrow> TaskFailedRequest + TaskCompletedRequest \<Rightarrow> 'e
     \<Rightarrow> (string + TaskUpdateResponse) \<times> 'e" where
  "report_answer api k rep E = (case rep of Inl freq \<Rightarrow> ea_fail api k freq E | Inr creq \<Rightarrow> ea_complete api k creq E)"

lemma report_answer_success:
  assumes "segmentTaskAndJobLocked k w (en_manager E) = Inr (task, job)"
    and "t_Status task = TaskStatusAssigned \<or> t_Status task = TaskStatusRunning" and "w \<noteq> []"
    and "case segment_report errText w acquired outcome of Inl f \<Rightarrow> True | Inr c \<Rightarrow> bind_TaskCompletedRequest c"
  shows "fst (report_answer (entry_api post ev) k (segment_report errText w acquired outcome) E)
      = Inr \<lparr>tur_Status = TaskUpdateStatusSuccess\<rparr>
    \<and> (isl (segment_report errText w acquired outcome) \<longrightarrow>
         failed_by k (snd (report_answer (entry_api post ev) k (segment_report errText w acquired outcome) E)))"
proof (cases "segment_report errText w acquired outcome")
  case (Inl f)
  with segment_report_wid [where errText = errText and w = w and acquired = acquired and outcome = outcome] assms(3)
  have f: "tfr_WorkerID f = w" "bind_TaskFailedRequest f" by (simp_all add: bind_TaskFailedRequest_def)
  have "fst (Failed k (Some f) (ev 0) E) = respond_task None \<and> failed_by k (snd (Failed k (Some f) (ev 0) E))"
    using assms(1,2) f by (intro Failed_inflight [where task = task and job = job]) auto
  with Inl show ?thesis by (simp add: report_answer_def entry_api_sel read_fail_def read_task_update_ok)
next
  case (Inr c)
  with segment_report_wid [where errText = errText and w = w and acquired = acquired and outcome = outcome] assms(4)
  have c: "tcr_WorkerID c = w" "bind_TaskCompletedRequest c" by simp_all
  have "fst (Completed post k (Some c) ev E) = respond_task None"
    using assms(1,2) c by (intro Completed_inflight) auto
  with Inr show ?thesis by (simp add: report_answer_def entry_api_sel read_complete_def read_task_update_ok)
qed


subsection \<open>The disk demand of an assembly\<close>

definition sizes_of :: "AssembleSegmentRef list \<Rightarrow> int list" where
  "sizes_of = map asr_OutputSizeBytes"

lemma output_size_loop_eq:
  "output_size_loop segs acc =
     (if list_all (\<lambda>x. 0 < x) (sizes_of segs) then (foldl add64 acc (sizes_of segs), True)
      else (fst (output_size_loop segs acc), False))"
  by (induction segs arbitrary: acc) (auto simp: sizes_of_def)

lemma snapshot_loop_eq:
  assumes "snapshot_loop tasks ids (segs, out, known) = Some (segs', out', known')"
  shows "\<exists>new. segs' = segs @ new \<and> out' = foldl add64 out (sizes_of new)
    \<and> (known' \<longleftrightarrow> known \<and> list_all (\<lambda>x. 0 < x) (sizes_of new))"
  using assms
proof (induction ids arbitrary: segs out known)
  case Nil
  then show ?case by (intro exI [of _ "[]"]) (auto simp: sizes_of_def)
next
  case (Cons k ids)
  then obtain task where task: "tasks k = Some task"
    "snapshot_loop tasks ids (segs @ [segment_ref task], add64 out (t_OutputSizeBytes task),
       if t_OutputSizeBytes task \<le> 0 then False else known) = Some (segs', out', known')"
    by (auto split: option.splits if_splits)
  from Cons.IH [OF this(2)] obtain new where new: "segs' = (segs @ [segment_ref task]) @ new"
    "out' = foldl add64 (add64 out (t_OutputSizeBytes task)) (sizes_of new)"
    "known' \<longleftrightarrow> (if t_OutputSizeBytes task \<le> 0 then False else known) \<and> list_all (\<lambda>x. 0 < x) (sizes_of new)"
    by blast
  have size: "asr_OutputSizeBytes (segment_ref task) = t_OutputSizeBytes task" by (simp add: segment_ref_def)
  show ?case
    by (intro exI [of _ "segment_ref task # new"]) (use new size in \<open>auto simp: sizes_of_def\<close>)
qed

lemma worker_estimate_eq:
  assumes "assemble_snapshot jobID m = Inr snap"
  shows "workerEstimateAssembleDiskBytes (as_totalSizeBytes snap) (as_segments snap) = required_disk snap"
proof -
  have "\<exists>job :: Job. snapshot_loop (jm_tasks m) (j_TaskIDs job) ([], 0, True)
      = Some (as_segments snap, as_totalOutputSize snap, as_allOutputSizesKnown snap)"
    using assms by (auto simp: assemble_snapshot_def split: option.splits prod.splits)
  then obtain job :: Job where "snapshot_loop (jm_tasks m) (j_TaskIDs job) ([], 0, True)
      = Some (as_segments snap, as_totalOutputSize snap, as_allOutputSizesKnown snap)" by blast
  from snapshot_loop_eq [OF this]
  have s: "as_totalOutputSize snap = foldl add64 0 (sizes_of (as_segments snap))"
    "as_allOutputSizesKnown snap \<longleftrightarrow> list_all (\<lambda>x. 0 < x) (sizes_of (as_segments snap))"
    by simp_all
  show ?thesis
  proof (cases "list_all (\<lambda>x. 0 < x) (sizes_of (as_segments snap))")
    case True
    then have "output_size_loop (as_segments snap) 0 = (foldl add64 0 (sizes_of (as_segments snap)), True)"
      using output_size_loop_eq [of "as_segments snap" 0] by simp
    moreover have "foldl add64 0 (sizes_of (as_segments snap)) = 0" if "as_segments snap = []"
      using that by (simp add: sizes_of_def)
    ultimately show ?thesis
      using s True by (auto simp: workerEstimateAssembleDiskBytes_def required_disk_def estimateAssembleDiskBytes_def Let_def)
  next
    case False
    then have "\<exists>out. output_size_loop (as_segments snap) 0 = (out, False)"
      using output_size_loop_eq [of "as_segments snap" 0] by (metis (full_types))
    then show ?thesis
      using s False by (auto simp: workerEstimateAssembleDiskBytes_def required_disk_def estimateAssembleDiskBytes_def Let_def)
  qed
qed

text \<open>
  C24. Worker and Entry agree on the disk an assembly needs: for the request Entry builds from its own
  snapshot of a job, the worker's estimate is the number of bytes Entry reserved, overflow
  included; so the worker takes the job exactly when it is registered, the request satisfies its
  binding tags and its free disk is at least Entry's reservation, and otherwise Entry reads an
  error or a status that makes it give the reservation back.
\<close>

theorem assemble_demand_agrees:
  assumes "assemble_snapshot jobID m = Inr snap" and "req = assemble_request jobID taskID snap"
    and "StartAssembleGIF usage s (Some req) = ((code, resp), started)"
  shows "workerEstimateAssembleDiskBytes (avi_TotalSizeBytes (sar_Video req)) (sar_Segments req) = required_disk snap
    \<and> (started = Some (req, ws_workerID s) \<longleftrightarrow>
         bind_StartAssembleGIFRequest req \<and> ws_workerID s \<noteq> []
         \<and> required_disk snap \<le> snd (diskUsageLocked usage s))
    \<and> (started = None \<longleftrightarrow> (case notifyAssembleWorker (HttpResp code (Inr resp)) of
         Inl err \<Rightarrow> True | Inr r \<Rightarrow> sap_Status r \<noteq> StartAssembleGIFStatusSuccess))"
proof -
  have est: "workerEstimateAssembleDiskBytes (avi_TotalSizeBytes (sar_Video req)) (sar_Segments req) = required_disk snap"
    using worker_estimate_eq [OF assms(1)] assms(2) by (simp add: assemble_request_def)
  then show ?thesis
    using assms(3)
    by (auto simp: StartAssembleGIF_def ShouldBindJSON_def Let_def notifyAssembleWorker_def split: if_splits)
qed

subsection \<open>The report of an assembly\<close>

definition artifact_ref :: "string \<Rightarrow> string \<Rightarrow> AssembleSegmentRef \<Rightarrow> FileRef" where
  "artifact_ref root jobID seg =
     (let p = AssembleArtifactPath root jobID (asr_TaskID seg)
      in \<lparr>fr_Mode = DataModeFile, fr_Path = p, fr_Name = Base p, fr_SizeBytes = 0\<rparr>)"

definition failure_report :: "string \<Rightarrow> string \<Rightarrow> bool \<Rightarrow> JobAssembledRequest" where
  "failure_report w reason retryable =
     \<lparr>jar_WorkerID = w, jar_Status = JobResultStatusFailed, jar_ResultName = [], jar_Checksum = [],
      jar_DurationMS = 0, jar_OutputSizeBytes = 0, jar_Reason = reason, jar_Retryable = retryable\<rparr>"

lemma reportAssembleFailed_eq:
  "jobID \<noteq> [] \<Longrightarrow> w \<noteq> [] \<Longrightarrow>
   reportAssembleFailed api jobID w reason retryable E = snd (ea_assembled api jobID (failure_report w reason retryable) E)"
  by (simp add: reportAssembleFailed_def failure_report_def)

lemma download_loop_Inr:
  "download_loop root download jobID segs inputs = Inr res \<Longrightarrow>
   list_all (\<lambda>seg. download seg (fr_Path (artifact_ref root jobID seg)) = None) segs
   \<and> res = inputs @ map (artifact_ref root jobID) segs"
proof (induction segs arbitrary: inputs)
  case (Cons a segs)
  then have "download a (fr_Path (artifact_ref root jobID a)) = None"
    and rest: "download_loop root download jobID segs (inputs @ [artifact_ref root jobID a]) = Inr res"
    by (auto simp: Let_def artifact_ref_def split: option.splits)
  with Cons.IH [OF rest] show ?case by simp
qed simp

lemma download_loop_Inl: "download_loop root download jobID segs inputs = Inl reason \<Longrightarrow> reason \<noteq> []"
  by (induction segs arbitrary: inputs) (auto simp: Let_def split: option.splits)

text \<open>What is known of the one report of an assembly.\<close>

definition honest_report ::
  "string \<Rightarrow> (AssembleSegmentRef \<Rightarrow> string \<Rightarrow> string option) \<Rightarrow> EngineError + engine_ref
     \<Rightarrow> (Request \<Rightarrow> EngineError + Response) \<Rightarrow> StartAssembleGIFRequest \<Rightarrow> string \<Rightarrow> JobAssembledRequest \<Rightarrow> bool" where
  "honest_report root download acquired engine req w report \<longleftrightarrow>
     (\<exists>reason retryable. report = failure_report w reason retryable \<and> reason \<noteq> [])
     \<or> (\<exists>resp. report = assembled_report w (sar_JobID req @ ''.gif'') resp \<and> rs_Type resp \<noteq> ResponseTypeFailed
          \<and> \<not> isl acquired
          \<and> list_all (\<lambda>seg. download seg (fr_Path (artifact_ref root (sar_JobID req) seg)) = None) (sar_Segments req)
          \<and> engine (assemble_engine_request (map (artifact_ref root (sar_JobID req)) (sar_Segments req))
                (ResultPath root (sar_JobID req @ ''.gif'')) (sar_JobID req @ ''.gif'')) = Inr resp)"

lemma honest_failure: "reason \<noteq> [] \<Longrightarrow> honest_report root download acquired engine req w (failure_report w reason retryable)"
  by (auto simp: honest_report_def)

lemma assemble_outcome_honest:
  assumes "download_loop root download (sar_JobID req) (sar_Segments req) [] = Inr inputs"
    and "sar_JobID req \<noteq> []" and "w \<noteq> []" and "name = sar_JobID req @ ''.gif''"
    and "outcome = engine (assemble_engine_request inputs (ResultPath root name) name)"
  shows "\<exists>report. assemble_outcome api errText (sar_JobID req) w name outcome E = snd (ea_assembled api (sar_JobID req) report E)
    \<and> honest_report root download (Inr lease) engine req w report"
proof (cases outcome)
  case (Inl err)
  let ?reason = "''engine assemble_gif failed: '' @ errText err"
  from Inl assms(2,3) have "assemble_outcome api errText (sar_JobID req) w name outcome E
      = snd (ea_assembled api (sar_JobID req) (failure_report w ?reason True) E)"
    by (simp add: assemble_outcome_def reportAssembleFailed_eq)
  then show ?thesis using honest_failure [of ?reason root download "Inr lease" engine req w True] by auto
next
  case resp: (Inr resp)
  show ?thesis
  proof (cases "rs_Type resp = ResponseTypeFailed")
    case True
    let ?reason = "if rs_Reason resp = [] then ''engine assemble_gif failed'' else rs_Reason resp"
    from True resp assms(2,3) have "assemble_outcome api errText (sar_JobID req) w name outcome E
        = snd (ea_assembled api (sar_JobID req) (failure_report w ?reason (rs_Retryable resp)) E)"
      by (simp add: assemble_outcome_def reportAssembleFailed_eq)
    moreover have "?reason \<noteq> []" by simp
    ultimately show ?thesis using honest_failure by blast
  next
    case False
    with resp have "assemble_outcome api errText (sar_JobID req) w name outcome E
        = snd (ea_assembled api (sar_JobID req) (assembled_report w name resp) E)"
      by (simp add: assemble_outcome_def)
    moreover have "honest_report root download (Inr lease) engine req w (assembled_report w name resp)"
      using download_loop_Inr [OF assms(1)] resp False assms(4,5) by (auto simp: honest_report_def)
    ultimately show ?thesis by blast
  qed
qed

text \<open>
  C22. A started assembly makes exactly one report, whatever fails: a failure with a reason, or a
  success, and that only when every artifact was downloaded and the engine completed on exactly
  those files, in the order of the segments. The worker's running tasks are what they were, and
  the engine it got is given back.
\<close>

theorem assembly_reports_once:
  assumes "runAssembleGIF api errText root download acquired engine req w (s, E) = ((s', E'), released)"
    and "sar_JobID req \<noteq> []" and "w \<noteq> []" and "ws_runningTasks s (sar_AssembleTaskID req) = None"
  shows "(\<exists>report. E' = snd (ea_assembled api (sar_JobID req) report E)
      \<and> honest_report root download acquired engine req w report)
    \<and> ws_runningTasks s' = ws_runningTasks s
    \<and> (released = [] \<or> acquired = Inr (hd released) \<and> tl released = [])"
proof (cases "download_loop root download (sar_JobID req) (sar_Segments req) []")
  case (Inl reason)
  with assms show ?thesis
    using honest_failure [OF download_loop_Inl [OF Inl], of root download acquired engine req w True]
    by (auto simp: runAssembleGIF_def reportAssembleFailed_eq)
next
  case inputs: (Inr inputs)
  let ?name = "sar_JobID req @ ''.gif''"
  show ?thesis
  proof (cases acquired)
    case (Inl err)
    let ?reason = "''engine slot acquire failed: '' @ errText err"
    from Inl inputs assms have "E' = snd (ea_assembled api (sar_JobID req) (failure_report w ?reason True) E)"
      "s' = s" "released = []"
      by (auto simp: runAssembleGIF_def reportAssembleFailed_eq)
    then show ?thesis
      using honest_failure [of ?reason root download acquired engine req w True] by auto
  next
    case (Inr lease)
    let ?outcome = "engine (assemble_engine_request inputs (ResultPath root ?name) ?name)"
    from Inr inputs assms(1) have R: "E' = assemble_outcome api errText (sar_JobID req) w ?name ?outcome E"
      "s' = FinishTask (sar_AssembleTaskID req) (StartTask (sar_AssembleTaskID req) TaskTypeAssembleGIF s)"
      "released = [lease]"
      by (simp_all add: runAssembleGIF_def Let_def)
    have s': "ws_runningTasks s' = ws_runningTasks s"
      using R(2) assms(4) by (simp add: StartTask_def FinishTask_def fun_upd_idem)
    from assemble_outcome_honest [OF inputs assms(2,3) refl refl, of api errText engine E lease] R(1) Inr
    have "\<exists>report. E' = snd (ea_assembled api (sar_JobID req) report E)
        \<and> honest_report root download acquired engine req w report" by simp
    with s' R(3) Inr show ?thesis by simp
  qed
qed

subsection \<open>Witnesses\<close>

definition ex_upload_entry :: Entry where
  "ex_upload_entry = \<lparr>en_workers = run_registry (run_worker 1 30), en_manager = wd_manager run_created\<rparr>"

definition ex_uploader :: WorkerState where
  "ex_uploader = SetRegistration ''wrk_01'' zero_SplitPolicy (NewWorkerState 2 100 50)"

lemma ex_upload_simps:
  "ws_workerID ex_uploader = ''wrk_01''" "ws_runningTasks ex_uploader = Map.empty"
  "segmentTaskAndJobLocked ''task_03'' ''wrk_01'' (en_manager ex_upload_entry) = Inr (run_task, run_job)"
  "t_Status run_task = TaskStatusAssigned"
  by (simp_all add: ex_uploader_def SetRegistration_def NewWorkerState_def ex_upload_entry_def
      segmentTaskAndJobLocked_def run_worlds run_defs)

abbreviation ex_api :: "Entry EntryApi" where
  "ex_api \<equiv> entry_api (\<lambda>a r E. (HttpErr ''down'', E)) (\<lambda>n. \<lparr>ev_ord = [], ev_now = 40, ev_draw = None\<rparr>)"

definition ex_upload :: "Entry \<Rightarrow> (int \<times> SegmentUploadResponse) \<times> Entry \<times> (string \<times> string) option" where
  "ex_upload E = UploadSegment ex_api ''data/spool'' None None ex_uploader ''task_03'' E"

theorem upload_outcome_witness:
  "fst (fst (ex_upload ex_upload_entry)) = StatusOK
   \<and> fst (fst (ex_upload (fst (snd (ex_upload ex_upload_entry))))) = StatusBadRequest
   \<and> failed_by ''task_03'' (fst (snd (ex_upload (fst (snd (ex_upload ex_upload_entry))))))"
proof -
  obtain c1 r1 E1 st1 where U1: "ex_upload ex_upload_entry = ((c1, r1), E1, st1)" by (metis prod.exhaust)
  obtain c2 r2 E2 st2 where U2: "ex_upload E1 = ((c2, r2), E2, st2)" by (metis prod.exhaust)
  note out = upload_outcome [of ex_uploader "''task_03''", unfolded ex_upload_simps(1), OF _ _ U1 [unfolded ex_upload_def]]
  have 1: "c1 = StatusOK" using out by (simp add: ex_upload_simps upload_code_def)
  have "(case segmentTaskAndJobLocked ''task_03'' ''wrk_01'' (en_manager (fst (snd (ex_upload ex_upload_entry)))) of
      Inl e \<Rightarrow> False | Inr (t, j) \<Rightarrow> t_Status t = TaskStatusRunning)"
    by code_simp
  then obtain t j where f: "segmentTaskAndJobLocked ''task_03'' ''wrk_01'' (en_manager E1) = Inr (t, j)"
    "t_Status t = TaskStatusRunning"
    using U1 by (auto split: sum.splits prod.splits)
  show ?thesis
    using upload_outcome [of ex_uploader "''task_03''", unfolded ex_upload_simps(1), OF _ _ U2 [unfolded ex_upload_def]]
      1 f U1 U2
    by (simp add: upload_code_def)
qed

definition ex_answer :: Response where
  "ex_answer =
     \<lparr>rs_Version = 1, rs_RequestID = ''req'', rs_Type = ResponseTypeCompleted, rs_ResultName = [], rs_ArtifactName = [],
      rs_Checksum = ''c'', rs_FrameCount = 3, rs_DurationMS = 4, rs_OutputSizeBytes = 5, rs_Segments = [],
      rs_Reason = [], rs_Retryable = False\<rparr>"


definition ex_assemble :: StartAssembleGIFRequest where
  "ex_assemble =
     \<lparr>sar_JobID = ''job_1'', sar_AssembleTaskID = ''task_9'',
      sar_Video = \<lparr>avi_Name = ''v'', avi_SourceWorkerID = ''a'', avi_SourceWorkerAddress = ''a:1'', avi_TotalSizeBytes = 9\<rparr>,
      sar_Segments = [segment_ref run_task]\<rparr>"

theorem assembly_reports_once_witness:
  "\<exists>report. honest_report ''data/spool'' (\<lambda>seg p. None) (Inr 0) (\<lambda>r. Inr ex_answer) ex_assemble ''wrk_01'' report"
proof -
  obtain s' E' rel where R: "runAssembleGIF ex_api (\<lambda>e. ''error'') ''data/spool'' (\<lambda>seg p. None) (Inr 0) (\<lambda>r. Inr ex_answer)
      ex_assemble ''wrk_01'' (ex_uploader, ex_upload_entry) = ((s', E'), rel)" by (metis prod.exhaust)
  from assembly_reports_once [OF R] show ?thesis by (auto simp: ex_assemble_def ex_upload_simps)
qed

definition ex_done_manager :: JobManager where
  "ex_done_manager =
     \<lparr>jm_jobs = [''job_02'' \<mapsto> run_job],
      jm_tasks = [''task_03'' \<mapsto> run_task\<lparr>t_Status := TaskStatusCompleted, t_OutputSizeBytes := 5\<rparr>],
      jm_jobIDByIdentity = Map.empty\<rparr>"

theorem assemble_demand_agrees_witness:
  "\<exists>snap. assemble_snapshot ''job_02'' ex_done_manager = Inr snap \<and> required_disk snap = 12
     \<and> workerEstimateAssembleDiskBytes 9 (as_segments snap) = 12
     \<and> snd (StartAssembleGIF (Some (100, 11)) ex_uploader (Some (assemble_request ''job_02'' ''task_9'' snap))) = None"
proof -
  have "(case assemble_snapshot ''job_02'' ex_done_manager of Inl e \<Rightarrow> False
      | Inr snap \<Rightarrow> required_disk snap = 12 \<and> as_totalSizeBytes snap = 9)"
    by code_simp
  then obtain snap where snap: "assemble_snapshot ''job_02'' ex_done_manager = Inr snap" "required_disk snap = 12"
    "as_totalSizeBytes snap = 9"
    by (auto split: sum.splits)
  let ?req = "assemble_request ''job_02'' ''task_9'' snap"
  obtain c r st where U: "StartAssembleGIF (Some (100, 11)) ex_uploader (Some ?req) = ((c, r), st)" by (metis prod.exhaust)
  from assemble_demand_agrees [OF snap(1) refl U] snap U show ?thesis
    by (auto simp: assemble_request_def diskUsageLocked_def StartAssembleGIF_def ShouldBindJSON_def Let_def split: if_splits)
qed

end
