(* ===== verification/Env_Config.thy ===== *)
theory Env_Config
  imports Go_Std
begin

text \<open>
  \<open>pkg/envfile\<close> and the configuration both programs read from the environment
  (\<open>worker-node/go/internal/config\<close> and \<open>entry-server/cmd/server/main.go\<close>). The process
  environment is a map, given and returned. A file is what opening and scanning it yields; its
  lines are taken as ASCII, where \<open>strings.TrimSpace\<close> strips six characters.
\<close>

subsection \<open>String functions\<close>

definition is_space :: "char \<Rightarrow> bool" where
  "is_space c \<longleftrightarrow> c \<in> {CHR 0x09, CHR 0x0A, CHR 0x0B, CHR 0x0C, CHR 0x0D, CHR '' ''}"

definition TrimSpace :: "string \<Rightarrow> string" where
  "TrimSpace s = rev (dropWhile is_space (rev (dropWhile is_space s)))"

fun HasPrefix :: "string \<Rightarrow> string \<Rightarrow> bool" where
  "HasPrefix s [] = True"
| "HasPrefix [] (p # ps) = False"
| "HasPrefix (c # cs) (p # ps) = (c = p \<and> HasPrefix cs ps)"

definition TrimPrefix :: "string \<Rightarrow> string \<Rightarrow> string" where
  "TrimPrefix s p = (if HasPrefix s p then drop (length p) s else s)"

text \<open>\<open>strings.Cut\<close> at the first occurrence of one character.\<close>

definition Cut :: "char \<Rightarrow> string \<Rightarrow> (string \<times> string) option" where
  "Cut c s = (if c \<in> set s then Some (takeWhile (\<lambda>x. x \<noteq> c) s, tl (dropWhile (\<lambda>x. x \<noteq> c) s)) else None)"

text \<open>\<open>strings.Index\<close>: the first position at which \<open>p\<close> occurs.\<close>

fun Index :: "string \<Rightarrow> string \<Rightarrow> nat option" where
  "Index [] p = (if p = [] then Some 0 else None)"
| "Index (c # cs) p =
     (if HasPrefix (c # cs) p then Some 0 else map_option Suc (Index cs p))"

subsection \<open>Environment files\<close>

type_synonym environ = "string \<rightharpoonup> string"

datatype EnvError = ExpectedKeyValue | EmptyKey | SetenvError | EnvIO string | EnvLine string nat EnvError

definition Setenv :: "string \<Rightarrow> string \<Rightarrow> environ \<Rightarrow> EnvError + environ" where
  "Setenv key value env =
     (if key = [] \<or> CHR ''='' \<in> set key \<or> CHR 0x00 \<in> set key \<or> CHR 0x00 \<in> set value then Inl SetenvError
      else Inr (env(key \<mapsto> value)))"

definition quoted_by :: "char \<Rightarrow> string \<Rightarrow> bool" where
  "quoted_by q value \<longleftrightarrow> 2 \<le> length value \<and> hd value = q \<and> last value = q"

definition parseValue :: "string \<Rightarrow> string" where
  "parseValue value =
     (let value = TrimSpace value
      in if quoted_by (CHR 0x22) value \<or> quoted_by (CHR 0x27) value
         then take (length value - 2) (tl value)
         else case Index value '' #'' of Some i \<Rightarrow> TrimSpace (take i value) | None \<Rightarrow> value)"

definition parseLine :: "string \<Rightarrow> environ \<Rightarrow> EnvError + environ" where
  "parseLine line env =
     (let line = TrimSpace line
      in if line = [] \<or> HasPrefix line ''#'' then Inr env
         else
           (case Cut (CHR ''='') (TrimSpace (TrimPrefix line ''export '')) of
              None \<Rightarrow> Inl ExpectedKeyValue
            | Some (key, value) \<Rightarrow>
                let key = TrimSpace key
                in if key = [] then Inl EmptyKey
                   else if env key \<noteq> None then Inr env
                   else Setenv key (parseValue value) env))"

text \<open>What opening a file gives: the lines scanned and the scanner's error at their end.\<close>

datatype EnvFile = FileMissing | FileUnreadable string | FileLines "string list" "string option"

fun scan_lines :: "string \<Rightarrow> nat \<Rightarrow> string list \<Rightarrow> environ \<Rightarrow> EnvError option \<times> environ" where
  "scan_lines path n [] env = (None, env)"
| "scan_lines path n (line # rest) env =
     (case parseLine line env of
        Inl err \<Rightarrow> (Some (EnvLine path (Suc n) err), env)
      | Inr env \<Rightarrow> scan_lines path (Suc n) rest env)"

text \<open>\<open>loadFile\<close>; \<open>None\<close> in the first component: the file does not exist.\<close>

definition loadFile :: "string \<Rightarrow> EnvFile \<Rightarrow> environ \<Rightarrow> EnvError option option \<times> environ" where
  "loadFile path file env =
     (case file of
        FileMissing \<Rightarrow> (None, env)
      | FileUnreadable err \<Rightarrow> (Some (Some (EnvIO err)), env)
      | FileLines lines scanErr \<Rightarrow>
          (case scan_lines path 0 lines env of
             (Some err, env) \<Rightarrow> (Some (Some err), env)
           | (None, env) \<Rightarrow>
               (Some (case scanErr of None \<Rightarrow> None
                      | Some err \<Rightarrow> Some (EnvIO (''read '' @ path @ '': '' @ err))), env)))"

fun Load :: "(string \<Rightarrow> EnvFile) \<Rightarrow> string list \<Rightarrow> environ \<Rightarrow> EnvError option \<times> environ" where
  "Load files [] env = (None, env)"
| "Load files (path # paths) env =
     (if path = [] then Load files paths env
      else case loadFile path (files path) env of
             (Some (Some err), env) \<Rightarrow> (Some err, env)
           | (_, env) \<Rightarrow> Load files paths env)"

definition LoadWithOverride ::
  "(string \<Rightarrow> EnvFile) \<Rightarrow> string \<Rightarrow> string list \<Rightarrow> environ \<Rightarrow> EnvError option \<times> environ" where
  "LoadWithOverride files overrideEnvKey defaults env =
     (let paths = (case env overrideEnvKey of
                     None \<Rightarrow> defaults
                   | Some override \<Rightarrow> if override = [] then defaults else defaults @ [override])
      in Load files paths env)"

subsection \<open>Typed settings\<close>

definition Getenv :: "environ \<Rightarrow> string \<Rightarrow> string" where
  "Getenv env key = (case env key of None \<Rightarrow> [] | Some value \<Rightarrow> value)"

definition stringFromEnv :: "environ \<Rightarrow> string \<Rightarrow> string \<Rightarrow> string" where
  "stringFromEnv env key fallback = (if Getenv env key = [] then fallback else Getenv env key)"

text \<open>The worker takes positive integers, Entry also zero; both take non-negative 64-bit ones.\<close>

definition intFromEnv :: "environ \<Rightarrow> string \<Rightarrow> int \<Rightarrow> int" where
  "intFromEnv env key fallback =
     (if Getenv env key = [] then fallback
      else case Atoi (Getenv env key) of
             None \<Rightarrow> fallback | Some parsed \<Rightarrow> if parsed \<le> 0 then fallback else parsed)"

definition entryIntFromEnv :: "environ \<Rightarrow> string \<Rightarrow> int \<Rightarrow> int" where
  "entryIntFromEnv env key fallback =
     (if Getenv env key = [] then fallback
      else case Atoi (Getenv env key) of
             None \<Rightarrow> fallback | Some parsed \<Rightarrow> if parsed < 0 then fallback else parsed)"

definition int64FromEnv :: "environ \<Rightarrow> string \<Rightarrow> int \<Rightarrow> int" where
  "int64FromEnv env key fallback =
     (if Getenv env key = [] then fallback
      else case Atoi (Getenv env key) of
             None \<Rightarrow> fallback | Some parsed \<Rightarrow> if parsed < 0 then fallback else parsed)"

abbreviation Second :: int where "Second \<equiv> 1000000000"

definition durationSecondsFromEnv :: "environ \<Rightarrow> string \<Rightarrow> int \<Rightarrow> int" where
  "durationSecondsFromEnv env key fallback =
     (if Getenv env key = [] then fallback
      else case Atoi (Getenv env key) of
             None \<Rightarrow> fallback | Some seconds \<Rightarrow> if seconds \<le> 0 then fallback else mul64 seconds Second)"

record Config =
  cf_ListenAddr :: string
  cf_EntryBaseURL :: string
  cf_AdvertisedAddress :: string
  cf_TotalSlots :: int
  cf_DataDir :: string
  cf_EngineBinaryPath :: string
  cf_LogLevel :: string
  cf_LogOutput :: string
  cf_LogFile :: string
  cf_HeartbeatInterval :: int
  cf_DiskTotalBytes :: int
  cf_DiskFreeBytes :: int
  cf_InputDir :: string
  cf_SourceScanInterval :: int
  cf_CannyLowThreshold :: int
  cf_CannyHighThreshold :: int

definition FromEnv :: "environ \<Rightarrow> Config" where
  "FromEnv env =
     \<lparr>cf_ListenAddr = stringFromEnv env ''WORKER_LISTEN_ADDR'' '':9001'',
      cf_EntryBaseURL = stringFromEnv env ''ENTRY_BASE_URL'' ''http://127.0.0.1:8080'',
      cf_AdvertisedAddress = stringFromEnv env ''WORKER_ADVERTISED_ADDRESS'' ''127.0.0.1:9001'',
      cf_TotalSlots = intFromEnv env ''WORKER_TOTAL_SLOTS'' 4,
      cf_DataDir = stringFromEnv env ''WORKER_DATA_DIR'' ''worker-node/data'',
      cf_EngineBinaryPath =
        stringFromEnv env ''WORKER_ENGINE_BINARY'' ''worker-node/cpp/build/framefleet-engine'',
      cf_LogLevel = stringFromEnv env ''WORKER_LOG_LEVEL'' ''info'',
      cf_LogOutput = stringFromEnv env ''WORKER_LOG_OUTPUT'' ''stdout'',
      cf_LogFile = stringFromEnv env ''WORKER_LOG_FILE'' ''logs/worker-agent.log'',
      cf_HeartbeatInterval = durationSecondsFromEnv env ''WORKER_HEARTBEAT_INTERVAL_SECONDS'' (10 * Second),
      cf_DiskTotalBytes = int64FromEnv env ''WORKER_DISK_TOTAL_BYTES'' 1000000000,
      cf_DiskFreeBytes = int64FromEnv env ''WORKER_DISK_FREE_BYTES'' 800000000,
      cf_InputDir = stringFromEnv env ''WORKER_INPUT_DIR'' ''worker-node/data/input'',
      cf_SourceScanInterval = durationSecondsFromEnv env ''WORKER_SOURCE_SCAN_INTERVAL_SECONDS'' (10 * Second),
      cf_CannyLowThreshold = intFromEnv env ''WORKER_CANNY_LOW_THRESHOLD'' 80,
      cf_CannyHighThreshold = intFromEnv env ''WORKER_CANNY_HIGH_THRESHOLD'' 160\<rparr>"

text \<open>What Entry's \<open>main\<close> takes from the environment; the intervals disable their loop when they
  are not positive (\<open>startWorkerExpiryChecker\<close>).\<close>

record EntryConfig =
  ec_addr :: string
  ec_Timeout :: int
  ec_CheckInterval :: int
  ec_TargetSegmentSizeBytes :: int
  ec_TargetSegmentDurationMS :: int
  ec_MaxSegments :: int

definition EntryFromEnv :: "environ \<Rightarrow> EntryConfig" where
  "EntryFromEnv env =
     \<lparr>ec_addr = stringFromEnv env ''ENTRY_SERVER_ADDR'' '':8080'',
      ec_Timeout = durationSecondsFromEnv env ''WORKER_HEARTBEAT_TIMEOUT_SECONDS'' (30 * Second),
      ec_CheckInterval = durationSecondsFromEnv env ''WORKER_HEARTBEAT_CHECK_INTERVAL_SECONDS'' (10 * Second),
      ec_TargetSegmentSizeBytes = int64FromEnv env ''SPLIT_TARGET_SEGMENT_SIZE_BYTES'' 0,
      ec_TargetSegmentDurationMS = int64FromEnv env ''SPLIT_TARGET_SEGMENT_DURATION_MS'' 3000,
      ec_MaxSegments = entryIntFromEnv env ''SPLIT_MAX_SEGMENTS'' 0\<rparr>"

definition expiry_checker_runs :: "EntryConfig \<Rightarrow> bool" where
  "expiry_checker_runs c \<longleftrightarrow> \<not> (ec_Timeout c \<le> 0 \<or> ec_CheckInterval c \<le> 0)"

end
