(* ===== verification/Worker_Agent.thy ===== *)
theory Worker_Agent
  imports Env_Config Worker_Files Worker_State Engine_Pool
begin

text \<open>
  \<open>worker-node/go/internal/agent\<close>: what a worker is made of and how it comes up, and the counts of
  its slots that the heartbeat loop logs. The loggers, the loops that then run on their own and the
  HTTP server are left out.
\<close>

record Agent =
  ag_cfg :: Config
  ag_enginePool :: Pool
  ag_spool :: string
  ag_state :: WorkerState

text \<open>\<open>New\<close>: the errors are those of creating a spool directory (\<open>mkdir\<close>) and of the pool.\<close>

datatype AgentError = AgentMkdir string | AgentPool EngineError | AgentRegister string | AgentStart string

fun mkdir_all :: "(string \<Rightarrow> string option) \<Rightarrow> string list \<Rightarrow> string option" where
  "mkdir_all mkdir [] = None"
| "mkdir_all mkdir (dir # dirs) = (case mkdir dir of Some err \<Rightarrow> Some err | None \<Rightarrow> mkdir_all mkdir dirs)"

definition NewAgent :: "(string \<Rightarrow> string option) \<Rightarrow> Config \<Rightarrow> AgentError + Agent" where
  "NewAgent mkdir cfg =
     (let spool = NewSpool (cf_DataDir cfg)
      in case mkdir_all mkdir (Dirs spool) of
           Some err \<Rightarrow> Inl (AgentMkdir err)
         | None \<Rightarrow>
             (case NewPool (cf_TotalSlots cfg) (cf_EngineBinaryPath cfg) of
                Inl err \<Rightarrow> Inl (AgentPool err)
              | Inr pool \<Rightarrow>
                  Inr \<lparr>ag_cfg = cfg, ag_enginePool = pool, ag_spool = spool,
                       ag_state = NewWorkerState (cf_TotalSlots cfg) (cf_DiskTotalBytes cfg) (cf_DiskFreeBytes cfg)\<rparr>))"

text \<open>\<open>Run\<close> up to the start of its loops: the engines, then the registration. \<open>usage\<close> is what the
  disk observer of the results directory reads.\<close>

definition agent_boot ::
  "string option \<Rightarrow> (int \<Rightarrow> string option) \<Rightarrow> (engine_ref \<Rightarrow> string option)
     \<Rightarrow> (RegisterWorkerRequest \<Rightarrow> 'e \<Rightarrow> RegisterWorkerResponse HttpResult \<times> 'e) \<Rightarrow> (int \<times> int) option
     \<Rightarrow> Agent \<times> 'e \<Rightarrow> AgentError option \<times> Agent \<times> 'e" where
  "agent_boot ctxErr spawn stop post usage W =
     (case W of (a, E) \<Rightarrow>
        (case PoolStart ctxErr spawn stop (ag_enginePool a) of
           (Some err, pool) \<Rightarrow> (Some (AgentStart err), a\<lparr>ag_enginePool := pool\<rparr>, E)
         | (None, pool) \<Rightarrow>
             let a = a\<lparr>ag_enginePool := pool\<rparr>
             in (case post (register_request (cf_AdvertisedAddress (ag_cfg a)) usage (ag_state a)) E of
                   (reply, E) \<Rightarrow>
                     (case registered reply (ag_state a) of
                        (Some err, s) \<Rightarrow> (Some (AgentRegister err), a, E)
                      | (None, s) \<Rightarrow> (None, a\<lparr>ag_state := s\<rparr>, E)))))"

text \<open>The counts of idle and busy slots in the snapshot the heartbeat logs.\<close>

fun count_slots :: "SlotSnapshot list \<Rightarrow> int \<times> int \<Rightarrow> int \<times> int" where
  "count_slots [] acc = acc"
| "count_slots (slot # slots) (idle, busy) =
     count_slots slots (if ss_State slot = slotStateIdle then (add64 idle 1, busy) else (idle, add64 busy 1))"

definition runtime_counts :: "int \<Rightarrow> Pool \<Rightarrow> int \<times> int" where
  "runtime_counts now p = count_slots (Snapshot now p) (0, 0)"

end
