(* ===== verification/Env_Config_Spec.thy ===== *)
theory Env_Config_Spec
  imports Env_Config Engine_Pool
begin

text \<open>
  What the environment files define: the first definition of a key wins, whatever file it is in;
  a quoted value survives the trip through a line; and every setting the worker derives is within
  the bounds the rest of the program needs.
\<close>

subsection \<open>Lines\<close>

text \<open>The binding a line makes, as far as the line alone decides it.\<close>

definition line_binding :: "string \<Rightarrow> (string \<times> string) option" where
  "line_binding line =
     (let line = TrimSpace line
      in if line = [] \<or> HasPrefix line ''#'' then None
         else map_option (\<lambda>(key, value). (TrimSpace key, parseValue value))
                (Cut (CHR ''='') (TrimSpace (TrimPrefix line ''export ''))))"

definition bind_new :: "string \<times> string \<Rightarrow> environ \<Rightarrow> environ" where
  "bind_new kv env = (if env (fst kv) = None then env(fst kv \<mapsto> snd kv) else env)"

lemma parseLine_binding:
  "parseLine line env = Inr env' \<Longrightarrow> env' = (case line_binding line of None \<Rightarrow> env | Some kv \<Rightarrow> bind_new kv env)"
  by (auto simp: parseLine_def line_binding_def bind_new_def Setenv_def Let_def split: if_splits option.splits)

definition line_bindings :: "string list \<Rightarrow> (string \<times> string) list" where
  "line_bindings lines = List.map_filter line_binding lines"

lemma line_bindings_simps [simp]:
  "line_bindings [] = []"
  "line_bindings (line # lines) =
     (case line_binding line of None \<Rightarrow> line_bindings lines | Some kv \<Rightarrow> kv # line_bindings lines)"
  by (simp_all add: line_bindings_def List.map_filter_simps split: option.split)

text \<open>The environment with the bindings of a list added, the first of a key winning.\<close>

definition extend :: "(string \<times> string) list \<Rightarrow> environ \<Rightarrow> environ" where
  "extend kvs env = (\<lambda>k. case env k of Some v \<Rightarrow> Some v | None \<Rightarrow> map_of kvs k)"

lemma extend_simps [simp]:
  "extend [] env = env"
  "extend (kv # kvs) env = extend kvs (bind_new kv env)"
  "extend (kvs @ kvs') env = extend kvs' (extend kvs env)"
  by (auto simp: extend_def bind_new_def fun_eq_iff map_add_def split: option.splits)

lemma scan_lines_extend:
  "scan_lines path n lines env = (None, env') \<Longrightarrow> env' = extend (line_bindings lines) env"
proof (induction lines arbitrary: n env)
  case (Cons line lines)
  then obtain env1 where 1: "parseLine line env = Inr env1" "scan_lines path (Suc n) lines env1 = (None, env')"
    by (auto split: sum.splits)
  from Cons.IH [OF this(2)] parseLine_binding [OF this(1)] show ?case
    by (auto split: option.splits)
qed simp

subsection \<open>Files\<close>

definition file_bindings :: "EnvFile \<Rightarrow> (string \<times> string) list" where
  "file_bindings file = (case file of FileLines lines err \<Rightarrow> line_bindings lines | _ \<Rightarrow> [])"

definition path_bindings :: "(string \<Rightarrow> EnvFile) \<Rightarrow> string list \<Rightarrow> (string \<times> string) list" where
  "path_bindings files paths = concat (map (\<lambda>p. if p = [] then [] else file_bindings (files p)) paths)"

lemma loadFile_extend:
  "loadFile path file env = (r, env') \<Longrightarrow> (\<forall>err. r \<noteq> Some (Some err)) \<Longrightarrow> env' = extend (file_bindings file) env"
  by (auto simp: loadFile_def file_bindings_def dest: scan_lines_extend
      split: EnvFile.splits prod.splits option.splits)

lemma Load_extend: "Load files paths env = (None, env') \<Longrightarrow> env' = extend (path_bindings files paths) env"
proof (induction paths arbitrary: env)
  case (Cons path paths)
  show ?case
  proof (cases "path = []")
    case True
    with Cons show ?thesis by (simp add: path_bindings_def)
  next
    case False
    obtain r env1 where L: "loadFile path (files path) env = (r, env1)" by (metis prod.exhaust)
    with False Cons.prems have "Load files paths env1 = (None, env')" "\<forall>err. r \<noteq> Some (Some err)"
      by (auto split: option.splits)
    with Cons.IH loadFile_extend [OF L] False show ?thesis by (simp add: path_bindings_def)
  qed
qed (simp add: path_bindings_def)

text \<open>
  C40. When the files load, every key keeps the value the environment already had, and otherwise gets
  the first definition in the order of the files. The file named by the override variable comes
  last: it decides a key only where no default file defines it.
\<close>

theorem first_definition_wins:
  assumes "LoadWithOverride files overrideEnvKey defaults env = (None, env')"
  shows "env' k = (case env k of Some v \<Rightarrow> Some v
    | None \<Rightarrow> (case map_of (path_bindings files defaults) k of Some v \<Rightarrow> Some v
        | None \<Rightarrow> (case env overrideEnvKey of None \<Rightarrow> None
            | Some override \<Rightarrow> map_of (path_bindings files [override]) k)))"
proof -
  have app: "path_bindings files (defaults @ ps) = path_bindings files defaults @ path_bindings files ps" for ps
    by (simp add: path_bindings_def)
  have empty: "path_bindings files [[]] = []" by (simp add: path_bindings_def)
  show ?thesis
    using assms empty
    by (auto simp: LoadWithOverride_def Let_def extend_def app map_add_def dest!: Load_extend
        split: option.splits if_splits)
qed

definition ex_files :: "string \<Rightarrow> EnvFile" where
  "ex_files p =
     (if p = ''.env'' then FileLines [''# defaults'', ''export A=1'', ''B = two # words''] None
      else if p = ''my.env'' then FileLines [''A=9'', ''C=3''] None else FileMissing)"

theorem first_definition_wins_witness:
  "let r = LoadWithOverride ex_files ''F'' [''.env'', ''x/.env''] [''F'' \<mapsto> ''my.env''] in
     fst r = None \<and> snd r ''A'' = Some ''1'' \<and> snd r ''B'' = Some ''two'' \<and> snd r ''C'' = Some ''3''"
proof -
  let ?r = "LoadWithOverride ex_files ''F'' [''.env'', ''x/.env''] [''F'' \<mapsto> ''my.env'']"
  have "fst ?r = None" by code_simp
  then have R: "?r = (None, snd ?r)" by (simp add: prod_eq_iff)
  have "map_of (path_bindings ex_files [''.env'', ''x/.env'']) ''A'' = Some ''1''"
    "map_of (path_bindings ex_files [''.env'', ''x/.env'']) ''B'' = Some ''two''"
    "map_of (path_bindings ex_files [''.env'', ''x/.env'']) ''C'' = None"
    "map_of (path_bindings ex_files [''my.env'']) ''C'' = Some ''3''"
    by code_simp+
  with first_definition_wins [OF R, of "''A''"] first_definition_wins [OF R, of "''B''"]
    first_definition_wins [OF R, of "''C''"] \<open>fst ?r = None\<close>
  show ?thesis by (simp add: Let_def)
qed

subsection \<open>A quoted value\<close>

lemma TrimSpace_id: "s \<noteq> [] \<Longrightarrow> \<not> is_space (hd s) \<Longrightarrow> \<not> is_space (last s) \<Longrightarrow> TrimSpace s = s"
  by (simp add: TrimSpace_def dropWhile_eq_self_iff [THEN iffD2] hd_rev)

definition plain_key :: "string \<Rightarrow> bool" where
  "plain_key key \<longleftrightarrow>
     key \<noteq> [] \<and> hd key \<noteq> CHR ''#'' \<and> list_all (\<lambda>c. \<not> is_space c \<and> c \<noteq> CHR ''='' \<and> c \<noteq> CHR 0x00) key"

lemma Cut_append: "c \<notin> set a \<Longrightarrow> Cut c (a @ c # b) = Some (a, b)"
proof -
  assume "c \<notin> set a"
  then have "\<forall>x\<in>set a. x \<noteq> c" by auto
  then show ?thesis by (simp add: Cut_def takeWhile_append2 dropWhile_append2)
qed

lemma HasPrefix_append: "HasPrefix s p \<Longrightarrow> \<exists>r. s = p @ r"
  by (induction s p rule: HasPrefix.induct) auto

lemma plain_no_export:
  assumes "plain_key key"
  shows "\<not> HasPrefix (key @ CHR ''='' # rest) ''export ''"
proof
  assume "HasPrefix (key @ CHR ''='' # rest) ''export ''"
  then obtain r where r: "key @ CHR ''='' # rest = ''export'' @ CHR '' '' # r"
    by (fastforce dest: HasPrefix_append)
  have "(key @ CHR ''='' # rest) ! 6 = CHR '' ''" unfolding r by simp
  moreover have "\<forall>i<6. (key @ CHR ''='' # rest) ! i \<noteq> CHR ''=''"
    unfolding r by (simp add: numeral_eq_Suc All_less_Suc)
  then have "6 \<le> length key" by (metis linorder_not_less nth_append_length)
  moreover have "(key @ CHR ''='' # rest) ! 6 = CHR ''=''" if "length key = 6"
    using that by (metis nth_append_length)
  moreover have "\<not> is_space (key ! 6)" if "6 < length key"
    using that assms by (simp add: plain_key_def list_all_length)
  ultimately show False by (cases "length key = 6") (auto simp: nth_append is_space_def)
qed

lemma quoted_by_double: "quoted_by (CHR 0x22) (CHR 0x22 # v @ [CHR 0x22])"
  by (simp add: quoted_by_def)

lemma parseValue_quoted: "parseValue (CHR 0x22 # v @ [CHR 0x22]) = v"
proof -
  have "TrimSpace (CHR 0x22 # v @ [CHR 0x22]) = CHR 0x22 # v @ [CHR 0x22]"
    by (rule TrimSpace_id) (simp_all add: is_space_def)
  then show ?thesis by (simp add: parseValue_def quoted_by_double Let_def)
qed

text \<open>
  Any value survives a line of an environment file when it is put in double quotes: parsing
  \<open>KEY="value"\<close> sets exactly that value, spaces, hash signs and quotes in it included, unless the
  key is set already.
\<close>

theorem quoted_line_roundtrip:
  assumes "plain_key key" and "CHR 0x00 \<notin> set v"
  shows "parseLine (key @ CHR ''='' # CHR 0x22 # v @ [CHR 0x22]) env
    = Inr (if env key = None then env(key \<mapsto> v) else env)"
proof -
  let ?line = "key @ CHR ''='' # CHR 0x22 # v @ [CHR 0x22]"
  have key: "key \<noteq> []" "CHR ''='' \<notin> set key" "CHR 0x00 \<notin> set key" "hd key \<noteq> CHR ''#''"
    "\<not> is_space (hd key)" "\<not> is_space (last key)"
    using assms(1) by (auto simp: plain_key_def list_all_iff)
  have trim: "TrimSpace ?line = ?line"
    by (rule TrimSpace_id) (use key in \<open>simp_all add: hd_append is_space_def\<close>)
  have "\<not> HasPrefix ?line ''#''" using key by (cases key) auto
  moreover have "TrimSpace (TrimPrefix ?line ''export '') = ?line"
    using plain_no_export [OF assms(1)] trim by (simp add: TrimPrefix_def)
  moreover have "TrimSpace key = key" by (rule TrimSpace_id) (use key in auto)
  ultimately show ?thesis
    using key assms(2) trim
    by (simp add: parseLine_def Let_def Cut_append parseValue_quoted Setenv_def)
qed

theorem quoted_line_roundtrip_witness:
  "parseLine (''A='' @ CHR 0x22 # ''x # y'' @ [CHR 0x22]) Map.empty = Inr [''A'' \<mapsto> ''x # y'']"
  using quoted_line_roundtrip [of "''A''" "''x # y''" Map.empty] by (simp add: plain_key_def is_space_def)

subsection \<open>The worker's configuration\<close>

lemma Atoi_in64: "Atoi s = Some n \<Longrightarrow> in64 n"
  by (auto simp: Atoi_def Let_def split: if_splits)

lemma intFromEnv_bounds: "0 < fallback \<Longrightarrow> in64 fallback \<Longrightarrow>
   1 \<le> intFromEnv env key fallback \<and> in64 (intFromEnv env key fallback)"
  by (auto simp: intFromEnv_def dest: Atoi_in64 split: option.splits)

lemma int64FromEnv_bounds: "0 \<le> fallback \<Longrightarrow> in64 fallback \<Longrightarrow>
   0 \<le> int64FromEnv env key fallback \<and> in64 (int64FromEnv env key fallback)"
  by (auto simp: int64FromEnv_def dest: Atoi_in64 split: option.splits)

lemma stringFromEnv_nonempty: "fallback \<noteq> [] \<Longrightarrow> stringFromEnv env key fallback \<noteq> []"
  by (simp add: stringFromEnv_def)

lemma worker_slots_positive: "1 \<le> cf_TotalSlots (FromEnv env)" "in64 (cf_TotalSlots (FromEnv env))"
  using intFromEnv_bounds [of 4 env "''WORKER_TOTAL_SLOTS''"] by (simp_all add: FromEnv_def in64_def)

text \<open>
  Whatever the environment holds, the worker's settings are usable: at least one slot, thresholds
  of at least one and disk sizes of at least zero, all within 64 bits, no empty address, directory or
  binary path; so making the engine pool from them never fails.
\<close>

theorem worker_config_sound:
  "1 \<le> cf_TotalSlots (FromEnv env) \<and> in64 (cf_TotalSlots (FromEnv env))
   \<and> 1 \<le> cf_CannyLowThreshold (FromEnv env) \<and> 1 \<le> cf_CannyHighThreshold (FromEnv env)
   \<and> 0 \<le> cf_DiskTotalBytes (FromEnv env) \<and> in64 (cf_DiskTotalBytes (FromEnv env))
   \<and> 0 \<le> cf_DiskFreeBytes (FromEnv env) \<and> in64 (cf_DiskFreeBytes (FromEnv env))
   \<and> cf_AdvertisedAddress (FromEnv env) \<noteq> [] \<and> cf_DataDir (FromEnv env) \<noteq> []
   \<and> (\<exists>p. NewPool (cf_TotalSlots (FromEnv env)) (cf_EngineBinaryPath (FromEnv env)) = Inr p
        \<and> pl_cfgSlots p = cf_TotalSlots (FromEnv env))"
proof -
  note slots = worker_slots_positive [of env]
  have "1 \<le> cf_CannyLowThreshold (FromEnv env)" "1 \<le> cf_CannyHighThreshold (FromEnv env)"
    using intFromEnv_bounds [of 80 env] intFromEnv_bounds [of 160 env] by (simp_all add: FromEnv_def in64_def)
  moreover have "0 \<le> cf_DiskTotalBytes (FromEnv env)" "in64 (cf_DiskTotalBytes (FromEnv env))"
    "0 \<le> cf_DiskFreeBytes (FromEnv env)" "in64 (cf_DiskFreeBytes (FromEnv env))"
    using int64FromEnv_bounds [of 1000000000 env "''WORKER_DISK_TOTAL_BYTES''"]
      int64FromEnv_bounds [of 800000000 env "''WORKER_DISK_FREE_BYTES''"]
    by (simp_all add: FromEnv_def in64_def)
  moreover have "cf_AdvertisedAddress (FromEnv env) \<noteq> []" "cf_DataDir (FromEnv env) \<noteq> []"
    "cf_EngineBinaryPath (FromEnv env) \<noteq> []"
    by (simp_all add: FromEnv_def stringFromEnv_nonempty)
  ultimately show ?thesis using slots by (simp add: NewPool_def)
qed

text \<open>
  A heartbeat timeout of 9223372037 seconds or a little more wraps to a negative duration, and
  Entry then runs no expiry checker at all.
\<close>

lemma huge_timeout_disables_expiry:
  assumes "Getenv env ''WORKER_HEARTBEAT_TIMEOUT_SECONDS'' = ''9223372037''"
  shows "\<not> expiry_checker_runs (EntryFromEnv env)"
proof -
  have "Atoi ''9223372037'' = Some 9223372037"
    by (simp add: Atoi_def digits_value_def is_digit_def in64_def)
  then have "ec_Timeout (EntryFromEnv env) = mul64 9223372037 Second"
    using assms by (simp add: EntryFromEnv_def durationSecondsFromEnv_def)
  moreover have "mul64 9223372037 Second \<le> 0" by (simp add: mul64_def wrap64_def)
  ultimately show ?thesis by (simp add: expiry_checker_runs_def)
qed

end
