(* ===== verification/Worker_Agent_Spec.thy ===== *)
theory Worker_Agent_Spec
  imports Worker_Agent Env_Config_Spec Worker_State_Spec Pool_Spec
begin

text \<open>
  A worker that comes up against Entry's registration handler: what both sides then know of each
  other, with the configuration any environment gives.
\<close>

definition entry_register ::
  "SplitPolicy \<Rightarrow> int \<Rightarrow> draw list \<Rightarrow> RegisterWorkerRequest \<Rightarrow> WorkerRegistry
     \<Rightarrow> RegisterWorkerResponse HttpResult \<times> WorkerRegistry" where
  "entry_register policy now draws req r =
     (case Register policy (Some req) now draws r of
        None \<Rightarrow> (HttpErr ''timeout'', r)
      | Some (rep, r') \<Rightarrow> (over_http rep, r'))"

lemma Register_failed_reply:
  assumes "Register policy (Some req) now draws r = Some (rep, r')" and "read_register (over_http rep) = Inr resp"
  shows "\<exists>w existed. RegisterWorker req now draws r = Some (Inr (w, existed), r')
    \<and> rwp_WorkerID resp = w_ID w \<and> rwp_SplitPolicy resp = policy \<and> w_ID w \<noteq> []"
  using assms
  by (auto simp: Register_def ShouldBindJSON_def read_register_def postJSON_def over_http_def failed_registration_def
      split: if_splits option.splits sum.splits prod.splits ServiceError.splits)

lemma RegisterWorker_entry:
  assumes "wf_registry r" and "RegisterWorker req now draws r = Some (Inr (w, existed), r')"
  shows "w_Address w = rwr_Address req \<and> w_TotalSlots w = rwr_TotalSlots req \<and> w_SupportedTasks w = rwr_SupportedTasks req
    \<and> w_Online w"
proof (cases "wr_idByAddr r (rwr_Address req)")
  case None
  with assms(2) show ?thesis
    by (auto simp: RegisterWorker_def Let_def split: option.splits sum.splits)
next
  case (Some k)
  with wf_registry_addr [OF assms(1)] obtain u where u: "wr_byID r k = Some u" "w_Address u = rwr_Address req" by blast
  with Some assms(2) show ?thesis by (auto simp: RegisterWorker_def Let_def split: option.splits)
qed

lemma start_loop_length:
  "start_loop spawn stop n i c p = (None, p') \<Longrightarrow> pl_started p' \<and> length (pl_engines p') = length (pl_engines p) + n"
proof (induction n arbitrary: i p)
  case (Suc n)
  then have "start_loop spawn stop n (i + 1) c (add_engine i c p) = (None, p')" by (auto split: option.splits)
  from Suc.IH [OF this] show ?case by simp
qed auto

text \<open>
  C25. A worker whose start succeeds has joined: its pool runs one engine per configured slot, and Entry
  knows it under the identifier it was given, online, with its advertised address, its slots and
  both task types. Its first heartbeat, sent to Entry's handler, is accepted exactly when both disk
  figures are positive: then Entry has the worker online, heard of at that moment, with the free disk
  it reported, and the worker takes over Entry's backpressure; otherwise neither side changes.
\<close>

theorem agent_joins:
  assumes "NewAgent mkdir (FromEnv env) = Inr a" and "wf_registry r"
    and "agent_boot ctxErr spawn stop (entry_register policy now draws) usage (a, r) = (None, a', r')"
    and "disk = diskUsageLocked usage' (ag_state a')" and "in64 (fst disk)" and "in64 (snd disk)"
    and "heartbeat_send (entry_heartbeat now') usage' [] (ag_state a', r') = (s', r'')"
  shows "pl_started (ag_enginePool a') \<and> int (length (pl_engines (ag_enginePool a'))) = cf_TotalSlots (FromEnv env)
    \<and> ws_splitPolicy (ag_state a') = policy
    \<and> (\<exists>w. wr_byID r' (ws_workerID (ag_state a')) = Some w \<and> w_Online w
        \<and> w_Address w = cf_AdvertisedAddress (FromEnv env) \<and> w_TotalSlots w = cf_TotalSlots (FromEnv env)
        \<and> set (w_SupportedTasks w) = {TaskTypeProcessSegment, TaskTypeAssembleGIF})
    \<and> (if 0 < fst disk \<and> 0 < snd disk
       then s' = SetBackpressure (wr_backpressure r') (ag_state a')
         \<and> (\<exists>w. wr_byID r'' (ws_workerID (ag_state a')) = Some w \<and> w_Online w
              \<and> w_LastHeartbeatAt w = now' \<and> w_DiskFreeBytes w = snd disk)
       else (s', r'') = (ag_state a', r'))"
proof -
  let ?c = "FromEnv env"
  have slots: "1 \<le> cf_TotalSlots ?c" by (rule worker_slots_positive)
  obtain pool where N: "NewPool (cf_TotalSlots ?c) (cf_EngineBinaryPath ?c) = Inr pool"
    and a: "ag_cfg a = ?c" "ag_enginePool a = pool"
      "ag_state a = NewWorkerState (cf_TotalSlots ?c) (cf_DiskTotalBytes ?c) (cf_DiskFreeBytes ?c)"
    using assms(1) by (auto simp: NewAgent_def Let_def split: option.splits sum.splits)
  have pool: "pl_cfgSlots pool = cf_TotalSlots ?c" "\<not> pl_started pool"
    using N by (auto simp: NewPool_def split: if_splits)
  obtain perr p1 where P: "PoolStart ctxErr spawn stop pool = (perr, p1)" by (metis prod.exhaust)
  let ?req = "register_request (cf_AdvertisedAddress ?c) usage (ag_state a)"
  obtain reply r1 where E: "entry_register policy now draws ?req r = (reply, r1)" by (metis prod.exhaust)
  obtain rerr s1 where G: "registered reply (ag_state a) = (rerr, s1)" by (metis prod.exhaust)
  from assms(3) P E G a have ok: "perr = None" "rerr = None" "r' = r1"
    "a' = a\<lparr>ag_enginePool := p1, ag_state := s1\<rparr>"
    by (auto simp: agent_boot_def Let_def split: option.splits)
  have "\<exists>q. start_loop spawn stop (nat (pl_cfgSlots pool)) 0 (pl_next_chan pool) q = (None, p1) \<and> pl_engines q = []"
    using P ok(1) pool(2) by (auto simp: PoolStart_def split: option.splits)
  then have started: "pl_started p1" "int (length (pl_engines p1)) = cf_TotalSlots ?c"
    using start_loop_length pool(1) slots by fastforce+
  obtain resp where resp: "read_register reply = Inr resp"
    and s1: "s1 = SetRegistration (rwp_WorkerID resp) (rwp_SplitPolicy resp) (ag_state a)"
    using G ok(2) by (auto simp: registered_def split: sum.splits)
  obtain rep where R: "Register policy (Some ?req) now draws r = Some (rep, r')" "reply = over_http rep"
    using E resp ok(3) by (auto simp: entry_register_def read_register_def postJSON_def split: option.splits)
  from Register_failed_reply [OF R(1) resp [unfolded R(2)]] obtain w existed where
    W: "RegisterWorker ?req now draws r = Some (Inr (w, existed), r')" "rwp_WorkerID resp = w_ID w"
    "rwp_SplitPolicy resp = policy" "w_ID w \<noteq> []" by blast
  have stored: "wr_byID r' (w_ID w) = Some w" using RegisterWorker_stored(2) [OF assms(2) W(1)] .
  note entry = RegisterWorker_entry [OF assms(2) W(1)]
  let ?s = "ag_state a'"
  have ws: "ws_ok (cf_TotalSlots ?c) (cf_DiskTotalBytes ?c) (cf_DiskFreeBytes ?c) ?s"
    "enumerates (ws_runningTasks ?s) []" and id: "ws_workerID ?s = w_ID w"
    using ok(4) s1 a(3) W(2) by (simp_all add: ws_ok_def enumerates_def SetRegistration_def NewWorkerState_def)
  note beat = heartbeat_exchange [OF ws _ worker_slots_positive(2), of usage' now' r', folded assms(4), OF _ assms(5,6)]
  have valid: "heartbeat_valid usage' ?s r' \<longleftrightarrow> 0 < fst disk \<and> 0 < snd disk"
    using stored W(4) slots ws(1) id by (simp add: heartbeat_valid_def assms(4) ws_ok_def)
  have heard: "\<exists>u. wr_byID (snd (HeartbeatWorker (HeartbeatRequest usage' [] ?s) now' r')) (w_ID w) = Some u \<and> w_Online u
      \<and> w_LastHeartbeatAt u = now' \<and> w_DiskFreeBytes u = snd disk"
    using HeartbeatRequest_valid [OF ws, of usage'] HeartbeatRequest_fields [OF ws(2), of usage'] stored id
    by (simp add: HeartbeatWorker_def set_worker_def assms(4))
  show ?thesis
    using started ok(4) s1 W(2-4) stored entry a(3) beat valid heard id assms(7)
    by (auto simp: SetRegistration_def register_request_def NewWorkerState_def)
qed

definition ex_agent :: "AgentError + Agent" where
  "ex_agent = NewAgent (\<lambda>dir. None) (FromEnv Map.empty)"

definition ex_boot :: "Agent \<Rightarrow> AgentError option \<times> Agent \<times> WorkerRegistry" where
  "ex_boot a = agent_boot None (\<lambda>i. None) (\<lambda>e. None)
     (entry_register zero_SplitPolicy 3 [Some [7]]) None (a, NewWorkerRegistry)"

theorem agent_joins_witness:
  "\<exists>a a' r'. ex_agent = Inr a \<and> ex_boot a = (None, a', r')
     \<and> length (pl_engines (ag_enginePool a')) = 4
     \<and> fst (heartbeat_send (entry_heartbeat 9) None [] (ag_state a', r')) = SetBackpressure (wr_backpressure r') (ag_state a')"
proof -
  have "(case ex_agent of Inl e \<Rightarrow> False | Inr a \<Rightarrow>
      (case ex_boot a of (err, a', r') \<Rightarrow> err = None \<and> diskUsageLocked None (ag_state a') = (1000000000, 800000000)))"
    by code_simp
  then obtain a a' r' where A: "ex_agent = Inr a" "ex_boot a = (None, a', r')"
    "diskUsageLocked None (ag_state a') = (1000000000, 800000000)"
    by (auto split: sum.splits prod.splits)
  obtain s' r'' where H: "heartbeat_send (entry_heartbeat 9) None [] (ag_state a', r') = (s', r'')" by (metis prod.exhaust)
  have "cf_TotalSlots (FromEnv Map.empty) = 4" by code_simp
  with agent_joins [OF A(1) [unfolded ex_agent_def] registry.inv_init A(2) [unfolded ex_boot_def] A(3) [symmetric] _ _ H] A H
  show ?thesis by (auto simp: in64_def)
qed

text \<open>
  The slots the heartbeat logs add up to the slots of the pool.
\<close>

lemma count_slots_sum:
  "0 \<le> a \<Longrightarrow> 0 \<le> b \<Longrightarrow> a + b + int (length l) < 2 ^ 63 \<Longrightarrow>
   (case count_slots l (a, b) of (i, j) \<Rightarrow> i + j = a + b + int (length l))"
proof (induction l arbitrary: a b)
  case (Cons x l)
  have add: "add64 a 1 = a + 1" "add64 b 1 = b + 1"
    using Cons.prems by (auto intro!: add64_eq simp: in64_def)
  show ?case
    using Cons.IH [of "a + 1" b] Cons.IH [of a "b + 1"] Cons.prems add by (auto split: prod.splits)
qed simp

end
