(* ===== verification/Peer_Download.thy ===== *)
theory Peer_Download
  imports Go_Path
begin

text \<open>
  \<open>worker-node/go/internal/peerclient\<close>, the download of an artifact: the copy loop and the
  temporary file that is renamed once it is complete. The file system is a map from paths to
  contents. The body is the list of what each \<open>Read\<close> returns; a list that ends without an end of
  file or an error is a \<open>Read\<close> that never returns (the idle timer makes it an error, so a run has
  one). \<open>expired\<close> is the timer's flag when it is looked at.
\<close>

type_synonym content = "8 word list"

datatype ReadEnd = ReadMore | ReadEOF | ReadErr string

datatype CopyError = WriteErr string | ErrShortWrite | CopyReadErr string

text \<open>\<open>write n chunk\<close> is the outcome of the \<open>n\<close>-th write: how many bytes went out, and its error.
  The result is what was written and the error; \<open>None\<close> if the last \<open>Read\<close> does not return.\<close>

fun copyWithIdleTimeout ::
  "(nat \<Rightarrow> content \<Rightarrow> nat \<times> string option) \<Rightarrow> nat \<Rightarrow> (content \<times> ReadEnd) list \<Rightarrow> content
     \<Rightarrow> (content \<times> CopyError option) option"
where
  "copyWithIdleTimeout write n [] out = None"
| "copyWithIdleTimeout write n ((chunk, er) # rest) out =
     (let (nw, ew) = (if chunk = [] then (0, None) else write n chunk);
          out' = out @ take nw chunk
      in if chunk \<noteq> [] \<and> ew \<noteq> None then Some (out', Some (WriteErr (the ew)))
         else if chunk \<noteq> [] \<and> nw \<noteq> length chunk then Some (out', Some ErrShortWrite)
         else case er of
                ReadMore \<Rightarrow> copyWithIdleTimeout write (if chunk = [] then n else Suc n) rest out'
              | ReadEOF \<Rightarrow> Some (out', None)
              | ReadErr err \<Rightarrow> Some (out', Some (CopyReadErr err)))"

text \<open>What the operating system and the peer do in one download.\<close>

record DownloadEnv =
  de_request :: "string option"
  de_status :: "string + int"
  de_body :: "(content \<times> ReadEnd) list"
  de_mkdir :: "string option"
  de_create :: "string option"
  de_write :: "nat \<Rightarrow> content \<Rightarrow> nat \<times> string option"
  de_close :: "string option"
  de_remove :: "string option"
  de_rename :: "string option"
  de_expired :: "bool \<times> bool"

datatype DownloadError =
    DownloadIdleTimeout | DownloadStatus int | DownloadOther string | DownloadCopy CopyError

definition remove_file :: "string option \<Rightarrow> string \<Rightarrow> (string \<rightharpoonup> content) \<Rightarrow> (string \<rightharpoonup> content)" where
  "remove_file failed path fs = (case failed of Some err \<Rightarrow> fs | None \<Rightarrow> fs(path := None))"

text \<open>\<open>TrimRight(addr, "/")\<close> and the URL.\<close>

definition artifact_url :: "string \<Rightarrow> string \<Rightarrow> string" where
  "artifact_url workerAddress taskID =
     ''http://'' @ strip_slashes workerAddress @ ''/artifacts/'' @ taskID"

definition DownloadArtifact ::
  "DownloadEnv \<Rightarrow> string \<Rightarrow> (string \<rightharpoonup> content) \<Rightarrow> (DownloadError option \<times> (string \<rightharpoonup> content)) option" where
  "DownloadArtifact env outputPath fs =
     (case de_request env of
        Some err \<Rightarrow> Some (Some (DownloadOther err), fs)
      | None \<Rightarrow>
        (case de_status env of
           Inl err \<Rightarrow> Some (Some (if fst (de_expired env) then DownloadIdleTimeout else DownloadOther err), fs)
         | Inr code \<Rightarrow>
             if code < 200 \<or> 300 \<le> code then Some (Some (DownloadStatus code), fs)
             else case de_mkdir env of
               Some err \<Rightarrow> Some (Some (DownloadOther err), fs)
             | None \<Rightarrow>
               let tmpPath = outputPath @ ''.tmp''
               in (case de_create env of
                     Some err \<Rightarrow> Some (Some (DownloadOther err), fs)
                   | None \<Rightarrow>
                     (case copyWithIdleTimeout (de_write env) 0 (de_body env) [] of
                        None \<Rightarrow> None
                      | Some (out, copyErr) \<Rightarrow>
                          let fs = fs(tmpPath \<mapsto> out)
                          in (case copyErr of
                                Some err \<Rightarrow>
                                  Some (Some (if snd (de_expired env) then DownloadIdleTimeout else DownloadCopy err),
                                        remove_file (de_remove env) tmpPath fs)
                              | None \<Rightarrow>
                                (case de_close env of
                                   Some err \<Rightarrow>
                                     Some (Some (DownloadOther err), remove_file (de_remove env) tmpPath fs)
                                 | None \<Rightarrow>
                                   (case de_rename env of
                                      Some err \<Rightarrow> Some (Some (DownloadOther err), fs)
                                    | None \<Rightarrow>
                                        Some (None, fs(outputPath \<mapsto> out, tmpPath := None)))))))))"

subsection \<open>What was copied\<close>

text \<open>The bytes of a body up to its first end of file, if that comes before an error.\<close>

fun whole_body :: "(content \<times> ReadEnd) list \<Rightarrow> content option" where
  "whole_body [] = None"
| "whole_body ((chunk, er) # rest) =
     (case er of ReadMore \<Rightarrow> map_option (\<lambda>bs. chunk @ bs) (whole_body rest)
      | ReadEOF \<Rightarrow> Some chunk | ReadErr err \<Rightarrow> None)"

lemma copy_complete:
  "copyWithIdleTimeout write n body out = Some (out', None) \<Longrightarrow> \<exists>bs. whole_body body = Some bs \<and> out' = out @ bs"
proof (induction body arbitrary: n out)
  case (Cons c body)
  obtain chunk er where c: "c = (chunk, er)" by (metis prod.exhaust)
  obtain nw ew where w: "(if chunk = [] then (0, None) else write n chunk) = (nw, ew)" by (metis prod.exhaust)
  have full: "out @ take nw chunk = out @ chunk"
    and "case er of ReadMore \<Rightarrow> copyWithIdleTimeout write (if chunk = [] then n else Suc n) body (out @ chunk) = Some (out', None)
      | ReadEOF \<Rightarrow> out' = out @ chunk | ReadErr err \<Rightarrow> False"
    using Cons.prems c w by (auto simp: Let_def split: if_splits ReadEnd.splits)
  then show ?case
    using Cons.IH c by (cases er) fastforce+
qed simp

text \<open>
  C38. A download is all or nothing: if it returns without error the output file holds the peer's whole
  body, up to its end of file, and the temporary file is gone; if it returns an error the output
  file is what it was, present or not. No other file is touched.
\<close>

theorem download_atomic:
  assumes "DownloadArtifact env outputPath fs = Some (err, fs')"
  shows "(err = None \<longrightarrow> whole_body (de_body env) \<noteq> None \<and> fs' outputPath = whole_body (de_body env)
      \<and> fs' (outputPath @ ''.tmp'') = None)
    \<and> (err \<noteq> None \<longrightarrow> fs' outputPath = fs outputPath)
    \<and> (\<forall>p. p \<noteq> outputPath \<and> p \<noteq> outputPath @ ''.tmp'' \<longrightarrow> fs' p = fs p)"
proof -
  have ne: "outputPath @ ''.tmp'' \<noteq> outputPath" "outputPath \<noteq> outputPath @ ''.tmp''" by simp_all
  show ?thesis
  proof (cases err)
    case None
    with assms obtain out where copy: "copyWithIdleTimeout (de_write env) 0 (de_body env) [] = Some (out, None)"
      and fs': "fs' = fs(outputPath @ ''.tmp'' \<mapsto> out, outputPath \<mapsto> out, outputPath @ ''.tmp'' := None)"
      by (auto simp: DownloadArtifact_def Let_def split: option.splits sum.splits prod.splits if_splits)
    with copy_complete [OF copy] None ne show ?thesis by auto
  next
    case (Some e)
    with assms ne show ?thesis
      by (auto simp: DownloadArtifact_def Let_def remove_file_def
          split: option.splits sum.splits prod.splits if_splits)
  qed
qed

definition ex_download :: "ReadEnd \<Rightarrow> DownloadEnv" where
  "ex_download er =
     \<lparr>de_request = None, de_status = Inr 200, de_body = [([1, 2], ReadMore), ([3], er)], de_mkdir = None,
      de_create = None, de_write = (\<lambda>n c. (length c, None)), de_close = None, de_remove = None, de_rename = None,
      de_expired = (False, False)\<rparr>"

theorem download_atomic_witness:
  "\<exists>fs1 fs2. DownloadArtifact (ex_download ReadEOF) ''a'' [''a'' \<mapsto> [9]] = Some (None, fs1) \<and> fs1 ''a'' = Some [1, 2, 3]
     \<and> DownloadArtifact (ex_download (ReadErr ''reset'')) ''a'' [''a'' \<mapsto> [9]] = Some (Some (DownloadCopy (CopyReadErr ''reset'')), fs2)
     \<and> fs2 ''a'' = Some [9]"
proof -
  obtain fs1 where 1: "DownloadArtifact (ex_download ReadEOF) ''a'' [''a'' \<mapsto> [9]] = Some (None, fs1)"
    by (simp add: DownloadArtifact_def ex_download_def Let_def)
  obtain fs2 where 2: "DownloadArtifact (ex_download (ReadErr ''reset'')) ''a'' [''a'' \<mapsto> [9]]
      = Some (Some (DownloadCopy (CopyReadErr ''reset'')), fs2)"
    by (simp add: DownloadArtifact_def ex_download_def Let_def)
  show ?thesis
    using 1 2 download_atomic [OF 1] download_atomic [OF 2] by (auto simp: ex_download_def)
qed

end
