(* ===== verification/Http_Routes.thy ===== *)
theory Http_Routes
  imports Worker_Handlers
begin

text \<open>
  Who answers a call. The addresses the clients build (\<open>entryclient\<close>, \<open>peerclient\<close>, and Entry's
  calls in \<open>service/job_manager.go\<close>), the route tables of both servers
  (\<open>entry-server/internal/server/routes.go\<close>, \<open>worker-node/go/internal/handlers/handlers.go\<close>,
  \<open>worker-node/go/internal/server/server.go\<close>), and that they agree. The web framework's router is
  a parameter, \<open>route\<close>: a table, a method and a path give an entry and the values of the pattern's
  parameters. What it promises is \<open>routes_by_patterns\<close>.
\<close>

subsection \<open>Addresses\<close>

text \<open>\<open>http.NewRequest\<close> of an address without query, fragment and escapes: host and path. It is meant
  for hosts of the form host and port; those that \<open>net/url\<close> refuses (a blank, a user part, a port
  that is no number) are not told apart.\<close>

definition url_parts :: "string \<Rightarrow> (string \<times> string) option" where
  "url_parts url =
     (if take 7 url \<noteq> ''http://'' \<or> CHR ''?'' \<in> set url \<or> CHR ''#'' \<in> set url \<or> CHR ''%'' \<in> set url then None
      else Some (takeWhile (\<lambda>c. c \<noteq> slash) (drop 7 url), dropWhile (\<lambda>c. c \<noteq> slash) (drop 7 url)))"

datatype EntryCall =
    CallRegisterWorker | CallHeartbeatWorker | CallCreateJob | CallAcceptTask string | CallCompleteTask string
  | CallFailTask string | CallReportAssembled string

definition NewEntryClient :: "string \<Rightarrow> string" where
  "NewEntryClient baseURL = strip_slashes baseURL"

fun call_path :: "EntryCall \<Rightarrow> string" where
  "call_path CallRegisterWorker = ''/workers/register''"
| "call_path CallHeartbeatWorker = ''/workers/heartbeat''"
| "call_path CallCreateJob = ''/jobs''"
| "call_path (CallAcceptTask taskID) = ''/tasks/'' @ taskID @ ''/accepted''"
| "call_path (CallCompleteTask taskID) = ''/tasks/'' @ taskID @ ''/completed''"
| "call_path (CallFailTask taskID) = ''/tasks/'' @ taskID @ ''/failed''"
| "call_path (CallReportAssembled jobID) = ''/jobs/'' @ jobID @ ''/assembled''"

definition postJSON_url :: "string \<Rightarrow> EntryCall \<Rightarrow> string" where
  "postJSON_url baseURL call = baseURL @ call_path call"

definition upload_url :: "string \<Rightarrow> string \<Rightarrow> string" where
  "upload_url workerAddress taskID =
     ''http://'' @ strip_slashes workerAddress @ ''/segments/'' @ taskID @ ''/upload''"

definition artifact_url :: "string \<Rightarrow> string \<Rightarrow> string" where
  "artifact_url workerAddress taskID = ''http://'' @ strip_slashes workerAddress @ ''/artifacts/'' @ taskID"

definition assemble_url :: "string \<Rightarrow> string" where
  "assemble_url address = ''http://'' @ address @ ''/tasks/assemble_gif''"

definition notify_url :: "string \<Rightarrow> string" where
  "notify_url address = ''http://'' @ address @ ''/jobs/result''"

definition healthz_url :: "string \<Rightarrow> string" where
  "healthz_url address = ''http://'' @ address @ ''/healthz''"

subsection \<open>Route tables\<close>

datatype EntryEndpoint =
    EntryRegister | EntryHeartbeat | EntryCreate | EntryResult | EntryAssembled | EntryAccepted
  | EntryCompleted | EntryFailed

type_synonym 'h routes = "(string \<times> string \<times> 'h) list"

definition registerRoutes :: "EntryEndpoint routes" where
  "registerRoutes =
     [(''POST'', ''/workers/register'', EntryRegister),
      (''POST'', ''/workers/heartbeat'', EntryHeartbeat),
      (''POST'', ''/jobs'', EntryCreate),
      (''GET'', ''/jobs/result'', EntryResult),
      (''POST'', ''/jobs/:job_id/assembled'', EntryAssembled),
      (''POST'', ''/tasks/:task_id/accepted'', EntryAccepted),
      (''POST'', ''/tasks/:task_id/completed'', EntryCompleted),
      (''POST'', ''/tasks/:task_id/failed'', EntryFailed)]"

datatype WorkerEndpoint =
    WorkerHealthz | WorkerUpload | WorkerAssemble | WorkerArtifact | WorkerResult | WorkerNotification

definition RegisterRoutes :: "WorkerEndpoint routes" where
  "RegisterRoutes =
     [(''POST'', ''/segments/:task_id/upload'', WorkerUpload),
      (''POST'', ''/tasks/assemble_gif'', WorkerAssemble),
      (''GET'', ''/artifacts/:task_id'', WorkerArtifact),
      (''GET'', ''/results/:result_name'', WorkerResult),
      (''POST'', ''/jobs/result'', WorkerNotification)]"

definition NewRouter :: "WorkerEndpoint routes" where
  "NewRouter = (''GET'', ''/healthz'', WorkerHealthz) # RegisterRoutes"

subsection \<open>The router\<close>

text \<open>A segment of a pattern that begins with a colon stands for any non-empty segment.\<close>

fun match_segments :: "string list \<Rightarrow> string list \<Rightarrow> (string \<times> string) list option" where
  "match_segments [] [] = Some []"
| "match_segments (p # ps) (s # ss) =
     (if p \<noteq> [] \<and> hd p = CHR '':'' then
        (if s = [] then None else map_option ((#) (tl p, s)) (match_segments ps ss))
      else if p = s then match_segments ps ss else None)"
| "match_segments _ _ = None"

definition path_matches :: "string \<Rightarrow> string \<Rightarrow> (string \<times> string) list option" where
  "path_matches pattern path = match_segments (split_slash pattern) (split_slash path)"

type_synonym 'h router = "'h routes \<Rightarrow> string \<Rightarrow> string \<Rightarrow> ('h \<times> (string \<times> string) list) option"

text \<open>What the framework documents: a path that matches the pattern of exactly one entry of its
  method is served by that entry, with the pattern's parameters bound to the path's segments.\<close>

definition routes_by_patterns :: "'h router \<Rightarrow> bool" where
  "routes_by_patterns route \<longleftrightarrow>
     (\<forall>tab verb path pattern h params.
        (verb, pattern, h) \<in> set tab \<and> path_matches pattern path = Some params
        \<and> (\<forall>(verb', pattern', h')\<in>set tab.
             verb' = verb \<and> path_matches pattern' path \<noteq> None \<longrightarrow> pattern' = pattern \<and> h' = h)
        \<longrightarrow> route tab verb path = Some (h, params))"

lemma routedI:
  assumes "routes_by_patterns route" and "(verb, pattern, h) \<in> set tab"
    and "path_matches pattern path = Some params"
    and "\<forall>(verb', pattern', h')\<in>set tab.
      verb' = verb \<and> path_matches pattern' path \<noteq> None \<longrightarrow> pattern' = pattern \<and> h' = h"
  shows "route tab verb path = Some (h, params)"
  using assms unfolding routes_by_patterns_def by blast

text \<open>An identifier that survives in a path: what \<open>nextID\<close> and the source worker make are.\<close>

definition path_segment :: "string \<Rightarrow> bool" where
  "path_segment s \<longleftrightarrow> s \<noteq> [] \<and> (\<forall>c\<in>set s. c \<noteq> slash \<and> c \<noteq> CHR ''?'' \<and> c \<noteq> CHR ''#'' \<and> c \<noteq> CHR ''%'')"

fun call_ids :: "EntryCall \<Rightarrow> string list" where
  "call_ids (CallAcceptTask taskID) = [taskID]"
| "call_ids (CallCompleteTask taskID) = [taskID]"
| "call_ids (CallFailTask taskID) = [taskID]"
| "call_ids (CallReportAssembled jobID) = [jobID]"
| "call_ids _ = []"

text \<open>The handler a call is meant for, with its parameters.\<close>

fun call_endpoint :: "EntryCall \<Rightarrow> EntryEndpoint \<times> (string \<times> string) list" where
  "call_endpoint CallRegisterWorker = (EntryRegister, [])"
| "call_endpoint CallHeartbeatWorker = (EntryHeartbeat, [])"
| "call_endpoint CallCreateJob = (EntryCreate, [])"
| "call_endpoint (CallAcceptTask taskID) = (EntryAccepted, [(''task_id'', taskID)])"
| "call_endpoint (CallCompleteTask taskID) = (EntryCompleted, [(''task_id'', taskID)])"
| "call_endpoint (CallFailTask taskID) = (EntryFailed, [(''task_id'', taskID)])"
| "call_endpoint (CallReportAssembled jobID) = (EntryAssembled, [(''job_id'', jobID)])"

lemma split_segment: "slash \<notin> set x \<Longrightarrow> split_slash (x @ slash # b) = x # split_slash b"
  by (simp add: split_slash_append split_slash_plain)

lemma path_segment_no_slash: "path_segment s \<Longrightarrow> slash \<notin> set s" "path_segment s \<Longrightarrow> s \<noteq> []"
  by (auto simp: path_segment_def)

lemmas routing = registerRoutes_def NewRouter_def RegisterRoutes_def path_matches_def split_segment split_slash_plain
  path_segment_no_slash

lemma call_routed:
  assumes "routes_by_patterns route" and "list_all path_segment (call_ids call)"
  shows "route registerRoutes ''POST'' (call_path call) = Some (call_endpoint call)"
proof (cases call)
  case CallRegisterWorker
  with routedI [OF assms(1), of "''POST''" "''/workers/register''" EntryRegister registerRoutes] show ?thesis
    by (simp add: routing)
next
  case CallHeartbeatWorker
  with routedI [OF assms(1), of "''POST''" "''/workers/heartbeat''" EntryHeartbeat registerRoutes] show ?thesis
    by (simp add: routing)
next
  case CallCreateJob
  with routedI [OF assms(1), of "''POST''" "''/jobs''" EntryCreate registerRoutes] show ?thesis
    by (simp add: routing)
next
  case (CallAcceptTask x)
  with assms(2) routedI [OF assms(1), of "''POST''" "''/tasks/:task_id/accepted''" EntryAccepted registerRoutes]
  show ?thesis by (simp add: routing)
next
  case (CallCompleteTask x)
  with assms(2) routedI [OF assms(1), of "''POST''" "''/tasks/:task_id/completed''" EntryCompleted registerRoutes]
  show ?thesis by (simp add: routing)
next
  case (CallFailTask x)
  with assms(2) routedI [OF assms(1), of "''POST''" "''/tasks/:task_id/failed''" EntryFailed registerRoutes]
  show ?thesis by (simp add: routing)
next
  case (CallReportAssembled x)
  with assms(2) routedI [OF assms(1), of "''POST''" "''/jobs/:job_id/assembled''" EntryAssembled registerRoutes]
  show ?thesis by (simp add: routing)
qed

subsection \<open>Calls reach their handlers\<close>

text \<open>A host and port as they stand in an address.\<close>

definition plain_host :: "string \<Rightarrow> bool" where
  "plain_host h \<longleftrightarrow> path_segment h"

lemma strip_slashes_host: "plain_host h \<Longrightarrow> strip_slashes (x @ h @ replicate n slash) = x @ h"
proof -
  assume "plain_host h"
  then obtain b c where h: "h = b @ [c]" "c \<noteq> slash"
    by (cases h rule: rev_cases) (auto simp: plain_host_def path_segment_def)
  then show ?thesis by (simp add: strip_slashes_def dropWhile_append)
qed

lemma strip_slashes_plain: "plain_host h \<Longrightarrow> strip_slashes h = h"
  using strip_slashes_host [of h "[]" 0] by simp

definition plain_path :: "string \<Rightarrow> bool" where
  "plain_path p \<longleftrightarrow> p \<noteq> [] \<and> hd p = slash \<and> CHR ''?'' \<notin> set p \<and> CHR ''#'' \<notin> set p \<and> CHR ''%'' \<notin> set p"

lemma url_parts_plain:
  assumes "plain_host h" and "plain_path p"
  shows "url_parts (''http://'' @ h @ p) = Some (h, p)"
proof -
  obtain q where p: "p = slash # q" using assms(2) by (cases p) (auto simp: plain_path_def)
  have "takeWhile (\<lambda>c. c \<noteq> slash) (h @ p) = h" and "dropWhile (\<lambda>c. c \<noteq> slash) (h @ p) = p"
    using assms(1) by (auto simp: p plain_host_def path_segment_def takeWhile_append2 dropWhile_append2)
  moreover have "CHR ''?'' \<notin> set (''http://'' @ h @ p)" "CHR ''#'' \<notin> set (''http://'' @ h @ p)"
    "CHR ''%'' \<notin> set (''http://'' @ h @ p)"
    using assms by (auto simp: plain_host_def path_segment_def plain_path_def)
  ultimately show ?thesis unfolding url_parts_def by simp
qed

lemma plain_call_path: "list_all path_segment (call_ids call) \<Longrightarrow> plain_path (call_path call)"
  by (cases call) (auto simp: plain_path_def path_segment_def)

text \<open>
  C21. Every call of a worker to Entry arrives at the handler it is meant for, with the identifier it
  names: the address that \<open>entryclient\<close> builds from a base URL (with or without trailing
  slashes) is answered by the entry of Entry's route table for this call. So does every call to a
  worker: uploads and downloads by its peers, the assembly request and the notification by Entry,
  the probe by the worker itself. The identifiers are those that stand in a path as they are.
\<close>

theorem calls_reach_handlers:
  assumes "routes_by_patterns eroute" and "routes_by_patterns wroute" and "plain_host h"
    and "list_all path_segment (call_ids call)" and "path_segment x"
  shows "(\<exists>path. url_parts (postJSON_url (NewEntryClient (''http://'' @ h @ replicate n slash)) call) = Some (h, path)
      \<and> eroute registerRoutes ''POST'' path = Some (call_endpoint call))
    \<and> (\<exists>path. url_parts (upload_url h x) = Some (h, path)
      \<and> wroute NewRouter ''POST'' path = Some (WorkerUpload, [(''task_id'', x)]))
    \<and> (\<exists>path. url_parts (artifact_url h x) = Some (h, path)
      \<and> wroute NewRouter ''GET'' path = Some (WorkerArtifact, [(''task_id'', x)]))
    \<and> (\<exists>path. url_parts (assemble_url h) = Some (h, path)
      \<and> wroute NewRouter ''POST'' path = Some (WorkerAssemble, []))
    \<and> (\<exists>path. url_parts (notify_url h) = Some (h, path)
      \<and> wroute NewRouter ''POST'' path = Some (WorkerNotification, []))
    \<and> (\<exists>path. url_parts (healthz_url h) = Some (h, path)
      \<and> wroute NewRouter ''GET'' path = Some (WorkerHealthz, []))"
proof -
  note U = url_parts_plain [OF assms(3)]
  have plain: "plain_path (''/segments/'' @ x @ ''/upload'')" "plain_path (''/artifacts/'' @ x)"
    "plain_path ''/tasks/assemble_gif''" "plain_path ''/jobs/result''" "plain_path ''/healthz''"
    using assms(5) by (auto simp: plain_path_def path_segment_def)
  have x: "slash \<notin> set x" "x \<noteq> []" using path_segment_no_slash [OF assms(5)] by simp_all
  have "url_parts (postJSON_url (NewEntryClient (''http://'' @ h @ replicate n slash)) call) = Some (h, call_path call)"
    using U [OF plain_call_path [OF assms(4)]] strip_slashes_host [OF assms(3), of "''http://''" n]
    by (simp add: postJSON_url_def NewEntryClient_def)
  moreover note call_routed [OF assms(1,4)]
  moreover have "wroute NewRouter ''POST'' (''/segments/'' @ x @ ''/upload'') = Some (WorkerUpload, [(''task_id'', x)])"
    using routedI [OF assms(2), of "''POST''" "''/segments/:task_id/upload''" WorkerUpload NewRouter] x
    by (simp add: routing)
  moreover have "wroute NewRouter ''GET'' (''/artifacts/'' @ x) = Some (WorkerArtifact, [(''task_id'', x)])"
    using routedI [OF assms(2), of "''GET''" "''/artifacts/:task_id''" WorkerArtifact NewRouter] x
    by (simp add: routing)
  moreover have "wroute NewRouter ''POST'' ''/tasks/assemble_gif'' = Some (WorkerAssemble, [])"
    using routedI [OF assms(2), of "''POST''" "''/tasks/assemble_gif''" WorkerAssemble NewRouter]
    by (simp add: routing)
  moreover have "wroute NewRouter ''POST'' ''/jobs/result'' = Some (WorkerNotification, [])"
    using routedI [OF assms(2), of "''POST''" "''/jobs/result''" WorkerNotification NewRouter]
    by (simp add: routing)
  moreover have "wroute NewRouter ''GET'' ''/healthz'' = Some (WorkerHealthz, [])"
    using routedI [OF assms(2), of "''GET''" "''/healthz''" WorkerHealthz NewRouter]
    by (simp add: routing)
  ultimately show ?thesis
    using U [OF plain(1)] U [OF plain(2)] U [OF plain(3)] U [OF plain(4)] U [OF plain(5)]
    unfolding upload_url_def artifact_url_def assemble_url_def notify_url_def healthz_url_def
      strip_slashes_plain [OF assms(3)] by blast
qed

text \<open>A router that keeps the promise: the first entry that matches.\<close>

fun first_route :: "'h router" where
  "first_route [] verb path = None"
| "first_route ((verb', pattern, h) # rest) verb path =
     (case path_matches pattern path of
        None \<Rightarrow> first_route rest verb path
      | Some params \<Rightarrow> if verb' = verb then Some (h, params) else first_route rest verb path)"

lemma first_route_ok: "routes_by_patterns first_route"
proof -
  have "first_route tab verb path = Some (h, params)"
    if "(verb, pattern, h) \<in> set tab" "path_matches pattern path = Some params"
      "\<forall>(verb', pattern', h')\<in>set tab.
        verb' = verb \<and> path_matches pattern' path \<noteq> None \<longrightarrow> pattern' = pattern \<and> h' = h"
    for tab :: "'a routes" and verb path pattern h params
    using that
  proof (induction tab)
    case (Cons e rest)
    obtain verb' pattern' h' where e: "e = (verb', pattern', h')" by (cases e)
    show ?case
    proof (cases "verb' = verb \<and> path_matches pattern' path \<noteq> None")
      case True
      then have "pattern' = pattern \<and> h' = h" using Cons.prems(3) e by auto
      with True Cons.prems(2) e show ?thesis by simp
    next
      case False
      with Cons.prems(1,2) e have "(verb, pattern, h) \<in> set rest" by auto
      with False Cons e show ?thesis by (auto split: option.split)
    qed
  qed simp
  then show ?thesis unfolding routes_by_patterns_def by blast
qed

theorem calls_reach_handlers_witness:
  "\<exists>path. url_parts (postJSON_url (NewEntryClient ''http://h:1//'') (CallAcceptTask ''task_03'')) = Some (''h:1'', path)
     \<and> first_route registerRoutes ''POST'' path = Some (EntryAccepted, [(''task_id'', ''task_03'')])"
  using calls_reach_handlers [OF first_route_ok first_route_ok, of "''h:1''" "CallAcceptTask ''task_03''" "''x''" 2]
  by (simp add: plain_host_def path_segment_def numeral_2_eq_2)

end
