(* ===== verification/Entry_Identity.thy ===== *)
theory Entry_Identity
  imports Entry_Properties Job_Create_Spec
begin

text \<open>
  What identifies a job. The key under which a job is indexed is the one \<open>jobIdentityKey\<close> makes of
  its source address and its video name, in every reachable state (\<open>named\<close>): the job is stored with
  all three, and no lock region changes them later. So the two names identify the job.
\<close>

subsection \<open>The names of a job\<close>

definition ident :: "Job \<Rightarrow> string \<times> string \<times> string" where
  "ident j = (j_IdentityKey j, j_SourceWorkerAddress j, j_VideoName j)"

definition names :: "JobManager \<Rightarrow> string \<rightharpoonup> string \<times> string \<times> string" where
  "names m = map_option ident \<circ> jm_jobs m"

definition named :: "JobManager \<Rightarrow> bool" where
  "named m \<longleftrightarrow> (\<forall>i n. names m i = Some n \<longrightarrow> fst n = jobIdentityKey (fst (snd n)) (snd (snd n)))"

lemma named_job:
  assumes "named m" and "jm_jobs m i = Some j"
  shows "j_IdentityKey j = jobIdentityKey (j_SourceWorkerAddress j) (j_VideoName j)"
proof -
  have "names m i = Some (ident j)" using assms(2) by (simp add: names_def)
  with assms(1) have "fst (ident j) = jobIdentityKey (fst (snd (ident j))) (snd (snd (ident j)))"
    unfolding named_def by blast
  then show ?thesis by (simp add: ident_def)
qed

lemma names_set_task [simp]: "names (set_task k t m) = names m"
  by (simp add: names_def set_task_def)

lemma names_set_job:
  "jm_jobs m k = Some j \<Longrightarrow> ident j' = ident j \<Longrightarrow> names (set_job k j' m) = names m"
  by (auto simp: names_def set_job_def fun_eq_iff)

lemma jobs_set_task: "jm_jobs (set_task k t m) = jm_jobs m"
  by (simp add: set_task_def)

subsection \<open>The lock regions that keep them\<close>

lemmas name_writes = names_set_job ident_def jobs_set_task

lemma accept_names: "AcceptSegmentTask k req now m = (res, m') \<Longrightarrow> names m' = names m"
  by (auto simp: AcceptSegmentTask_def name_writes dest!: segmentTaskAndJobLocked_Inr(4) split: sum.splits if_splits)

lemma complete_segment_names: "complete_segment_locked k req now m = (res, m') \<Longrightarrow> names m' = names m"
  by (auto simp: complete_segment_locked_def Let_def name_writes dest!: segmentTaskAndJobLocked_Inr(4)
      split: sum.splits if_splits)

lemma fail_segment_names: "fail_segment_locked k req now m = (res, m') \<Longrightarrow> names m' = names m"
  by (auto simp: fail_segment_locked_def name_writes dest!: segmentTaskAndJobLocked_Inr(4) split: sum.splits if_splits)

lemma assemble_commit_names: "assemble_commit jobID t now m = (ok, m') \<Longrightarrow> names m' = names m"
  by (auto simp: assemble_commit_def name_writes split: option.splits if_splits)

lemma assemble_started_names: "names (assemble_started jobID k now m) = names m"
  by (auto simp: assemble_started_def Let_def name_writes split: option.splits)

lemma assemble_start_failed_names: "names (assemble_start_failed_locked jobID k reason retryable now m) = names m"
  by (auto simp: assemble_start_failed_locked_def Let_def name_writes split: option.splits)

lemma markJobFailed_names: "names (markJobFailed jobID now m) = names m"
  by (auto simp: markJobFailed_def name_writes split: option.splits)

lemma complete_assemble_names: "complete_assemble_locked jobID req w now m = (res, m') \<Longrightarrow> names m' = names m"
  by (auto simp: complete_assemble_locked_def Let_def name_writes split: option.splits sum.splits)

lemma fail_assemble_names: "fail_assemble_locked jobID req now m = (res, m') \<Longrightarrow> names m' = names m"
  by (auto simp: fail_assemble_locked_def Let_def name_writes split: option.splits sum.splits)

lemmas same_names = accept_names complete_segment_names fail_segment_names assemble_commit_names
  assemble_started_names assemble_start_failed_names markJobFailed_names complete_assemble_names fail_assemble_names

text \<open>The one that stores a job.\<close>

lemma commit_job_names:
  "commit_job key job ts m = (None, m') \<Longrightarrow> names m' = (names m)(j_ID job \<mapsto> ident job)"
  by (auto simp: commit_job_def names_def split: option.splits)

lemma job_of_request_ident:
  "ident (job_of_request req sw jobID now plan b)
     = (jobIdentityKey (w_Address sw) (cjr_VideoName req), w_Address sw, cjr_VideoName req)"
  by (simp add: ident_def job_of_request_def new_job_def)

theorem named_entry_step:
  assumes "entry_step W W'" and "named (wd_manager W)"
  shows "named (wd_manager W')"
  using assms
proof (induction rule: entry_step.cases)
  case (create_commit W1 req sw jobID now plan b A job m')
  from commit_job_names [OF create_commit(6)] create_commit(4,7)
  have "named m'" by (simp add: named_def create_commit(1) job_of_request_ident)
  with create_commit show ?case by simp
next
  case (create_exists W1 req sw jobID now plan b A job existing m')
  with commit_job_Some [OF create_exists(5)] show ?case by simp
qed (simp_all add: named_def same_names)

interpretation identity: transition_system NewWorld bounded_step "\<lambda>W. world_ok W \<and> named (wd_manager W)"
proof unfold_locales
  show "world_ok NewWorld \<and> named (wd_manager NewWorld)"
    using world_ok_new by (simp add: named_def names_def NewWorld_def NewJobManager_def)
  show "world_ok t \<and> named (wd_manager t)" if "world_ok s \<and> named (wd_manager s)" "bounded_step s t" for s t
    using that bounded_step_ok [OF that(2)] named_entry_step [of s t] by (simp add: bounded_step_def)
qed

subsection \<open>One job per address and video\<close>

text \<open>
  C9. In every reachable state a source address and a video name identify at most one job, and a query
  by them finds it: the lookup that job creation and the result query make, under the key of a stored
  job's address and video name, returns that job; every stored job with these two names is the
  same job; and, as long as addresses hold no NUL character, a lookup under any address and
  video name returns only a job that has exactly these names.
\<close>

theorem one_job_per_identity:
  assumes "reachable_world W" and "jm_jobs (wd_manager W) i = Some j"
  shows "findJobByIdentity (jobIdentityKey (j_SourceWorkerAddress j) (j_VideoName j)) (wd_manager W) = Some j
    \<and> (\<forall>i' j'. jm_jobs (wd_manager W) i' = Some j' \<and> j_SourceWorkerAddress j' = j_SourceWorkerAddress j
          \<and> j_VideoName j' = j_VideoName j \<longrightarrow> i' = i \<and> j' = j)
    \<and> (\<forall>a v. CHR 0x00 \<notin> set a \<and> CHR 0x00 \<notin> set (j_SourceWorkerAddress j) \<longrightarrow>
          (findJobByIdentity (jobIdentityKey a v) (wd_manager W) = Some j
             \<longleftrightarrow> a = j_SourceWorkerAddress j \<and> v = j_VideoName j))"
proof -
  have W: "world_ok W" and N: "named (wd_manager W)"
    using identity.reachable_inv [OF assms(1) [unfolded reachable_world_def]] by blast+
  note D = wf_managerD [OF world_okD(2) [OF W]]
  let ?key = "\<lambda>j. jobIdentityKey (j_SourceWorkerAddress j) (j_VideoName j)"
  have idx: "jm_jobIDByIdentity (wd_manager W) (?key j') = Some i'" if "jm_jobs (wd_manager W) i' = Some j'" for i' j'
    using D(4) [OF that] named_job [OF N that] by simp
  have find: "findJobByIdentity (?key j) (wd_manager W) = Some j"
    using idx [OF assms(2)] assms(2) by (simp add: findJobByIdentity_def)
  moreover have "i' = i \<and> j' = j" if "jm_jobs (wd_manager W) i' = Some j'"
    "j_SourceWorkerAddress j' = j_SourceWorkerAddress j" "j_VideoName j' = j_VideoName j" for i' j'
    using idx [OF that(1)] idx [OF assms(2)] that assms(2) by simp
  moreover have "a = j_SourceWorkerAddress j \<and> v = j_VideoName j"
    if "CHR 0x00 \<notin> set a" "CHR 0x00 \<notin> set (j_SourceWorkerAddress j)"
      "findJobByIdentity (jobIdentityKey a v) (wd_manager W) = Some j" for a v
  proof -
    from that(3) obtain k where k: "jm_jobIDByIdentity (wd_manager W) (jobIdentityKey a v) = Some k"
      "jm_jobs (wd_manager W) k = Some j"
      by (auto simp: findJobByIdentity_def split: option.splits)
    from D(6) [OF k(1)] k(2) named_job [OF N k(2)] have "jobIdentityKey a v = ?key j" by simp
    with jobIdentityKey_injective [OF that(1,2), of v "j_VideoName j"] show ?thesis by simp
  qed
  ultimately show ?thesis by blast
qed

theorem one_job_per_identity_witness:
  "findJobByIdentity (jobIdentityKey ''h:1'' ''v'') (wd_manager run_created) = Some run_job
   \<and> findJobByIdentity (jobIdentityKey ''h:1'' ''u'') (wd_manager run_created) \<noteq> Some run_job"
proof -
  have f: "j_SourceWorkerAddress run_job = ''h:1''" "j_VideoName run_job = ''v''"
    by (simp_all add: run_job_def job_of_request_def new_job_def run_defs)
  from one_job_per_identity [OF run_reachable run_created_job] show ?thesis
    unfolding f by (simp add: spec [of _ "''h:1''"])
qed

end
