(* ===== verification/Entry_Stuck.thy ===== *)
theory Entry_Stuck
  imports Entry_Identity
begin

text \<open>
  How a job can stop short of its end. A segment that fails ends the job, but \<open>AcceptSegmentTask\<close> of
  another segment sets it running again without a look at its status. Once none of its tasks is in
  flight any more, no lock region of Entry touches such a job again: \<open>stuck_forever\<close>.
\<close>

definition awaited :: "JobManager \<Rightarrow> Job \<Rightarrow> bool" where
  "awaited m j \<longleftrightarrow> (\<exists>k\<in>set (j_TaskIDs j). \<exists>t. jm_tasks m k = Some t \<and> active t)"

definition broken :: "JobManager \<Rightarrow> Job \<Rightarrow> bool" where
  "broken m j \<longleftrightarrow> (\<exists>k\<in>set (j_TaskIDs j). \<exists>t. jm_tasks m k = Some t
     \<and> t_Type t = TaskTypeProcessSegment \<and> t_Status t = TaskStatusFailed)"

subsection \<open>Past the snapshot\<close>

text \<open>A request that starts an assembly has seen all segments completed. \<open>whole\<close> is what it knows, and it
  stays true.\<close>

definition whole :: "JobManager \<Rightarrow> string \<Rightarrow> bool" where
  "whole m i \<longleftrightarrow> i \<in> dom (names m)
     \<and> (\<forall>k t. jm_tasks m k = Some t \<and> t_JobID t = i \<and> t_Type t = TaskTypeProcessSegment \<longrightarrow>
          t_Status t = TaskStatusCompleted)"

fun past_snapshot :: "Activity \<Rightarrow> string option" where
  "past_snapshot (PickingAssembler jobID s) = Some jobID"
| "past_snapshot (CommittingAssembly jobID s w taskID) = Some jobID"
| "past_snapshot (PostingAssembly jobID taskID w d) = Some jobID"
| "past_snapshot (ReleasingDisk w d nxt) = nxt"
| "past_snapshot (MarkingFailed jobID) = Some jobID"
| "past_snapshot (CreatingJob req sw jobID now rest plan b) = None"
| "past_snapshot (ReleasingSlots ks nxt) = None"
| "past_snapshot (StartingAssembly jobID) = None"

definition cleared :: "JobManager \<Rightarrow> Activity multiset \<Rightarrow> bool" where
  "cleared m A \<longleftrightarrow> (\<forall>a\<in>#A. \<forall>i. past_snapshot a = Some i \<longrightarrow> whole m i)"

lemma whole_not_broken:
  assumes "wf_manager m" and "jm_jobs m i = Some j" and "broken m j"
  shows "\<not> whole m i"
proof
  assume w: "whole m i"
  from assms(3) obtain k t where t: "k \<in> set (j_TaskIDs j)" "jm_tasks m k = Some t"
    "t_Type t = TaskTypeProcessSegment" "t_Status t = TaskStatusFailed" by (auto simp: broken_def)
  with task_job_unique [OF assms(1,2) t(1)] have "t_JobID t = i" by simp
  with w t show False by (auto simp: whole_def)
qed

lemma snapshot_whole:
  assumes "wf_manager m" and "assemble_snapshot i m = Inr s"
  shows "whole m i"
proof -
  obtain j segs n b where j: "jm_jobs m i = Some j"
    and loop: "snapshot_loop (jm_tasks m) (j_TaskIDs j) ([], 0, True) = Some (segs, n, b)"
    using assms(2) by (auto simp: assemble_snapshot_def split: option.splits)
  have completed: "\<exists>t. ts k = Some t \<and> t_Status t = TaskStatusCompleted"
    if "snapshot_loop ts ids acc = Some res" "k \<in> set ids" for ts ids acc res k
    using that by (induction ts ids acc rule: snapshot_loop.induct) (auto split: option.splits if_splits)
  have "t_Status t = TaskStatusCompleted" if t: "jm_tasks m k = Some t" "t_JobID t = i" for k t
  proof -
    from wf_managerD(8) [OF assms(1) t(1)] t(2) j have "k \<in> set (j_TaskIDs j)" by auto
    from completed [OF loop this] t(1) show ?thesis by simp
  qed
  with j show ?thesis by (auto simp: whole_def names_def)
qed

text \<open>What a step does to the tasks of a job: none is added to a job that exists but its assembly.\<close>

definition tasks_from :: "JobManager \<Rightarrow> JobManager \<Rightarrow> bool" where
  "tasks_from m m' \<longleftrightarrow> dom (names m) \<subseteq> dom (names m')
     \<and> (\<forall>k t'. jm_tasks m' k = Some t' \<longrightarrow>
         (\<exists>t. jm_tasks m k = Some t \<and> t_JobID t' = t_JobID t \<and> t_Type t' = t_Type t)
         \<or> t_Type t' = TaskTypeAssembleGIF \<or> t_JobID t' \<notin> dom (names m))"

lemma tasks_from_refl [simp]: "tasks_from m m"
  by (auto simp: tasks_from_def)

lemma tasks_from_write: "task_write m k t t' m' \<Longrightarrow> names m' = names m \<Longrightarrow> tasks_from m m'"
  by (auto simp: tasks_from_def task_write_def)

lemma started_tasks_from: "tasks_from m (assemble_started jobID k now m)"
proof -
  have "\<exists>t. jm_tasks m i = Some t \<and> t_JobID u = t_JobID t \<and> t_Type u = t_Type t"
    if "jm_tasks (assemble_started jobID k now m) i = Some u" for i u
    using that by (cases "i = k")
      (auto simp: assemble_started_def Let_def set_job_def set_task_def split: option.splits if_splits)
  then show ?thesis unfolding tasks_from_def assemble_started_names by blast
qed

lemma start_failed_tasks_from: "tasks_from m (assemble_start_failed_locked jobID k reason retryable now m)"
proof -
  have "\<exists>t. jm_tasks m i = Some t \<and> t_JobID u = t_JobID t \<and> t_Type u = t_Type t"
    if "jm_tasks (assemble_start_failed_locked jobID k reason retryable now m) i = Some u" for i u
    using that by (cases "i = k")
      (auto simp: assemble_start_failed_locked_def Let_def set_job_def set_task_def split: option.splits if_splits)
  then show ?thesis unfolding tasks_from_def assemble_start_failed_names by blast
qed

lemma add_tasks_old_or_new: "add_tasks ts m k = Some t \<Longrightarrow> m k = Some t \<or> t \<in> set ts"
  by (induction ts m rule: add_tasks.induct) (auto split: if_splits)

lemma tasks_from_step:
  assumes "entry_step W W'" and W: "world_ok W"
  shows "tasks_from (wd_manager W) (wd_manager W')"
  using assms(1)
proof (induction rule: entry_step.cases)
  case (create_commit W1 req sw jobID now plan b A job m')
  have "activity_ok (dom (wr_byID (wd_registry W))) (wd_manager W) (CreatingJob req sw jobID now [] plan b)"
    by (rule world_okD(4) [OF W]) (use create_commit(1,3) in simp)
  then have b: "\<forall>t\<in>set (tb_tasks b). t_JobID t = j_ID job"
    by (simp add: create_commit(4) job_of_request_def new_job_def)
  note c = commit_job_None [OF create_commit(6)]
  have "jm_jobs (wd_manager W) (j_ID job) = None" using create_commit(1,5) by (simp add: fresh_batch_def)
  then have "j_ID job \<notin> dom (names (wd_manager W))" by (simp add: names_def domIff)
  with b have "tasks_from (wd_manager W) m'"
    using commit_job_names [OF create_commit(6)] create_commit(1) c
    by (auto simp: tasks_from_def dest: add_tasks_old_or_new)
  with create_commit show ?case by simp
next
  case (create_exists W1 req sw jobID now plan b A job existing m')
  with commit_job_Some [OF create_exists(5)] show ?case by simp
next
  case (accept k areq now W1 res m')
  then show ?case
    using AcceptSegmentTask_write [OF accept(3)] accept_names [OF accept(3)] by (auto intro: tasks_from_write)
next
  case (complete_segment creq k now W1 rep m')
  then show ?case
    using complete_segment_write [OF complete_segment(4)] complete_segment_names [OF complete_segment(4)]
    by (auto intro: tasks_from_write)
next
  case (fail_segment k freq now W1 rep m')
  then show ?case
    using fail_segment_write [OF fail_segment(3)] fail_segment_names [OF fail_segment(3)]
    by (auto intro: tasks_from_write)
next
  case (commit W1 jobID s w taskID A now m')
  have "tasks_from (wd_manager W) m'"
    using assemble_commit_tasks [OF commit(5)] assemble_commit_names [OF commit(5)] commit(1)
    by (auto simp: tasks_from_def new_assemble_task_def)
  with commit show ?case by simp
next
  case (commit_refused W1 jobID s w taskID A now m')
  then show ?case using assemble_commit_False [OF commit_refused(4)] by simp
next
  case (started W1 jobID taskID workerID d A reply now)
  then show ?case by (simp add: started_tasks_from)
next
  case (start_failed W1 jobID taskID workerID d A reply over reason now)
  then show ?case by (simp add: start_failed_tasks_from)
next
  case (mark_failed W1 jobID A now)
  have "jm_tasks (markJobFailed jobID now (wd_manager W)) = jm_tasks (wd_manager W)"
    by (simp add: markJobFailed_def set_job_def split: option.split)
  with mark_failed show ?case by (auto simp: tasks_from_def markJobFailed_names)
next
  case (assembled jreq W1 w jobID now rep m')
  then show ?case
    using complete_assemble_write [OF assembled(4)] complete_assemble_names [OF assembled(4)]
    by (auto intro: tasks_from_write)
next
  case (assembly_failed jobID jreq now W1 rep m')
  then show ?case
    using fail_assemble_write [OF assembly_failed(3)] fail_assemble_names [OF assembly_failed(3)]
    by (auto intro: tasks_from_write)
qed simp_all

lemma whole_step:
  assumes "entry_step W W'" and "world_ok W" and "whole (wd_manager W) i"
  shows "whole (wd_manager W') i"
proof -
  note T = tasks_from_step [OF assms(1,2)]
  have "t_Status t' = TaskStatusCompleted"
    if t': "jm_tasks (wd_manager W') k = Some t'" "t_JobID t' = i" "t_Type t' = TaskTypeProcessSegment" for k t'
  proof -
    have "i \<in> dom (names (wd_manager W))" using assms(3) by (simp add: whole_def)
    with T t' obtain t where t: "jm_tasks (wd_manager W) k = Some t" "t_JobID t = i" "t_Type t = TaskTypeProcessSegment"
      unfolding tasks_from_def by fastforce
    with assms(3) have st: "t_Status t = TaskStatusCompleted" by (simp add: whole_def)
    then have "\<not> active t" by (simp add: active_def)
    with ended_task_step [OF assms(1) t(1)] t'(1) st show ?thesis by simp
  qed
  moreover have "i \<in> dom (names (wd_manager W'))" using T assms(3) by (auto simp: tasks_from_def whole_def)
  ultimately show ?thesis unfolding whole_def by blast
qed

text \<open>The activities a step adds either were past the snapshot before, or have just taken it.\<close>

theorem cleared_entry_step:
  assumes step: "entry_step W W'" and W: "world_ok W" and cl: "cleared (wd_manager W) (wd_active W)"
  shows "cleared (wd_manager W') (wd_active W')"
proof -
  have keep: "whole (wd_manager W') i" if "a \<in># wd_active W" "past_snapshot a = Some i" for a i
    using cl that whole_step [OF step W] unfolding cleared_def by blast
  from step have "\<forall>a\<in>#wd_active W'. \<forall>i. past_snapshot a = Some i \<longrightarrow>
      (\<exists>b\<in>#wd_active W. past_snapshot b = Some i) \<or> whole (wd_manager W) i"
  proof (induction rule: entry_step.cases)
    case (snapshot W1 jobID A s)
    with snapshot_whole [OF world_okD(2) [OF W], of jobID s] show ?case by auto
  qed (auto simp: then_activity_def report_release_def split: option.splits)
  with keep whole_step [OF step W] show ?thesis unfolding cleared_def by blast
qed

interpretation clear: transition_system NewWorld bounded_step
  "\<lambda>W. world_ok W \<and> cleared (wd_manager W) (wd_active W)"
proof unfold_locales
  show "world_ok NewWorld \<and> cleared (wd_manager NewWorld) (wd_active NewWorld)"
    using world_ok_new by (simp add: cleared_def NewWorld_def)
  show "world_ok t \<and> cleared (wd_manager t) (wd_active t)"
    if "world_ok s \<and> cleared (wd_manager s) (wd_active s)" "bounded_step s t" for s t
    using that bounded_step_ok [OF that(2)] cleared_entry_step [of s t] by (simp add: bounded_step_def)
qed

subsection \<open>Stuck for ever\<close>

text \<open>Which jobs a lock region may write.\<close>

lemma segment_jobs:
  "AcceptSegmentTask k areq now m = (res, m') \<Longrightarrow> jm_jobs m' i \<noteq> jm_jobs m i \<Longrightarrow>
     \<exists>t. jm_tasks m k = Some t \<and> active t \<and> t_JobID t = i"
  "complete_segment_locked k creq now m = (rep, m') \<Longrightarrow> jm_jobs m' i \<noteq> jm_jobs m i \<Longrightarrow>
     \<exists>t. jm_tasks m k = Some t \<and> active t \<and> t_JobID t = i"
  "fail_segment_locked k freq now m = (rep, m') \<Longrightarrow> jm_jobs m' i \<noteq> jm_jobs m i \<Longrightarrow>
     \<exists>t. jm_tasks m k = Some t \<and> (t_Status t \<noteq> TaskStatusCompleted \<and> t_Status t \<noteq> TaskStatusFailed) \<and> t_JobID t = i"
  by (auto simp: AcceptSegmentTask_def complete_segment_locked_def fail_segment_locked_def Let_def active_def set_job_def
      set_task_def segmentTaskAndJobLocked_Inr(1) split: sum.splits if_splits)

lemma assembly_jobs:
  "assemble_commit jobID t now m = (True, m') \<Longrightarrow> jm_jobs m' i \<noteq> jm_jobs m i \<Longrightarrow>
     \<exists>j. jm_jobs m i = Some j \<and> j_Status j = JobStatusSegmentCompleted"
  "jm_jobs (assemble_started jobID k now m) i \<noteq> jm_jobs m i \<Longrightarrow>
     \<exists>j. jm_jobs m i = Some j \<and> j_Status j = JobStatusAssembleAssigned"
  "jm_jobs (assemble_start_failed_locked jobID k reason retryable now m) i \<noteq> jm_jobs m i \<Longrightarrow> i = jobID"
  "jm_jobs (markJobFailed jobID now m) i \<noteq> jm_jobs m i \<Longrightarrow> i = jobID"
  by (auto simp: assemble_commit_def assemble_started_def assemble_start_failed_locked_def markJobFailed_def Let_def
      set_job_def set_task_def split: option.splits if_splits)

lemma report_jobs:
  "complete_assemble_locked jobID req w now m = (rep, m') \<Longrightarrow> jm_jobs m' i \<noteq> jm_jobs m i \<Longrightarrow>
     \<exists>j. jm_jobs m i = Some j \<and> j_Status j \<notin> {JobStatusSegmentAssigned, JobStatusSegmentRunning}"
  "fail_assemble_locked jobID req now m = (rep, m') \<Longrightarrow> jm_jobs m' i \<noteq> jm_jobs m i \<Longrightarrow>
     \<exists>j. jm_jobs m i = Some j \<and> j_Status j \<notin> {JobStatusSegmentAssigned, JobStatusSegmentRunning}"
  by (auto simp: complete_assemble_locked_def fail_assemble_locked_def assembleCompletionTargetLocked_def Let_def
      set_job_def set_task_def split: option.splits sum.splits if_splits)

definition stuck :: "JobManager \<Rightarrow> string \<Rightarrow> Job \<Rightarrow> bool" where
  "stuck m i j \<longleftrightarrow> jm_jobs m i = Some j \<and> j_Status j \<in> {JobStatusSegmentAssigned, JobStatusSegmentRunning}
     \<and> broken m j \<and> \<not> awaited m j"

lemma stuck_untouched:
  assumes step: "entry_step W W'" and W: "world_ok W" and cl: "cleared (wd_manager W) (wd_active W)"
    and st: "stuck (wd_manager W) i j"
  shows "jm_jobs (wd_manager W') i = jm_jobs (wd_manager W) i"
proof -
  let ?m = "wd_manager W"
  from st have j: "jm_jobs ?m i = Some j" "j_Status j \<in> {JobStatusSegmentAssigned, JobStatusSegmentRunning}"
    and "broken ?m j" and na: "\<not> awaited ?m j" by (auto simp: stuck_def)
  have not_whole: "\<not> whole ?m i" by (rule whole_not_broken [OF world_okD(2) [OF W] j(1) \<open>broken ?m j\<close>])
  have ended: "\<not> active t" if t: "jm_tasks ?m k = Some t" "t_JobID t = i" for k t
  proof -
    have "k \<in> set (j_TaskIDs j)" using wf_managerD(8) [OF world_okD(2) [OF W] t(1)] t(2) j(1) by auto
    with na t(1) show ?thesis by (auto simp: awaited_def)
  qed
  have open_task: "active t" if "t_Status t \<noteq> TaskStatusCompleted \<and> t_Status t \<noteq> TaskStatusFailed" for t
    using that by (cases "t_Status t") (auto simp: active_def)
  have elsewhere: "jobID \<noteq> i" if "a \<in># wd_active W" "past_snapshot a = Some jobID" for a jobID
    using cl that not_whole unfolding cleared_def by blast
  from step show ?thesis
  proof (induction rule: entry_step.cases)
    case (create_commit W1 req sw jobID now plan b A job m')
    then have "j_ID job \<noteq> i" using j(1) by (auto simp: fresh_batch_def)
    moreover from create_commit(6) have "jm_jobs m' i = ((jm_jobs (wd_manager W1))(j_ID job \<mapsto> job)) i"
      by (auto simp: commit_job_def split: option.splits)
    ultimately show ?case using create_commit(1,2) by simp
  next
    case (create_exists W1 req sw jobID now plan b A job existing m')
    with commit_job_Some [OF create_exists(5)] show ?case by simp
  next
    case (accept k areq now W1 res m')
    with segment_jobs(1) [OF accept(3), of i] ended show ?case by auto
  next
    case (complete_segment creq k now W1 rep m')
    with segment_jobs(2) [OF complete_segment(4), of i] ended show ?case by auto
  next
    case (fail_segment k freq now W1 rep m')
    with segment_jobs(3) [OF fail_segment(3), of i] ended open_task show ?case by auto
  next
    case (commit W1 jobID s w taskID A now m')
    with assembly_jobs(1) [OF commit(5), of i] j show ?case by (cases "jm_jobs m' i = jm_jobs ?m i") auto
  next
    case (commit_refused W1 jobID s w taskID A now m')
    with assemble_commit_False [OF commit_refused(4)] show ?case by simp
  next
    case (started W1 jobID taskID workerID d A reply now)
    with assembly_jobs(2) [of jobID taskID now ?m i] j show ?case
      by (cases "jm_jobs (assemble_started jobID taskID now ?m) i = jm_jobs ?m i") auto
  next
    case (start_failed W1 jobID taskID workerID d A reply over reason now)
    with assembly_jobs(3) [of jobID taskID reason False now ?m i] elsewhere [of "PostingAssembly jobID taskID workerID d" jobID]
    show ?case by auto
  next
    case (mark_failed W1 jobID A now)
    with assembly_jobs(4) [of jobID now ?m i] elsewhere [of "MarkingFailed jobID" jobID] show ?case by auto
  next
    case (assembled jreq W1 w jobID now rep m')
    with report_jobs(1) [OF assembled(4), of i] j show ?case by (cases "jm_jobs m' i = jm_jobs ?m i") auto
  next
    case (assembly_failed jobID jreq now W1 rep m')
    with report_jobs(2) [OF assembly_failed(3), of i] j show ?case by (cases "jm_jobs m' i = jm_jobs ?m i") auto
  qed simp_all
qed

lemma stuck_step:
  assumes "entry_step W W'" and "world_ok W" and "cleared (wd_manager W) (wd_active W)" and "stuck (wd_manager W) i j"
  shows "stuck (wd_manager W') i j"
proof -
  from assms(4) have j: "jm_jobs (wd_manager W) i = Some j" "broken (wd_manager W) j" "\<not> awaited (wd_manager W) j"
    by (auto simp: stuck_def)
  have "jm_tasks (wd_manager W') k = jm_tasks (wd_manager W) k" if k: "k \<in> set (j_TaskIDs j)" for k
  proof -
    obtain t where t: "jm_tasks (wd_manager W) k = Some t"
      using task_job_unique [OF world_okD(2) [OF assms(2)] j(1) k] by blast
    with j(3) k have "\<not> active t" by (auto simp: awaited_def)
    from ended_task_step [OF assms(1) t this] t show ?thesis by simp
  qed
  with assms(4) stuck_untouched [OF assms] show ?thesis
    by (simp add: stuck_def broken_def awaited_def)
qed

theorem stuck_forever:
  assumes "reachable_world W" and "stuck (wd_manager W) i j" and "bounded_step\<^sup>*\<^sup>* W W'"
  shows "jm_jobs (wd_manager W') i = Some j"
proof -
  have "world_ok W \<and> cleared (wd_manager W) (wd_active W)"
    using clear.reachable_inv [OF assms(1) [unfolded reachable_world_def]] .
  from assms(3) this assms(2) have "stuck (wd_manager W') i j"
  proof (induction rule: rtranclp_induct)
    case (step U V)
    have "world_ok U \<and> cleared (wd_manager U) (wd_active U)" using clear.path_inv [OF step.hyps(1) step.prems(1)] .
    with stuck_step [of U V] step show ?case by (simp add: bounded_step_def)
  qed simp
  then show ?thesis by (simp add: stuck_def)
qed

text \<open>How it comes about: the first of two segments fails, the second is accepted and completed.\<close>

theorem reopened_job_stuck:
  assumes "jm_jobs m i = Some j" and "j_TaskIDs j = [k, l]" and "k \<noteq> l"
    and "jm_tasks m k = Some t" and "t_Type t = TaskTypeProcessSegment" and "t_JobID t = i"
    and "t_Status t = TaskStatusAssigned" and "tfr_WorkerID freq = t_AssignedWorkerID t"
    and "jm_tasks m l = Some u" and "t_Type u = TaskTypeProcessSegment" and "t_JobID u = i"
    and "t_Status u = TaskStatusAssigned" and "tar_WorkerID areq = t_AssignedWorkerID u"
    and "tcr_WorkerID creq = t_AssignedWorkerID u"
    and "fail_segment_locked k freq n1 m = (r1, m1)" and "AcceptSegmentTask l areq n2 m1 = (r2, m2)"
    and "complete_segment_locked l creq n3 m2 = (r3, m3)"
  shows "\<exists>j'. stuck m3 i j' \<and> j_Status j' = JobStatusSegmentRunning"
proof -
  let ?t = "t\<lparr>t_Status := TaskStatusFailed, t_FailureReason := tfr_Reason freq, t_Retryable := tfr_Retryable freq,
    t_FailedAt := Some n1, t_UpdatedAt := n1\<rparr>"
  from assms(15) have m1: "m1 = set_job i (j\<lparr>j_Status := JobStatusFailed, j_UpdatedAt := n1\<rparr>) (set_task k ?t m)"
    using assms(1,4-8) by (simp add: fail_segment_locked_def segmentTaskAndJobLocked_def)
  let ?j = "j\<lparr>j_Status := JobStatusSegmentRunning, j_UpdatedAt := n2\<rparr>"
  let ?u = "u\<lparr>t_Status := TaskStatusRunning, t_AcceptedAt := Some n2, t_UpdatedAt := n2\<rparr>"
  from assms(16) have m2: "m2 = set_job i ?j (set_task l ?u m1)"
    using assms(3,9-13) by (simp add: m1 AcceptSegmentTask_def segmentTaskAndJobLocked_def set_job_def set_task_def)
  let ?v = "?u\<lparr>t_Status := TaskStatusCompleted, t_Checksum := tcr_Checksum creq, t_FrameCount := tcr_FrameCount creq,
    t_DurationMS := tcr_DurationMS creq, t_OutputSizeBytes := tcr_OutputSizeBytes creq, t_CompletedAt := Some n3,
    t_UpdatedAt := n3\<rparr>"
  from assms(17) have m3: "jm_jobs m3 i = Some (?j\<lparr>j_UpdatedAt := n3\<rparr>)" "jm_tasks m3 l = Some ?v" "jm_tasks m3 k = Some ?t"
    using assms(2,3,9-11,14)
    by (auto simp: m2 m1 complete_segment_locked_def segmentTaskAndJobLocked_def set_job_def set_task_def Let_def
        allSegmentTasksCompletedLocked_def)
  have "stuck m3 i (?j\<lparr>j_UpdatedAt := n3\<rparr>)"
    using m3 assms(2,5) by (auto simp: stuck_def broken_def awaited_def active_def)
  then show ?thesis by (intro exI [of _ "?j\<lparr>j_UpdatedAt := n3\<rparr>"]) simp
qed

end
