(* ===== verification/Entry_Progress.thy ===== *)
theory Entry_Progress
  imports Entry_Stuck
begin

text \<open>
  What a job that has not ended waits for. \<open>tends\<close> says which request under way will move a job on that
  stands between two critical sections of the assembly's start; \<open>attended\<close> is the invariant that
  there is always one. With the job invariant it gives, for every state a job can be in, what the job
  is waiting for; the one case in which it waits for nothing is that of \<open>Entry_Stuck\<close>.
\<close>

subsection \<open>Requests that tend a job\<close>

fun tends :: "Activity \<Rightarrow> string \<Rightarrow> JobStatus \<Rightarrow> bool" where
  "tends (CreatingJob req sw jobID now rest plan b) i s \<longleftrightarrow> False"
| "tends (ReleasingSlots ks nxt) i s \<longleftrightarrow> nxt = Some i \<and> s = JobStatusSegmentCompleted"
| "tends (StartingAssembly jobID) i s \<longleftrightarrow> jobID = i \<and> s = JobStatusSegmentCompleted"
| "tends (PickingAssembler jobID snap) i s \<longleftrightarrow> jobID = i \<and> s = JobStatusSegmentCompleted"
| "tends (CommittingAssembly jobID snap w taskID) i s \<longleftrightarrow> jobID = i \<and> s = JobStatusSegmentCompleted"
| "tends (PostingAssembly jobID taskID w d) i s \<longleftrightarrow> jobID = i \<and> s = JobStatusAssembleAssigned"
| "tends (ReleasingDisk w d nxt) i s \<longleftrightarrow> nxt = Some i \<and> s = JobStatusSegmentCompleted"
| "tends (MarkingFailed jobID) i s \<longleftrightarrow> jobID = i \<and> s = JobStatusSegmentCompleted"

text \<open>A job in one of the two statuses that only Entry itself can leave.\<close>

definition in_transit :: "JobManager \<Rightarrow> string \<Rightarrow> JobStatus \<Rightarrow> bool" where
  "in_transit m i s \<longleftrightarrow>
     (s = JobStatusSegmentCompleted \<or> s = JobStatusAssembleAssigned)
     \<and> (\<exists>j. jm_jobs m i = Some j \<and> j_Status j = s)"

definition attended :: "JobManager \<Rightarrow> Activity multiset \<Rightarrow> bool" where
  "attended m A \<longleftrightarrow> (\<forall>i s. in_transit m i s \<longrightarrow> (\<exists>a\<in>#A. tends a i s))"

lemma attended_step:
  assumes "attended m (Old + A)"
    and "\<And>i s. in_transit m' i s \<Longrightarrow>
      (\<exists>a\<in>#N. tends a i s) \<or> in_transit m i s \<and> (\<forall>a\<in>#Old. \<not> tends a i s)"
  shows "attended m' (N + A)"
  using assms unfolding attended_def by (metis union_iff)

subsection \<open>Which writes put a job in transit\<close>

lemma in_transit_set_job:
  "in_transit (set_job k j m) i s \<longleftrightarrow>
     (if i = k then (s = JobStatusSegmentCompleted \<or> s = JobStatusAssembleAssigned) \<and> j_Status j = s
      else in_transit m i s)"
  by (auto simp: in_transit_def set_job_def)

lemma in_transit_set_task [simp]: "in_transit (set_task k t m) = in_transit m"
  by (simp add: fun_eq_iff in_transit_def set_task_def)

lemma in_transit_old: "jm_jobs m k = Some j \<Longrightarrow> in_transit m k s \<longleftrightarrow>
    (s = JobStatusSegmentCompleted \<or> s = JobStatusAssembleAssigned) \<and> j_Status j = s"
  by (simp add: in_transit_def)

lemma accept_transit:
  "AcceptSegmentTask k req now m = (res, m') \<Longrightarrow> in_transit m' i s \<Longrightarrow> in_transit m i s"
  by (auto simp: AcceptSegmentTask_def in_transit_set_job split: sum.splits if_splits)

lemma fail_segment_transit:
  "fail_segment_locked k req now m = (res, m') \<Longrightarrow> in_transit m' i s \<Longrightarrow> in_transit m i s"
  by (auto simp: fail_segment_locked_def in_transit_set_job split: sum.splits if_splits)

lemma complete_segment_transit:
  assumes "wf_manager m" and "complete_segment_locked k req now m = (Inr rep, m')" and "in_transit m' i s"
  shows "in_transit m i s \<or> sg_allCompleted rep \<and> sg_jobID rep = i \<and> s = JobStatusSegmentCompleted"
proof (cases "segmentTaskAndJobLocked k (tcr_WorkerID req) m")
  case (Inl e)
  with assms(2) show ?thesis by (simp add: complete_segment_locked_def)
next
  case (Inr tj)
  obtain t j where tj: "tj = (t, j)" by (cases tj)
  have j: "jm_jobs m (t_JobID t) = Some j" using segmentTaskAndJobLocked_Inr(4) Inr tj by simp
  have id: "j_ID j = t_JobID t" by (rule wf_managerD(3) [OF assms(1) j])
  let ?t = "t\<lparr>t_Status := TaskStatusCompleted, t_Checksum := tcr_Checksum req,
      t_FrameCount := tcr_FrameCount req, t_DurationMS := tcr_DurationMS req,
      t_OutputSizeBytes := tcr_OutputSizeBytes req, t_CompletedAt := Some now, t_UpdatedAt := now\<rparr>"
  from Inr tj assms(2) have
    m': "m' = set_job (t_JobID t) (if sg_allCompleted rep
        then j\<lparr>j_UpdatedAt := now, j_Status := JobStatusSegmentCompleted\<rparr> else j\<lparr>j_UpdatedAt := now\<rparr>)
        (set_task k ?t m)"
      and rep: "sg_jobID rep = j_ID j"
    unfolding complete_segment_locked_def Let_def by (auto split: if_split_asm)
  show ?thesis
  proof (cases "i = t_JobID t")
    case True
    with assms(3) id rep show ?thesis
      by (cases "sg_allCompleted rep") (simp_all add: m' in_transit_set_job in_transit_old [OF j])
  next
    case False
    with assms(3) show ?thesis by (simp add: m' in_transit_set_job)
  qed
qed

lemma commit_job_transit:
  "commit_job key job ts m = (None, m') \<Longrightarrow> j_Status job = JobStatusSegmentAssigned \<Longrightarrow>
   in_transit m' i s \<Longrightarrow> in_transit m i s"
  by (auto simp: commit_job_def in_transit_def split: option.splits if_splits)

lemma assemble_commit_transit:
  assumes "assemble_commit jobID t now m = (True, m')" and "in_transit m' i s"
  shows "in_transit m i s \<and> i \<noteq> jobID \<or> i = jobID \<and> s = JobStatusAssembleAssigned"
  using assms by (auto simp: assemble_commit_def in_transit_set_job split: option.splits if_splits)

lemma assemble_commit_refused:
  "assemble_commit jobID t now m = (False, m') \<Longrightarrow> \<not> in_transit m jobID JobStatusSegmentCompleted"
  by (auto simp: assemble_commit_def in_transit_def split: option.splits if_splits)

lemma assemble_started_transit:
  assumes "in_transit (assemble_started jobID k now m) i s"
  shows "in_transit m i s \<and> \<not> (i = jobID \<and> s = JobStatusAssembleAssigned)"
  using assms
  by (auto simp: assemble_started_def Let_def in_transit_set_job in_transit_def set_job_def set_task_def
      split: option.splits if_splits)

lemma assemble_start_failed_transit:
  assumes "in_transit (assemble_start_failed_locked jobID k reason retryable now m) i s"
  shows "in_transit m i s \<and> i \<noteq> jobID"
  using assms
  by (auto simp: assemble_start_failed_locked_def Let_def in_transit_def set_job_def set_task_def
      split: option.splits if_splits)

lemma markJobFailed_transit:
  "in_transit (markJobFailed jobID now m) i s \<Longrightarrow> in_transit m i s \<and> i \<noteq> jobID"
  by (auto simp: markJobFailed_def in_transit_def set_job_def split: option.splits if_splits)

lemma complete_assemble_transit:
  "complete_assemble_locked jobID req w now m = (Inr rep, m') \<Longrightarrow> in_transit m' i s \<Longrightarrow> in_transit m i s"
  by (auto simp: complete_assemble_locked_def Let_def in_transit_set_job split: option.splits sum.splits if_splits)

lemma fail_assemble_transit:
  "fail_assemble_locked jobID req now m = (Inr rep, m') \<Longrightarrow> in_transit m' i s \<Longrightarrow> in_transit m i s"
  by (auto simp: fail_assemble_locked_def Let_def in_transit_set_job split: option.splits sum.splits if_splits)

text \<open>The snapshot of a job whose segments are all done succeeds.\<close>

lemma snapshot_loop_done:
  assumes "\<forall>k\<in>set ids. \<exists>t. ts k = Some t \<and> t_Type t = TaskTypeProcessSegment \<and> t_Status t = TaskStatusCompleted"
  shows "snapshot_loop ts ids acc \<noteq> None"
  using assms by (induction ts ids acc rule: snapshot_loop.induct) auto

lemma snapshot_refused_transit:
  assumes wf: "wf_manager m" and "assemble_snapshot jobID m = Inl e"
  shows "\<not> in_transit m jobID JobStatusSegmentCompleted"
proof
  assume "in_transit m jobID JobStatusSegmentCompleted"
  then obtain j where j: "jm_jobs m jobID = Some j" "j_Status j = JobStatusSegmentCompleted"
    by (auto simp: in_transit_def)
  with wf_managerD(5) [OF wf j(1)] have "collecting (jm_tasks m) j"
    by (auto simp: job_ok_def dest: assembling_status)
  with j(2) have "seg_tasks (jm_tasks m) (j_ID j) (j_TaskIDs j)" "all_done (jm_tasks m) (j_TaskIDs j)"
    by (auto simp: collecting_def)
  then have "snapshot_loop (jm_tasks m) (j_TaskIDs j) ([], 0, True) \<noteq> None"
    by (intro snapshot_loop_done) (fastforce simp: seg_tasks_def all_done_def)
  with assms(2) j(1) show False by (auto simp: assemble_snapshot_def split: option.splits prod.splits)
qed

subsection \<open>The invariant\<close>

lemma attended_same:
  "attended m (Old + A) \<Longrightarrow> \<forall>a\<in>#Old. \<forall>i s. tends a i s \<longrightarrow> (\<exists>b\<in>#N. tends b i s) \<Longrightarrow> attended m (N + A)"
  unfolding attended_def by (metis union_iff)

lemma attended_more: "attended m A \<Longrightarrow> attended m (N + A)"
  unfolding attended_def by (metis union_iff)

lemma attended_shrink:
  "attended m A \<Longrightarrow> (\<And>i s. in_transit m' i s \<Longrightarrow> in_transit m i s) \<Longrightarrow> attended m' A"
  unfolding attended_def by blast

theorem attended_entry_step:
  assumes "entry_step W W'" and W: "world_ok W" and att: "attended (wd_manager W) (wd_active W)"
  shows "attended (wd_manager W') (wd_active W')"
  using assms(1)
proof (induction rule: entry_step.cases)
  case (create_begin req plan W1 sw d jobID now)
  with att attended_more [of "wd_manager W" "wd_active W" "{#CreatingJob req sw jobID now plan plan zero_TaskBatch#}"]
  show ?case by simp
next
  case (create_assign W1 req sw jobID now q rest plan b A ev w r' taskID)
  with att attended_same [of "wd_manager W" "{#CreatingJob req sw jobID now (q # rest) plan b#}" A
      "{#CreatingJob req sw jobID now rest plan (batch_add b taskID jobID q w now)#}"]
  show ?case by simp
next
  case (create_refused W1 req sw jobID now q rest plan b A ev r')
  with att attended_same [of "wd_manager W" "{#CreatingJob req sw jobID now (q # rest) plan b#}" A
      "{#ReleasingSlots (tb_reserved b) None#}"]
  show ?case by simp
next
  case (create_no_draw W1 req sw jobID now q rest plan b A ev w r' e)
  with att attended_same [of "wd_manager W" "{#CreatingJob req sw jobID now (q # rest) plan b#}" A
      "{#ReleasingSlots (tb_reserved b @ [w_ID w]) None#}"]
  show ?case by simp
next
  case (create_commit W1 req sw jobID now plan b A job m')
  have "j_Status job = JobStatusSegmentAssigned"
    by (simp add: create_commit(4) job_of_request_def new_job_def)
  with create_commit att
    attended_step [of "wd_manager W" "{#CreatingJob req sw jobID now [] plan b#}" A m' "{#}"]
    commit_job_transit [OF create_commit(6)]
  show ?case by simp
next
  case (create_exists W1 req sw jobID now plan b A job existing m')
  have "m' = wd_manager W" using commit_job_Some create_exists(1,5) by blast
  with create_exists att attended_same [of "wd_manager W" "{#CreatingJob req sw jobID now [] plan b#}" A
      "{#ReleasingSlots (tb_reserved b) None#}"]
  show ?case by simp
next
  case (accept k areq now W1 res m')
  with att attended_shrink [of "wd_manager W" "wd_active W" m'] accept_transit [OF accept(3)] show ?case by simp
next
  case (complete_segment creq k now W1 rep m')
  note tr = complete_segment_transit [OF world_okD(2) [OF W] complete_segment(4) [folded complete_segment(1)]]
  have "attended m' ({#ReleasingSlots [sg_workerID rep]
      (if sg_allCompleted rep then Some (sg_jobID rep) else None)#} + wd_active W)"
    by (rule attended_step [of "wd_manager W" "{#}"]) (use att tr in auto)
  with complete_segment show ?case by simp
next
  case (fail_segment k freq now W1 rep m')
  with att attended_shrink [of "wd_manager W" "wd_active W" m'] fail_segment_transit [OF fail_segment(3)]
    attended_more [of m' "wd_active W" "{#ReleasingSlots [sg_workerID rep] None#}"]
  show ?case by simp
next
  case (release_slots W1 ks nxt A now)
  with att attended_same [of "wd_manager W" "{#ReleasingSlots ks nxt#}" A
      "case nxt of None \<Rightarrow> {#} | Some jobID \<Rightarrow> {#StartingAssembly jobID#}"]
  show ?case by (cases nxt) (simp_all add: then_activity_def)
next
  case (snapshot W1 jobID A s)
  with att attended_same [of "wd_manager W" "{#StartingAssembly jobID#}" A "{#PickingAssembler jobID s#}"]
  show ?case by simp
next
  case (snapshot_refused W1 jobID A e)
  have "\<not> in_transit (wd_manager W) jobID JobStatusSegmentCompleted"
    using snapshot_refused_transit [OF world_okD(2) [OF W]] snapshot_refused(1,4) by blast
  with snapshot_refused att attended_step [of "wd_manager W" "{#StartingAssembly jobID#}" A "wd_manager W" "{#}"]
  show ?case by auto
next
  case (pick W1 jobID s A ev w r' taskID)
  with att attended_same [of "wd_manager W" "{#PickingAssembler jobID s#}" A "{#CommittingAssembly jobID s w taskID#}"]
  show ?case by simp
next
  case (pick_no_draw W1 jobID s A ev w r' e)
  with att attended_same [of "wd_manager W" "{#PickingAssembler jobID s#}" A
      "{#ReleasingDisk (w_ID w) (required_disk s) (Some jobID)#}"]
  show ?case by simp
next
  case (pick_none W1 jobID s A ord now r')
  with att attended_same [of "wd_manager W" "{#PickingAssembler jobID s#}" A "{#MarkingFailed jobID#}"]
  show ?case by simp
next
  case (commit W1 jobID s w taskID A now m')
  have "attended m' ({#PostingAssembly jobID taskID (w_ID w) (required_disk s)#} + A)"
    by (rule attended_step [of "wd_manager W" "{#CommittingAssembly jobID s w taskID#}"])
      (use att commit assemble_commit_transit [OF commit(5)] in auto)
  with commit show ?case by simp
next
  case (commit_refused W1 jobID s w taskID A now m')
  have "m' = wd_manager W" using assemble_commit_False commit_refused(1,4) by blast
  moreover have "\<not> in_transit (wd_manager W) jobID JobStatusSegmentCompleted"
    using assemble_commit_refused commit_refused(1,4) by blast
  moreover have "attended (wd_manager W) ({#CommittingAssembly jobID s w taskID#} + A)"
    using att commit_refused(1,3) by simp
  ultimately show ?case
    using commit_refused attended_step [of "wd_manager W" "{#CommittingAssembly jobID s w taskID#}" A m'
      "{#ReleasingDisk (w_ID w) (required_disk s) None#}"] by auto
next
  case (started W1 jobID taskID workerID d A reply now)
  have "attended (assemble_started jobID taskID now (wd_manager W)) ({#} + A)"
    by (rule attended_step [of "wd_manager W" "{#PostingAssembly jobID taskID workerID d#}"])
      (use att started in \<open>auto dest: assemble_started_transit\<close>)
  with started show ?case by simp
next
  case (start_failed W1 jobID taskID workerID d A reply over reason now)
  have "attended (assemble_start_failed_locked jobID taskID reason False now (wd_manager W))
      ({#ReleasingDisk workerID d None#} + A)"
    by (rule attended_step [of "wd_manager W" "{#PostingAssembly jobID taskID workerID d#}"])
      (use att start_failed in \<open>auto dest: assemble_start_failed_transit\<close>)
  with start_failed show ?case by simp
next
  case (release_disk W1 workerID d nxt A now)
  with att attended_same [of "wd_manager W" "{#ReleasingDisk workerID d nxt#}" A
      "case nxt of None \<Rightarrow> {#} | Some jobID \<Rightarrow> {#MarkingFailed jobID#}"]
  show ?case by (cases nxt) (simp_all add: then_activity_def)
next
  case (mark_failed W1 jobID A now)
  have "attended (markJobFailed jobID now (wd_manager W)) ({#} + A)"
    by (rule attended_step [of "wd_manager W" "{#MarkingFailed jobID#}"])
      (use att mark_failed in \<open>auto dest: markJobFailed_transit\<close>)
  with mark_failed show ?case by simp
next
  case (assembled jreq W1 w jobID now rep m')
  then have "attended m' (wd_active W)"
    using att attended_shrink [of "wd_manager W" "wd_active W" m'] complete_assemble_transit [OF assembled(4)] by simp
  with assembled attended_more [of m' "wd_active W"
      "{#ReleasingDisk (ar_releaseWorkerID rep) (ar_releaseDiskBytes rep) None#}"]
  show ?case by (simp add: report_release_def)
next
  case (assembly_failed jobID jreq now W1 rep m')
  then have "attended m' (wd_active W)"
    using att attended_shrink [of "wd_manager W" "wd_active W" m'] fail_assemble_transit [OF assembly_failed(3)] by simp
  with assembly_failed attended_more [of m' "wd_active W"
      "{#ReleasingDisk (ar_releaseWorkerID rep) (ar_releaseDiskBytes rep) None#}"]
  show ?case by (simp add: report_release_def)
qed (use att in simp_all)

interpretation progress: transition_system NewWorld bounded_step
  "\<lambda>W. world_ok W \<and> attended (wd_manager W) (wd_active W)"
proof unfold_locales
  show "world_ok NewWorld \<and> attended (wd_manager NewWorld) (wd_active NewWorld)"
    using world_ok_new by (simp add: attended_def in_transit_def NewWorld_def NewJobManager_def)
  show "world_ok t \<and> attended (wd_manager t) (wd_active t)"
    if "world_ok s \<and> attended (wd_manager s) (wd_active s)" "bounded_step s t" for s t
    using that bounded_step_ok [OF that(2)] attended_entry_step [of s t] by (simp add: bounded_step_def)
qed

subsection \<open>What a job waits for\<close>

lemma collecting_waits:
  assumes "collecting (jm_tasks m) j" and "j_Status j \<in> {JobStatusSegmentAssigned, JobStatusSegmentRunning}"
  shows "awaited m j \<or> broken m j"
proof -
  from assms have seg: "seg_tasks (jm_tasks m) (j_ID j) (j_TaskIDs j)" and "\<not> all_done (jm_tasks m) (j_TaskIDs j)"
    by (auto simp: collecting_def)
  then obtain k where k: "k \<in> set (j_TaskIDs j)" "\<forall>t. jm_tasks m k = Some t \<longrightarrow> t_Status t \<noteq> TaskStatusCompleted"
    by (auto simp: all_done_def)
  from seg k(1) obtain t where t: "jm_tasks m k = Some t" "t_Type t = TaskTypeProcessSegment"
    by (auto simp: seg_tasks_def)
  have "active t \<or> t_Status t = TaskStatusFailed"
    using k(2) t(1) by (cases "t_Status t") (auto simp: active_def)
  with k(1) t show ?thesis by (auto simp: awaited_def broken_def)
qed

lemma assembling_waits:
  assumes "assembling (jm_tasks m) j" and "j_Status j \<in> {JobStatusAssembleAssigned, JobStatusAssembleRunning}"
  shows "awaited m j"
  using assms by (auto simp: assembling_def awaited_def)

text \<open>
  C3. What a job that has not ended waits for, in every reachable state of Entry. One that collects
  segments has a task a worker must still report about; one whose segments are done is in the hands of
  a request that is starting its assembly; one whose assembly is assigned has its POST under way; one
  whose assembly runs waits for the report of the assembly worker. There is one exception: a job with a
  failed segment that another segment's acceptance set running again. When none of its tasks is
  in flight, it waits for nothing: it stays as it is in every later state, and never ends.
\<close>

theorem job_never_forgotten:
  assumes "reachable_world W" and "jm_jobs (wd_manager W) i = Some j"
  shows "case j_Status j of
      JobStatusSegmentAssigned \<Rightarrow> awaited (wd_manager W) j \<or> broken (wd_manager W) j
        \<and> (\<forall>W'. bounded_step\<^sup>*\<^sup>* W W' \<longrightarrow> jm_jobs (wd_manager W') i = Some j)
    | JobStatusSegmentRunning \<Rightarrow> awaited (wd_manager W) j \<or> broken (wd_manager W) j
        \<and> (\<forall>W'. bounded_step\<^sup>*\<^sup>* W W' \<longrightarrow> jm_jobs (wd_manager W') i = Some j)
    | JobStatusSegmentCompleted \<Rightarrow> (\<exists>a\<in>#wd_active W. tends a i JobStatusSegmentCompleted)
    | JobStatusAssembleAssigned \<Rightarrow> awaited (wd_manager W) j
        \<and> (\<exists>taskID w d. PostingAssembly i taskID w d \<in># wd_active W)
    | JobStatusAssembleRunning \<Rightarrow> awaited (wd_manager W) j
    | JobStatusCompleted \<Rightarrow> True
    | JobStatusFailed \<Rightarrow> True
    | JobStatusOther _ \<Rightarrow> False"
proof -
  have W: "world_ok W" and att: "attended (wd_manager W) (wd_active W)"
    using progress.reachable_inv [OF assms(1) [unfolded reachable_world_def]] by blast+
  have tended: "\<exists>a\<in>#wd_active W. tends a i s" if "in_transit (wd_manager W) i s" for s
    using att that unfolding attended_def by blast
  have posting: "\<exists>taskID w d. PostingAssembly i taskID w d \<in># wd_active W"
    if "a \<in># wd_active W" "tends a i JobStatusAssembleAssigned" for a
    using that by (cases a) auto
  have "job_ok (jm_tasks (wd_manager W)) j" by (rule wf_managerD(5) [OF world_okD(2) [OF W] assms(2)])
  then consider (c) "collecting (jm_tasks (wd_manager W)) j" | (a) "assembling (jm_tasks (wd_manager W)) j"
    by (auto simp: job_ok_def)
  then show ?thesis
  proof cases
    case c
    then have st: "j_Status j \<in> {JobStatusSegmentAssigned, JobStatusSegmentRunning, JobStatusSegmentCompleted, JobStatusFailed}"
      by (simp add: collecting_def)
    have waits: "awaited (wd_manager W) j \<or> broken (wd_manager W) j
        \<and> (\<forall>W'. bounded_step\<^sup>*\<^sup>* W W' \<longrightarrow> jm_jobs (wd_manager W') i = Some j)"
      if "j_Status j \<in> {JobStatusSegmentAssigned, JobStatusSegmentRunning}"
      using collecting_waits [OF c that] stuck_forever [OF assms(1)] assms(2) that unfolding stuck_def by blast
    from waits tended [of JobStatusSegmentCompleted] assms(2) st
    show ?thesis by (cases "j_Status j") (simp_all add: in_transit_def)
  next
    case a
    from assembling_waits [OF a] tended [of JobStatusAssembleAssigned] assms(2) assembling_status [OF a] posting
    show ?thesis by (auto simp: in_transit_def)
  qed
qed

theorem job_never_forgotten_witness:
  "awaited (wd_manager run_created) run_job \<or> broken (wd_manager run_created) run_job"
  using job_never_forgotten [OF run_reachable run_created_job] by (auto simp: run_job_simps)

end
