(* ===== verification/Entry_Completion.thy ===== *)
theory Entry_Completion
  imports Entry_Progress
begin

text \<open>
  A job comes to its end. When every segment task of a job is reported completed, in any order,
  Entry starts the assembly with the last report, and the report of the assembly worker completes
  the job. \<open>staged\<close> describes Entry between two of these reports.
\<close>

subsection \<open>The reports of a job\<close>

fun report_all ::
  "assemble_post \<Rightarrow> (string \<times> TaskCompletedRequest \<times> (nat \<Rightarrow> Env)) list \<Rightarrow> Entry
     \<Rightarrow> ServiceError option list \<times> Entry" where
  "report_all post [] E = ([], E)"
| "report_all post ((taskID, req, env) # rest) E =
     (case CompleteSegmentTask post taskID req env E of
        (err, E1) \<Rightarrow> (case report_all post rest E1 of (errs, E2) \<Rightarrow> (err # errs, E2)))"

text \<open>The disk Entry will reserve, from the sizes the reports give.\<close>

definition assembly_demand :: "Job \<Rightarrow> (string \<Rightarrow> int) \<Rightarrow> int" where
  "assembly_demand job size_of =
     estimateAssembleDiskBytes (j_TotalSizeBytes job)
       (foldl (\<lambda>n k. add64 n (size_of k)) 0 (j_TaskIDs job))
       (\<forall>k\<in>set (j_TaskIDs job). 0 < size_of k)"

definition done_task :: "JobManager \<Rightarrow> string \<Rightarrow> int \<Rightarrow> bool" where
  "done_task m k n \<longleftrightarrow> (\<exists>t. jm_tasks m k = Some t \<and> t_Type t = TaskTypeProcessSegment
     \<and> t_Status t = TaskStatusCompleted \<and> t_OutputSizeBytes t = n)"

lemma snapshot_loop_sizes:
  assumes "\<forall>k\<in>set ids. done_task m k (size_of k)"
  shows "\<exists>segs'. snapshot_loop (jm_tasks m) ids (segs, n, b)
    = Some (segs', foldl (\<lambda>n k. add64 n (size_of k)) n ids, b \<and> (\<forall>k\<in>set ids. 0 < size_of k))"
  using assms
proof (induction ids arbitrary: segs n b)
  case Nil
  then show ?case by simp
next
  case (Cons k ids)
  then obtain t where t: "jm_tasks m k = Some t" "t_Type t = TaskTypeProcessSegment"
    "t_Status t = TaskStatusCompleted" "t_OutputSizeBytes t = size_of k"
    by (auto simp: done_task_def)
  from Cons.prems have "\<forall>k\<in>set ids. done_task m k (size_of k)" by simp
  from Cons.IH [OF this, of "segs @ [segment_ref t]" "add64 n (size_of k)" "if size_of k \<le> 0 then False else b"] t
  show ?case by (auto simp: not_less)
qed

subsection \<open>Between two reports\<close>

definition same_room :: "WorkerRegistry \<Rightarrow> WorkerRegistry \<Rightarrow> bool" where
  "same_room r r' \<longleftrightarrow> dom (wr_byID r') = dom (wr_byID r)
     \<and> (\<forall>k w. wr_byID r k = Some w \<longrightarrow> (\<exists>w'. wr_byID r' k = Some w' \<and> w_Online w' = w_Online w
          \<and> w_SupportedTasks w' = w_SupportedTasks w \<and> schedulableDisk w' = schedulableDisk w))"

lemma same_room_refl [simp]: "same_room r r"
  by (simp add: same_room_def)

lemma same_room_trans: "same_room r r' \<Longrightarrow> same_room r' r'' \<Longrightarrow> same_room r r''"
  by (simp add: same_room_def) metis

lemma same_room_release: "same_room r (ReleaseReservations [k] now r)"
  by (auto simp: same_room_def with_worker_def release_worker_def Let_def schedulableDisk_def
      split: option.splits)

text \<open>\<open>Done\<close> are the tasks reported so far, and \<open>st\<close> is the job's status.\<close>

definition staged ::
  "Entry \<Rightarrow> string \<Rightarrow> Job \<Rightarrow> (string \<Rightarrow> TaskCompletedRequest) \<Rightarrow> string set \<Rightarrow> JobStatus \<Rightarrow> Entry \<Rightarrow> bool" where
  "staged E0 i job req Done st E \<longleftrightarrow>
     wf_manager (en_manager E) \<and> wf_registry (en_workers E) \<and> same_room (en_workers E0) (en_workers E)
     \<and> (\<exists>j. jm_jobs (en_manager E) i = Some j \<and> j_TaskIDs j = j_TaskIDs job
          \<and> j_TotalSizeBytes j = j_TotalSizeBytes job \<and> j_SourceWorkerAddress j = j_SourceWorkerAddress job
          \<and> j_Status j = st)
     \<and> (\<forall>k. k \<notin> Done \<longrightarrow> jm_tasks (en_manager E) k = jm_tasks (en_manager E0) k)
     \<and> (\<forall>k\<in>Done. done_task (en_manager E) k (tcr_OutputSizeBytes (req k)))"

lemma stagedE:
  assumes "staged E0 i job req Done st E"
  obtains j where "jm_jobs (en_manager E) i = Some j" "j_TaskIDs j = j_TaskIDs job"
    "j_TotalSizeBytes j = j_TotalSizeBytes job" "j_SourceWorkerAddress j = j_SourceWorkerAddress job"
    "j_Status j = st"
  using assms by (auto simp: staged_def)

lemma stagedD:
  assumes "staged E0 i job req Done st E"
  shows "wf_manager (en_manager E)" "wf_registry (en_workers E)" "same_room (en_workers E0) (en_workers E)"
    "k \<notin> Done \<Longrightarrow> jm_tasks (en_manager E) k = jm_tasks (en_manager E0) k"
    "k \<in> Done \<Longrightarrow> done_task (en_manager E) k (tcr_OutputSizeBytes (req k))"
  using assms by (auto simp: staged_def)

text \<open>A task that waits for its report, as the job's segment.\<close>

definition waiting :: "JobManager \<Rightarrow> string \<Rightarrow> string \<Rightarrow> string \<Rightarrow> bool" where
  "waiting m i k workerID \<longleftrightarrow> (\<exists>t. jm_tasks m k = Some t \<and> t_Type t = TaskTypeProcessSegment \<and> active t
     \<and> t_JobID t = i \<and> t_AssignedWorkerID t = workerID)"

lemma segments_completed_loop_done:
  assumes "\<forall>k\<in>set ids. (k \<in> Done \<longrightarrow> done_task m k (sz k)) \<and> (k \<notin> Done \<longrightarrow>
    (\<exists>t. jm_tasks m k = Some t \<and> active t))"
  shows "segments_completed_loop (jm_tasks m) ids \<longleftrightarrow> set ids \<subseteq> Done"
proof -
  have "(\<exists>t. jm_tasks m k = Some t \<and> t_Type t = TaskTypeProcessSegment \<and> t_Status t = TaskStatusCompleted)
      \<longleftrightarrow> k \<in> Done" if "k \<in> set ids" for k
    using assms that by (auto simp: done_task_def active_def)
  then show ?thesis by (auto simp: segments_completed_loop_iff)
qed

lemma complete_staged:
  assumes S: "staged E0 i job req Done st E" and k: "k \<in> set (j_TaskIDs job) - Done"
    and wait: "\<forall>k\<in>set (j_TaskIDs job). waiting (en_manager E0) i k (tcr_WorkerID (req k))"
  obtains rep m' where "complete_segment_locked k (req k) now (en_manager E) = (Inr rep, m')"
    "sg_jobID rep = i" "sg_allCompleted rep \<longleftrightarrow> set (j_TaskIDs job) \<subseteq> insert k Done"
    "staged E0 i job req (insert k Done)
       (if set (j_TaskIDs job) \<subseteq> insert k Done then JobStatusSegmentCompleted else st)
       \<lparr>en_workers = ReleaseReservations [sg_workerID rep] now (en_workers E), en_manager = m'\<rparr>"
proof -
  note D = stagedD [OF S]
  from S obtain j where j: "jm_jobs (en_manager E) i = Some j" "j_TaskIDs j = j_TaskIDs job"
    "j_TotalSizeBytes j = j_TotalSizeBytes job" "j_SourceWorkerAddress j = j_SourceWorkerAddress job"
    "j_Status j = st" by (rule stagedE)
  from wait k obtain t where t0: "jm_tasks (en_manager E0) k = Some t" "t_Type t = TaskTypeProcessSegment"
    "active t" "t_JobID t = i" "t_AssignedWorkerID t = tcr_WorkerID (req k)" by (auto simp: waiting_def)
  with D(4) [of k] k have t: "jm_tasks (en_manager E) k = Some t" by simp
  have lock: "segmentTaskAndJobLocked k (tcr_WorkerID (req k)) (en_manager E) = Inr (t, j)"
    using t t0 j(1) by (simp add: segmentTaskAndJobLocked_def)
  have id: "j_ID j = i" by (rule wf_managerD(3) [OF D(1) j(1)])
  let ?t = "t\<lparr>t_Status := TaskStatusCompleted, t_Checksum := tcr_Checksum (req k),
      t_FrameCount := tcr_FrameCount (req k), t_DurationMS := tcr_DurationMS (req k),
      t_OutputSizeBytes := tcr_OutputSizeBytes (req k), t_CompletedAt := Some now, t_UpdatedAt := now\<rparr>"
  let ?m = "set_task k ?t (en_manager E)"
  let ?all = "set (j_TaskIDs job) \<subseteq> insert k Done"
  have loop: "segments_completed_loop (jm_tasks ?m) (j_TaskIDs job) = ?all"
  proof (rule segments_completed_loop_done [where sz = "\<lambda>k. tcr_OutputSizeBytes (req k)"], intro ballI conjI impI)
    fix k' assume k': "k' \<in> set (j_TaskIDs job)"
    show "done_task ?m k' (tcr_OutputSizeBytes (req k'))" if "k' \<in> insert k Done"
      using that D(5) [of k'] t0 by (cases "k' = k") (auto simp: done_task_def set_task_def)
    show "\<exists>t. jm_tasks ?m k' = Some t \<and> active t" if "k' \<notin> insert k Done"
      using that D(4) [of k'] wait k' by (auto simp: waiting_def set_task_def)
  qed
  let ?j = "if ?all then j\<lparr>j_UpdatedAt := now, j_Status := JobStatusSegmentCompleted\<rparr> else j\<lparr>j_UpdatedAt := now\<rparr>"
  let ?rep = "\<lparr>sg_workerID = t_AssignedWorkerID t, sg_jobID = i, sg_allCompleted = ?all\<rparr>"
  have eq: "complete_segment_locked k (req k) now (en_manager E) = (Inr ?rep, set_job i ?j ?m)"
    using lock t0(3,4) id loop j(2)
    by (auto simp: complete_segment_locked_def Let_def active_def allSegmentTasksCompletedLocked_def)
  show thesis
  proof (rule that [OF eq])
    have "wf_manager (set_job i ?j ?m)"
      using wf_complete_segment_locked [OF D(1), of k "req k" now] eq by simp
    moreover have "wf_registry (ReleaseReservations [t_AssignedWorkerID t] now (en_workers E))"
      by (rule wf_ReleaseReservations [OF D(2)])
    moreover have "same_room (en_workers E0) (ReleaseReservations [t_AssignedWorkerID t] now (en_workers E))"
      by (rule same_room_trans [OF D(3) same_room_release])
    moreover have "done_task (set_job i ?j ?m) k' (tcr_OutputSizeBytes (req k'))" if "k' \<in> insert k Done" for k'
      using that D(5) [of k'] t0 by (cases "k' = k") (auto simp: done_task_def set_task_def set_job_def)
    moreover have "jm_tasks (set_job i ?j ?m) k' = jm_tasks (en_manager E0) k'" if "k' \<notin> insert k Done" for k'
      using that D(4) [of k'] by (simp add: set_task_def set_job_def)
    moreover have "jm_jobs (set_job i ?j ?m) i = Some ?j" by (simp add: set_job_def)
    ultimately show "staged E0 i job req (insert k Done) (if ?all then JobStatusSegmentCompleted else st)
       \<lparr>en_workers = ReleaseReservations [sg_workerID ?rep] now (en_workers E), en_manager = set_job i ?j ?m\<rparr>"
      using j unfolding staged_def by (cases ?all) simp_all
  qed simp_all
qed

subsection \<open>The start of the assembly\<close>

lemma pick_with_room:
  assumes wf: "wf_registry r" and ord: "enumerates (wr_byID r) ord"
    and v: "wr_byID r k = Some v" "has_disk t d v"
  obtains w0 w where "wr_byID r (w_ID w0) = Some w0" "w = reserve_disk d now w0"
    "PickWorkerForDiskReservation t d ord now r = (Some w, set_worker r (w_ID w) w)"
    "wr_byID (set_worker r (w_ID w) w) (w_ID w) = Some w"
proof (cases "scan (has_disk t d) disk_better (List.map_filter (wr_byID r) ord)")
  case None
  have "v \<in> set (List.map_filter (wr_byID r) ord)"
    using enumerates_values [OF ord] v(1) by (auto simp: ran_def)
  with None v(2) show thesis by (auto simp: disk.scan_None)
next
  case (Some b)
  then have "b \<in> ran (wr_byID r)"
    using disk.scan_Some(2) enumerates_values [OF ord] by blast
  then have "wr_byID r (w_ID b) = Some b" using wf_registryD(1) [OF wf] by (auto simp: ran_def)
  with Some that [of b "reserve_disk d now b"] show thesis
    by (simp add: PickWorkerForDiskReservation_def fold_pick_disk Let_def reserve_disk_def)
qed

text \<open>An assembly under way: the job's last task is given to a known worker and unfinished.\<close>

definition under_assembly :: "Entry \<Rightarrow> string \<Rightarrow> string \<Rightarrow> string \<Rightarrow> bool" where
  "under_assembly E i workerID address \<longleftrightarrow>
     (\<exists>j segs a t w. jm_jobs (en_manager E) i = Some j \<and> j_Status j = JobStatusAssembleRunning
        \<and> j_SourceWorkerAddress j = address \<and> j_ID j = i
        \<and> j_TaskIDs j = segs @ [a] \<and> (\<forall>k\<in>set segs. \<exists>n. done_task (en_manager E) k n)
        \<and> jm_tasks (en_manager E) a = Some t \<and> t_Type t = TaskTypeAssembleGIF
        \<and> t_Status t = TaskStatusRunning \<and> t_AssignedWorkerID t = workerID
        \<and> GetWorker workerID (en_workers E) = Some w)"

definition accepts_assembly :: "assemble_post \<Rightarrow> bool" where
  "accepts_assembly post \<longleftrightarrow>
     (\<forall>address req E. \<exists>resp. post address req E = (HttpResp 200 (Inr resp), E)
        \<and> sap_Status resp = StartAssembleGIFStatusSuccess)"

lemma start_staged:
  assumes S: "staged E0 i job req (set (j_TaskIDs job)) JobStatusSegmentCompleted E"
    and post: "accepts_assembly post"
    and ord: "enumerates (wr_byID (en_workers E0)) (ev_ord (env 0))"
    and draw: "ev_draw (env 0) = Some buf" "jm_tasks (en_manager E0) (''task_'' @ EncodeToString buf) = None"
      "''task_'' @ EncodeToString buf \<notin> set (j_TaskIDs job)"
    and room: "wr_byID (en_workers E0) kv = Some v" "w_Online v" "Supports v TaskTypeAssembleGIF"
      "assembly_demand job (\<lambda>k. tcr_OutputSizeBytes (req k)) \<le> schedulableDisk v"
  shows "\<exists>workerID. under_assembly (snd (startAssembleGIF post i env E)) i workerID (j_SourceWorkerAddress job)"
proof -
  note D = stagedD [OF S]
  from S obtain j where j: "jm_jobs (en_manager E) i = Some j" "j_TaskIDs j = j_TaskIDs job"
    "j_TotalSizeBytes j = j_TotalSizeBytes job" "j_SourceWorkerAddress j = j_SourceWorkerAddress job"
    "j_Status j = JobStatusSegmentCompleted" by (rule stagedE)
  let ?sz = "\<lambda>k. tcr_OutputSizeBytes (req k)"
  from snapshot_loop_sizes [of "j_TaskIDs job" "en_manager E" ?sz "[]" 0 True] D(5) obtain segs' where
    "snapshot_loop (jm_tasks (en_manager E)) (j_TaskIDs job) ([], 0, True)
      = Some (segs', foldl (\<lambda>n k. add64 n (?sz k)) 0 (j_TaskIDs job), \<forall>k\<in>set (j_TaskIDs job). 0 < ?sz k)"
    by auto
  then obtain snap where snap: "assemble_snapshot i (en_manager E) = Inr snap"
    and demand: "required_disk snap = assembly_demand job ?sz"
    using j by (simp add: assemble_snapshot_def required_disk_def assembly_demand_def)
  from room D(3) obtain v' where "wr_byID (en_workers E) kv = Some v'"
    "has_disk TaskTypeAssembleGIF (required_disk snap) v'"
    unfolding same_room_def has_disk_def can_run_def Supports_def demand by metis
  moreover have "enumerates (wr_byID (en_workers E)) (ev_ord (env 0))"
    using ord D(3) by (simp add: enumerates_def same_room_def)
  ultimately obtain w0 w where w0: "wr_byID (en_workers E) (w_ID w0) = Some w0"
    and w: "w = reserve_disk (required_disk snap) (ev_now (env 0)) w0"
    and pick: "PickWorkerForDiskReservation TaskTypeAssembleGIF (required_disk snap) (ev_ord (env 0)) (ev_now (env 0))
      (en_workers E) = (Some w, set_worker (en_workers E) (w_ID w) w)"
    and known: "wr_byID (set_worker (en_workers E) (w_ID w) w) (w_ID w) = Some w"
    using pick_with_room [OF D(2)] by metis
  define a now now1 where "a = ''task_'' @ EncodeToString buf" and "now = ev_now (env 0)" and "now1 = ev_now (env 1)"
  note folds = a_def [symmetric] now_def [symmetric] now1_def [symmetric]
  define t where "t = new_assemble_task a i w (required_disk snap) now"
  define j1 where "j1 = j\<lparr>j_TaskIDs := j_TaskIDs j @ [a], j_Status := JobStatusAssembleAssigned, j_UpdatedAt := now\<rparr>"
  define t2 where "t2 = t\<lparr>t_Status := TaskStatusRunning, t_UpdatedAt := now1, t_AcceptedAt := Some now1\<rparr>"
  define j2 where "j2 = j1\<lparr>j_Status := JobStatusAssembleRunning, j_UpdatedAt := now1\<rparr>"
  let ?m = "set_job i j1 (set_task a t (en_manager E))"
  let ?m2 = "set_job i j2 (set_task a t2 ?m)"
  have commit: "assemble_commit i t now (en_manager E) = (True, ?m)"
    using j(1,5) by (simp add: assemble_commit_def j1_def t_def new_assemble_task_def)
  from post obtain resp where resp: "post (w_Address w) (assemble_request i a snap)
      \<lparr>en_workers = set_worker (en_workers E) (w_ID w) w, en_manager = ?m\<rparr>
    = (HttpResp 200 (Inr resp), \<lparr>en_workers = set_worker (en_workers E) (w_ID w) w, en_manager = ?m\<rparr>)"
    "sap_Status resp = StartAssembleGIFStatusSuccess" unfolding accepts_assembly_def by blast
  have "nextID ''task_'' (ev_draw (env 0)) = Inr a" by (simp add: nextID_def draw(1) a_def)
  with snap pick commit resp have run: "startAssembleGIF post i env E =
      (None, \<lparr>en_workers = set_worker (en_workers E) (w_ID w) w, en_manager = assemble_started i a now1 ?m\<rparr>)"
    unfolding startAssembleGIF_def Let_def folds
    by (simp add: folds t_def assemble_replied_def notifyAssembleWorker_def)
  have "jm_tasks ?m a = Some t" "jm_jobs ?m i = Some j1" by (simp_all add: set_job_def set_task_def)
  from assemble_started_write [OF this, of now1] have m2: "assemble_started i a now1 ?m = ?m2"
    by (simp add: t_def t2_def j1_def j2_def new_assemble_task_def)
  have "done_task ?m2 k (?sz k)" if "k \<in> set (j_TaskIDs job)" for k
    using D(5) [OF that] that draw(3) unfolding folds by (auto simp: done_task_def set_job_def set_task_def)
  moreover have "j_ID j = i" by (rule wf_managerD(3) [OF D(1) j(1)])
  ultimately show ?thesis
    unfolding run under_assembly_def snd_conv m2
    by (intro exI [of _ "w_ID w"] exI [of _ j2] exI [of _ "j_TaskIDs job"] exI [of _ a] exI [of _ t2] exI [of _ w]
        conjI ballI)
      (use j(2,4) known in \<open>auto simp: j1_def j2_def t_def t2_def set_job_def set_task_def new_assemble_task_def
        GetWorker_def\<close>)
qed

subsection \<open>The report of the assembly\<close>

lemma assemble_target_loop_last:
  assumes "\<forall>k\<in>set segs. \<exists>n. done_task m k n" and "jm_tasks m a = Some t" and "t_Type t = TaskTypeAssembleGIF"
    and "active t"
  shows "assemble_target_loop (jm_tasks m) (t_AssignedWorkerID t) (segs @ [a]) = Inr (a, t)"
  using assms by (induction segs) (auto simp: done_task_def active_def)

text \<open>The result a successful report leaves in the job.\<close>

definition result_name :: "string \<Rightarrow> JobAssembledRequest \<Rightarrow> string" where
  "result_name i req = (if jar_ResultName req = [] then i @ ''.gif'' else jar_ResultName req)"

lemma report_completes:
  assumes U: "under_assembly E i workerID address" and req: "jar_Status req = JobResultStatusSuccess"
    "jar_WorkerID req = workerID"
  shows "\<exists>note E' j w. AssembleJob i req now E = (Inr (address, note), E')
    \<and> jrn_Status note = JobResultStatusSuccess
    \<and> jm_jobs (en_manager E') i = Some j \<and> j_Status j = JobStatusCompleted
    \<and> GetWorker workerID (en_workers E) = Some w
    \<and> j_ResultURI j = resultURI (w_Address w) (result_name i req) \<and> jrn_ResultURI note = j_ResultURI j"
proof -
  from U obtain j segs a t w where j: "jm_jobs (en_manager E) i = Some j" "j_Status j = JobStatusAssembleRunning"
      "j_SourceWorkerAddress j = address" "j_ID j = i" "j_TaskIDs j = segs @ [a]"
    and segs: "\<forall>k\<in>set segs. \<exists>n. done_task (en_manager E) k n"
    and t: "jm_tasks (en_manager E) a = Some t" "t_Type t = TaskTypeAssembleGIF" "t_Status t = TaskStatusRunning"
      "t_AssignedWorkerID t = workerID"
    and w: "GetWorker workerID (en_workers E) = Some w" unfolding under_assembly_def by blast
  have "active t" using t(3) by (simp add: active_def)
  from assemble_target_loop_last [OF segs t(1,2) this] t(4) j(5)
  have target: "assembleCompletionTargetLocked j workerID (en_manager E) = Inr (a, t)"
    by (simp add: assembleCompletionTargetLocked_def j(2))
  from j(1,3,4) target w req show ?thesis
    by (simp add: AssembleJob_def completeAssembleJob_def complete_assemble_locked_def Let_def assemble_reported_def
        jobResultNotificationLocked_def result_name_def set_job_def)
qed

subsection \<open>All reports\<close>

text \<open>What the last report's start of the assembly takes from outside: an order of the registry's
  map, and random bytes that give an unused identifier.\<close>

definition usable_env :: "Entry \<Rightarrow> Env \<Rightarrow> bool" where
  "usable_env E ev \<longleftrightarrow> enumerates (wr_byID (en_workers E)) (ev_ord ev)
     \<and> (\<exists>buf. ev_draw ev = Some buf \<and> jm_tasks (en_manager E) (''task_'' @ EncodeToString buf) = None)"

definition has_room :: "Entry \<Rightarrow> int \<Rightarrow> bool" where
  "has_room E d \<longleftrightarrow> (\<exists>k v. wr_byID (en_workers E) k = Some v \<and> w_Online v \<and> Supports v TaskTypeAssembleGIF
     \<and> d \<le> schedulableDisk v)"

lemma reports_staged:
  assumes S: "staged E0 i job req Done st E" and ks: "distinct ks" "set ks = set (j_TaskIDs job) - Done" "ks \<noteq> []"
    and wait: "\<forall>k\<in>set (j_TaskIDs job). waiting (en_manager E0) i k (tcr_WorkerID (req k))"
    and env: "\<forall>k\<in>set ks. usable_env E0 (env k 1)" and post: "accepts_assembly post"
    and room: "has_room E0 (assembly_demand job (\<lambda>k. tcr_OutputSizeBytes (req k)))"
    and sub: "Done \<subseteq> set (j_TaskIDs job)"
  shows "\<exists>E' workerID. report_all post (map (\<lambda>k. (k, req k, env k)) ks) E = (replicate (length ks) None, E')
    \<and> under_assembly E' i workerID (j_SourceWorkerAddress job)"
  using S ks env sub
proof (induction ks arbitrary: Done st E)
  case Nil
  then show ?case by simp
next
  case (Cons k rest)
  have k: "k \<in> set (j_TaskIDs job) - Done" using Cons.prems(3) by auto
  let ?now = "ev_now (env k 0)" and ?all = "set (j_TaskIDs job) \<subseteq> insert k Done"
  from complete_staged [OF Cons.prems(1) k wait] obtain rep m' where
    eq: "complete_segment_locked k (req k) ?now (en_manager E) = (Inr rep, m')"
    and rep: "sg_jobID rep = i" "sg_allCompleted rep = ?all"
    and S': "staged E0 i job req (insert k Done) (if ?all then JobStatusSegmentCompleted else st)
       \<lparr>en_workers = ReleaseReservations [sg_workerID rep] ?now (en_workers E), en_manager = m'\<rparr>"
      (is "staged _ _ _ _ _ _ ?E") by metis
  have all: "?all \<longleftrightarrow> rest = []" using Cons.prems(2,3) by (cases rest) auto
  show ?case
  proof (cases "rest = []")
    case True
    with all have "insert k Done = set (j_TaskIDs job)" using k Cons.prems(6) by auto
    with S' all True have S2: "staged E0 i job req (set (j_TaskIDs job)) JobStatusSegmentCompleted ?E" by simp
    from Cons.prems(5) obtain buf where buf: "enumerates (wr_byID (en_workers E0)) (ev_ord (env k 1))"
      "ev_draw (env k 1) = Some buf" "jm_tasks (en_manager E0) (''task_'' @ EncodeToString buf) = None"
      by (auto simp: usable_env_def)
    have new: "''task_'' @ EncodeToString buf \<notin> set (j_TaskIDs job)"
      using wait buf(3) by (auto simp: waiting_def)
    from room obtain kv v where v: "wr_byID (en_workers E0) kv = Some v" "w_Online v" "Supports v TaskTypeAssembleGIF"
      "assembly_demand job (\<lambda>k. tcr_OutputSizeBytes (req k)) \<le> schedulableDisk v"
      by (auto simp: has_room_def simp del: Supports_def)
    have "\<exists>workerID. under_assembly (snd (startAssembleGIF post i (\<lambda>n. env k (Suc n)) ?E)) i workerID
        (j_SourceWorkerAddress job)"
      by (rule start_staged [OF S2 post _ _ buf(3) new v]) (use buf in simp_all)
    with True eq rep all show ?thesis
      by (auto simp: CompleteSegmentTask_def Let_def)
  next
    case False
    then have step: "CompleteSegmentTask post k (req k) (env k) E = (None, ?E)"
      using eq rep all by (simp add: CompleteSegmentTask_def Let_def)
    have "\<exists>E' workerID. report_all post (map (\<lambda>k. (k, req k, env k)) rest) ?E = (replicate (length rest) None, E')
        \<and> under_assembly E' i workerID (j_SourceWorkerAddress job)"
      by (rule Cons.IH [OF S']) (use Cons.prems False k in auto)
    with step show ?thesis by auto
  qed
qed

text \<open>
  C4. A job runs to its end. Take any consistent state of Entry in which all tasks of a job wait for
  their reports. Report them completed, in any order: every report is accepted, and if some online
  worker has the disk for the sizes reported (and accepts the assembly), then the assembly is
  running at a known worker after the last report, and that worker's successful report completes
  the job, records where the result is, and notifies the source worker's address of it.
\<close>

theorem job_completes:
  assumes "wf_manager (en_manager E)" and "wf_registry (en_workers E)"
    and "jm_jobs (en_manager E) i = Some job"
    and "distinct ks" and "set ks = set (j_TaskIDs job)"
    and "\<forall>k\<in>set ks. waiting (en_manager E) i k (tcr_WorkerID (req k))"
    and "\<forall>k\<in>set ks. usable_env E (env k 1)" and "accepts_assembly post"
    and "has_room E (assembly_demand job (\<lambda>k. tcr_OutputSizeBytes (req k)))"
  shows "\<exists>E' workerID w. report_all post (map (\<lambda>k. (k, req k, env k)) ks) E = (replicate (length ks) None, E')
    \<and> GetWorker workerID (en_workers E') = Some w
    \<and> (\<forall>areq now. jar_Status areq = JobResultStatusSuccess \<and> jar_WorkerID areq = workerID \<longrightarrow>
        (\<exists>note E'' j. AssembleJob i areq now E' = (Inr (j_SourceWorkerAddress job, note), E'')
          \<and> jm_jobs (en_manager E'') i = Some j \<and> j_Status j = JobStatusCompleted
          \<and> j_ResultURI j = resultURI (w_Address w) (result_name i areq)
          \<and> jrn_Status note = JobResultStatusSuccess \<and> jrn_ResultURI note = j_ResultURI j))"
proof -
  have "staged E i job req {} (j_Status job) E" using assms(1-3) by (simp add: staged_def)
  moreover have "ks \<noteq> []"
    using wf_managerD(5) [OF assms(1,3)] assms(5)
    by (auto simp: job_ok_def collecting_def assembling_def seg_tasks_def)
  ultimately obtain E' workerID where
    run: "report_all post (map (\<lambda>k. (k, req k, env k)) ks) E = (replicate (length ks) None, E')"
    and U: "under_assembly E' i workerID (j_SourceWorkerAddress job)"
    using reports_staged [of E i job req "{}" "j_Status job" E ks env post] assms by auto
  then obtain w where "GetWorker workerID (en_workers E') = Some w" unfolding under_assembly_def by blast
  with run report_completes [OF U] show ?thesis by (intro exI [of _ E'] exI [of _ workerID] exI [of _ w]) fastforce
qed

definition run_entry :: Entry where
  "run_entry = \<lparr>en_workers = wd_registry run_created, en_manager = wd_manager run_created\<rparr>"

definition run_completed :: TaskCompletedRequest where
  "run_completed = \<lparr>tcr_WorkerID = ''wrk_01'', tcr_Checksum = ''c'', tcr_FrameCount = 7, tcr_DurationMS = 9,
     tcr_OutputSizeBytes = 5\<rparr>"

definition run_post :: assemble_post where
  "run_post address req E = (HttpResp 200 (Inr \<lparr>sap_Status = StartAssembleGIFStatusSuccess,
     sap_DiskFreeBytes = 0\<rparr>), E)"

theorem job_completes_witness:
  "\<exists>E' workerID w. report_all run_post [(''task_03'', run_completed, \<lambda>n. \<lparr>ev_ord = [''wrk_01''], ev_now = 50, ev_draw = Some [4]\<rparr>)]
      run_entry = ([None], E') \<and> GetWorker workerID (en_workers E') = Some w"
proof -
  let ?env = "\<lambda>(_ :: string) (n :: nat). \<lparr>ev_ord = [''wrk_01''], ev_now = 50, ev_draw = Some [4]\<rparr>"
  note ok = reachable_world_ok [OF run_reachable]
  have wf: "wf_manager (en_manager run_entry)" "wf_registry (en_workers run_entry)"
    using world_okD(2) [OF ok] reg_okD(1) [OF world_okD(1) [OF ok]] by (simp_all add: run_entry_def)
  have job: "jm_jobs (en_manager run_entry) ''job_02'' = Some run_job"
    using run_created_job by (simp add: run_entry_def)
  have ids: "set [''task_03''] = set (j_TaskIDs run_job)" by (simp add: run_job_simps)
  have wait: "\<forall>k\<in>set [''task_03'']. waiting (en_manager run_entry) ''job_02'' k (tcr_WorkerID run_completed)"
    by (simp add: waiting_def run_entry_def run_worlds run_defs active_def run_completed_def)
  have draw: "''task_'' @ EncodeToString [4] = ''task_04''" by code_simp
  have env: "\<forall>k\<in>set [''task_03'']. usable_env run_entry (?env k 1)"
    unfolding usable_env_def using draw
    by (simp add: enumerates_def run_entry_def run_worlds run_defs)
  have post: "accepts_assembly run_post" by (simp add: accepts_assembly_def run_post_def)
  have "assembly_demand run_job (\<lambda>k. tcr_OutputSizeBytes run_completed) = 12"
    by (simp add: assembly_demand_def run_job_simps run_completed_def) code_simp
  moreover have "wr_byID (en_workers run_entry) ''wrk_01'' = Some (run_worker 1 30)"
    "w_Online (run_worker 1 30)" "Supports (run_worker 1 30) TaskTypeAssembleGIF"
    by (simp_all add: run_entry_def run_worlds run_registry_def run_worker_def Supports_def)
  moreover have "schedulableDisk (run_worker 1 30) = 800" by code_simp
  ultimately have room: "has_room run_entry (assembly_demand run_job (\<lambda>k. tcr_OutputSizeBytes run_completed))"
    unfolding has_room_def by (intro exI [of _ "''wrk_01''"] exI [of _ "run_worker 1 30"]) simp
  from job_completes [OF wf job _ ids, where req = "\<lambda>_. run_completed" and env = ?env and post = run_post]
    wait env post room show ?thesis by auto
qed

end
