(* ===== verification/Result_Delivery.thy ===== *)
theory Result_Delivery
  imports Http_Routes Entry_Completion Worker_Handlers_Spec
begin

text \<open>
  Where the result ends up: the worker's assembly composed with Entry's report handler, and the
  address Entry then stores composed with the routes and the handler of the worker that serves it.
\<close>

lemma report_result:
  assumes U: "under_assembly E i workerID address" and w: "GetWorker workerID (en_workers E) = Some w"
    and req: "jar_Status req = JobResultStatusSuccess" "jar_WorkerID req = workerID"
    and bind: "bind_JobAssembledRequest req"
  shows "\<exists>j. jm_jobs (en_manager (snd (ea_assembled (entry_api post ev) i req E))) i = Some j
    \<and> j_Status j = JobStatusCompleted \<and> j_ResultURI j = resultURI (w_Address w) (result_name i req)"
proof -
  from report_completes [OF U req] w obtain msg E' j where
    "AssembleJob i req (ev_now (ev 0)) E = (Inr (address, msg), E')" "jm_jobs (en_manager E') i = Some j"
    "j_Status j = JobStatusCompleted" "j_ResultURI j = resultURI (w_Address w) (result_name i req)"
    by (metis option.inject)
  with bind show ?thesis
    by (simp add: entry_api_def Assembled_def ShouldBindJSON_def)
qed

lemma path_segment_gif: "path_segment i \<Longrightarrow> path_segment (i @ ''.gif'')"
  by (auto simp: path_segment_def)

text \<open>
  C23. The result can be fetched where Entry says it is. When the assembly worker downloads the segments
  and its engine completes the request to write \<open>results/<job>.gif\<close> in its spool, the job
  completes in Entry, and the result URI Entry stores leads, through the worker's routes, to
  the handler that serves exactly that file.
\<close>

theorem result_delivered:
  assumes "routes_by_patterns wroute" and "under_assembly E (sar_JobID req) workerID address"
    and "GetWorker workerID (en_workers E) = Some w" and "plain_host (w_Address w)" and "path_segment (sar_JobID req)"
    and "download_loop root download (sar_JobID req) (sar_Segments req) [] = Inr inputs"
    and "name = sar_JobID req @ ''.gif''"
    and "engine (assemble_engine_request inputs (ResultPath root name) name) = Inr resp"
    and "rs_Type resp \<noteq> ResponseTypeFailed" and "bind_JobAssembledRequest (assembled_report workerID name resp)"
    and "runAssembleGIF (entry_api post ev) errText root download (Inr lease) engine req workerID (s, E) = ((s', E'), released)"
  shows "\<exists>j path. jm_jobs (en_manager E') (sar_JobID req) = Some j \<and> j_Status j = JobStatusCompleted
    \<and> url_parts (j_ResultURI j) = Some (w_Address w, path)
    \<and> wroute NewRouter ''GET'' path = Some (WorkerResult, [(''result_name'', name)])
    \<and> GetResult stat root name = file_reply stat (ResultPath root name)"
proof -
  let ?i = "sar_JobID req" and ?report = "assembled_report workerID name resp"
  have E': "E' = snd (ea_assembled (entry_api post ev) ?i ?report E)"
    using assms(6-9,11) by (auto simp: runAssembleGIF_def assemble_outcome_def Let_def)
  have "jar_Status ?report = JobResultStatusSuccess" "jar_WorkerID ?report = workerID" "result_name ?i ?report = name"
    using assms(7) by (simp_all add: assembled_report_def result_name_def)
  with report_result [OF assms(2,3) _ _ assms(10), of post ev] E' obtain j where
    j: "jm_jobs (en_manager E') ?i = Some j" "j_Status j = JobStatusCompleted"
      "j_ResultURI j = resultURI (w_Address w) name" by auto
  have seg: "path_segment name" using path_segment_gif [OF assms(5)] assms(7) by simp
  then have "plain_path (''/results/'' @ name)" by (auto simp: plain_path_def path_segment_def)
  from url_parts_plain [OF assms(4) this] j(3) have "url_parts (j_ResultURI j) = Some (w_Address w, ''/results/'' @ name)"
    by (simp add: resultURI_def)
  moreover have "wroute NewRouter ''GET'' (''/results/'' @ name) = Some (WorkerResult, [(''result_name'', name)])"
    using routedI [OF assms(1), of "''GET''" "''/results/:result_name''" WorkerResult NewRouter]
      path_segment_no_slash [OF seg] by (simp add: routing)
  moreover have "GetResult stat root name = file_reply stat (ResultPath root name)"
    using path_segment_no_slash(2) [OF seg] by (simp add: GetResult_def)
  ultimately show ?thesis using j by blast
qed

definition ex_assembling :: Entry where
  "ex_assembling =
     \<lparr>en_workers = wd_registry run_created,
      en_manager =
        \<lparr>jm_jobs = [''job_02'' \<mapsto> run_job\<lparr>j_TaskIDs := [''task_03'', ''task_04''], j_Status := JobStatusAssembleRunning\<rparr>],
         jm_tasks =
           [''task_03'' \<mapsto> run_task\<lparr>t_Status := TaskStatusCompleted, t_OutputSizeBytes := 5\<rparr>,
            ''task_04'' \<mapsto> (new_assemble_task ''task_04'' ''job_02'' (run_worker 1 30) 12 50)\<lparr>t_Status := TaskStatusRunning\<rparr>],
         jm_jobIDByIdentity = [j_IdentityKey run_job \<mapsto> ''job_02'']\<rparr>\<rparr>"

lemma ex_assembling_done: "done_task (en_manager ex_assembling) ''task_03'' 5"
  by (simp add: ex_assembling_def done_task_def run_defs)

lemma ex_assembling_under: "under_assembly ex_assembling ''job_02'' ''wrk_01'' (j_SourceWorkerAddress run_job)"
  unfolding under_assembly_def
proof (intro exI conjI ballI)
  let ?j = "run_job\<lparr>j_TaskIDs := [''task_03'', ''task_04''], j_Status := JobStatusAssembleRunning\<rparr>"
  let ?t = "(new_assemble_task ''task_04'' ''job_02'' (run_worker 1 30) 12 50)\<lparr>t_Status := TaskStatusRunning\<rparr>"
  show "jm_jobs (en_manager ex_assembling) ''job_02'' = Some ?j" by (simp add: ex_assembling_def)
  show "j_Status ?j = JobStatusAssembleRunning" "j_SourceWorkerAddress ?j = j_SourceWorkerAddress run_job"
    "j_ID ?j = ''job_02''" "j_TaskIDs ?j = [''task_03''] @ [''task_04'']"
    by (simp_all add: run_job_simps)
  show "done_task (en_manager ex_assembling) k 5" if "k \<in> set [''task_03'']" for k
    using that ex_assembling_done by simp
  show "jm_tasks (en_manager ex_assembling) ''task_04'' = Some ?t" by (simp add: ex_assembling_def)
  show "t_Type ?t = TaskTypeAssembleGIF" "t_Status ?t = TaskStatusRunning" "t_AssignedWorkerID ?t = ''wrk_01''"
    by (simp_all add: new_assemble_task_def run_worker_def)
  show "GetWorker ''wrk_01'' (en_workers ex_assembling) = Some (run_worker 1 30)"
    by (simp add: ex_assembling_def GetWorker_def run_worlds run_defs)
qed

definition ex_gif :: StartAssembleGIFRequest where
  "ex_gif =
     \<lparr>sar_JobID = ''job_02'', sar_AssembleTaskID = ''task_04'',
      sar_Video = \<lparr>avi_Name = ''v'', avi_SourceWorkerID = ''wrk_01'', avi_SourceWorkerAddress = ''h:1'',
        avi_TotalSizeBytes = 9\<rparr>,
      sar_Segments = [segment_ref run_task]\<rparr>"

theorem result_delivered_witness:
  "\<exists>j path (E' :: Entry). jm_jobs (en_manager E') ''job_02'' = Some j \<and> url_parts (j_ResultURI j) = Some (''h:1'', path)
     \<and> first_route NewRouter ''GET'' path = Some (WorkerResult, [(''result_name'', ''job_02.gif'')])"
proof -
  let ?ev = "\<lambda>n. \<lparr>ev_ord = [], ev_now = 60, ev_draw = None\<rparr>"
  obtain s' E' rel where R: "runAssembleGIF (entry_api run_post ?ev) (\<lambda>e. ''error'') ''data/spool'' (\<lambda>seg p. None) (Inr 0)
      (\<lambda>r. Inr ex_answer) ex_gif ''wrk_01'' (ex_uploader, ex_assembling) = ((s', E'), rel)"
    by (metis prod.exhaust)
  have job: "sar_JobID ex_gif = ''job_02''" by (simp add: ex_gif_def)
  have w: "GetWorker ''wrk_01'' (en_workers ex_assembling) = Some (run_worker 1 30)"
    by (simp add: ex_assembling_def GetWorker_def run_worlds run_defs)
  have host: "plain_host (w_Address (run_worker 1 30))" "path_segment (sar_JobID ex_gif)"
    by (simp_all add: plain_host_def path_segment_def run_worker_def ex_gif_def)
  obtain inputs where dl: "download_loop ''data/spool'' (\<lambda>seg p. None) (sar_JobID ex_gif) (sar_Segments ex_gif) [] = Inr inputs"
    by (simp add: ex_gif_def Let_def)
  have ans: "rs_Type ex_answer \<noteq> ResponseTypeFailed"
    "bind_JobAssembledRequest (assembled_report ''wrk_01'' ''job_02.gif'' ex_answer)"
    by (simp_all add: ex_answer_def assembled_report_def bind_JobAssembledRequest_def in64_def)
  note T = result_delivered [OF first_route_ok ex_assembling_under [folded job] w host dl _ _ ans(1) _ R,
      of "''job_02.gif''" "\<lambda>_. StatExists"]
  have res: "\<exists>j path. jm_jobs (en_manager E') (sar_JobID ex_gif) = Some j \<and> j_Status j = JobStatusCompleted
    \<and> url_parts (j_ResultURI j) = Some (w_Address (run_worker 1 30), path)
    \<and> first_route NewRouter ''GET'' path = Some (WorkerResult, [(''result_name'', ''job_02.gif'')])
    \<and> GetResult (\<lambda>_. StatExists) ''data/spool'' ''job_02.gif'' = file_reply (\<lambda>_. StatExists) (ResultPath ''data/spool'' ''job_02.gif'')"
    by (rule T) (use ans(2) in \<open>simp_all add: job\<close>)
  have addr: "w_Address (run_worker 1 30) = ''h:1''" by (simp add: run_worker_def)
  from res [unfolded addr job] obtain j path where "jm_jobs (en_manager E') ''job_02'' = Some j"
    "url_parts (j_ResultURI j) = Some (''h:1'', path)"
    "first_route NewRouter ''GET'' path = Some (WorkerResult, [(''result_name'', ''job_02.gif'')])"
    by (elim exE conjE) (rule that)
  then show ?thesis by (intro exI [of _ j] exI [of _ path] exI [of _ E'] conjI)
qed

end
