(* ===== verification/Engine_Lease.thy ===== *)
theory Engine_Lease
  imports Pool_Steps
begin

text \<open>
  \<open>enginepool/lease.go\<close>, the calls of \<open>pool.go\<close> that go through an engine, and the start and the
  end of an engine's process (\<open>engine.go\<close>). Each is the composition of the lock regions and channel
  operations of \<open>Engine_Pool\<close> that the code makes, run by one goroutine. A result \<open>None\<close> is a
  goroutine that blocks on a channel. What the operating system and the context do is in the
  arguments.
\<close>

subsection \<open>The process of an engine\<close>

definition newEngine :: "int \<Rightarrow> Engine" where
  "newEngine i = \<lparr>eg_id = i, eg_started = False\<rparr>"

text \<open>The errors of creating the three pipes and of starting the process, in this order.\<close>

definition EngineStart :: "string option \<times> string option \<times> string option \<times> string option \<Rightarrow> Engine
    \<Rightarrow> string option \<times> Engine" where
  "EngineStart errs e =
     (if eg_started e then (None, e)
      else case errs of (stdin, stdout, stderr, start) \<Rightarrow>
        (case stdin of Some err \<Rightarrow> (Some (''create engine stdin pipe: '' @ err), e)
         | None \<Rightarrow>
        (case stdout of Some err \<Rightarrow> (Some (''create engine stdout pipe: '' @ err), e)
         | None \<Rightarrow>
        (case stderr of Some err \<Rightarrow> (Some (''create engine stderr pipe: '' @ err), e)
         | None \<Rightarrow>
        (case start of Some err \<Rightarrow> (Some (''start engine process: '' @ err), e)
         | None \<Rightarrow> (None, e\<lparr>eg_started := True\<rparr>))))))"

text \<open>The process ends by itself, with \<open>Wait\<close>'s error, or the context ends first and it is
  killed.\<close>

datatype ProcessEnd = ProcessExited "string option" | ContextDone string

definition EngineStop :: "ProcessEnd \<Rightarrow> Engine \<Rightarrow> string option \<times> Engine" where
  "EngineStop pend e =
     (if \<not> eg_started e then (None, e)
      else
        case pend of
          ProcessExited None \<Rightarrow> (None, e\<lparr>eg_started := False\<rparr>)
        | ProcessExited (Some err) \<Rightarrow> (Some (''wait engine process: '' @ err), e\<lparr>eg_started := False\<rparr>)
        | ContextDone err \<Rightarrow> (Some err, e\<lparr>eg_started := False\<rparr>))"

text \<open>One round of the loop over the engines in \<open>stopStartedEnginesLocked\<close>.\<close>

lemma stopStartedEnginesLocked_step:
  assumes "heap e = Some engine" and "fst (EngineStop pend engine) = (if eg_started engine then stop e else None)"
  shows "stopStartedEnginesLocked stop (e # es) firstErr heap =
    stopStartedEnginesLocked stop es
      (if fst (EngineStop pend engine) \<noteq> None \<and> firstErr = None then fst (EngineStop pend engine) else firstErr)
      (heap(e \<mapsto> snd (EngineStop pend engine)))"
  using assms by (auto simp: EngineStop_def fun_upd_idem split: ProcessEnd.splits option.splits)

subsection \<open>Acquire and release\<close>

text \<open>\<open>gaveUp\<close> is the context's error when the wait ends by it.\<close>

definition pool_acquire :: "string option \<Rightarrow> Pool \<Rightarrow> ((EngineError + engine_ref) \<times> Pool) option" where
  "pool_acquire gaveUp p =
     (case acquire_chan p of
        Inl err \<Rightarrow> Some (Inl err, p)
      | Inr c \<Rightarrow>
          (case gaveUp of
             Some err \<Rightarrow> Some (Inl (EngineContext err), p)
           | None \<Rightarrow> map_option (\<lambda>(e, p'). (Inr e, p')) (receive c p)))"

definition pool_release :: "engine_ref \<Rightarrow> Pool \<Rightarrow> Pool option" where
  "pool_release e p =
     (case release_locked (engine_id e p) p of
        (None, p') \<Rightarrow> Some p'
      | (Some c, p') \<Rightarrow> send c e p')"

record Lease =
  ls_engine :: engine_ref
  ls_released :: bool

definition lease_of :: "int \<Rightarrow> (EngineError + engine_ref) \<times> Pool \<Rightarrow> (EngineError + Lease) \<times> Pool" where
  "lease_of now res =
     (case res of
        (Inl err, p) \<Rightarrow> (Inl err, p)
      | (Inr e, p) \<Rightarrow> (Inr \<lparr>ls_engine = e, ls_released = False\<rparr>, markLeased (engine_id e p) now p))"

definition Acquire :: "string option \<Rightarrow> int \<Rightarrow> Pool \<Rightarrow> ((EngineError + Lease) \<times> Pool) option" where
  "Acquire gaveUp now p = map_option (lease_of now) (pool_acquire gaveUp p)"

definition TryAcquire :: "int \<Rightarrow> Pool \<Rightarrow> (EngineError + Lease) \<times> Pool" where
  "TryAcquire now p = lease_of now (tryAcquire p)"

text \<open>\<open>Lease.Release\<close>: \<open>once\<close> lets the first call through only.\<close>

definition LeaseRelease :: "Lease \<Rightarrow> Pool \<Rightarrow> (Lease \<times> Pool) option" where
  "LeaseRelease l p =
     (if ls_released l then Some (l, p)
      else map_option (\<lambda>p'. (l\<lparr>ls_released := True\<rparr>, p')) (pool_release (ls_engine l) p))"

subsection \<open>Calls\<close>

text \<open>What a call of an engine meets: the random bytes, the context before and after, the exchange
  with the process, and the clock when it starts and when it is over.\<close>

record CallEnv =
  ce_draw :: draw
  ce_ctx1 :: "string option"
  ce_exchange :: "Request \<Rightarrow> string + string + Response"
  ce_ctx2 :: "string option"
  ce_begins :: int
  ce_ends :: int

definition engine_started :: "engine_ref \<Rightarrow> Pool \<Rightarrow> bool" where
  "engine_started e p = (case pl_heap p e of None \<Rightarrow> False | Some g \<Rightarrow> eg_started g)"

text \<open>The part the three kinds of call share, up to the deferred \<open>markLeased\<close>.\<close>

definition call_engine :: "CallEnv \<Rightarrow> engine_ref \<Rightarrow> Request \<Rightarrow> Pool \<Rightarrow> (EngineError + Response) \<times> Pool" where
  "call_engine env e req p =
     (let req = prepareRequest (ce_draw env) req;
          p = markExecuting (engine_id e p) req (ce_begins env) p;
          outcome = engine_call (engine_started e p) (ce_draw env) (ce_ctx1 env) (ce_exchange env) (ce_ctx2 env) req
      in (outcome, markLeased (engine_id e p) (ce_ends env) p))"

definition LeaseCall :: "CallEnv \<Rightarrow> Lease \<Rightarrow> Request \<Rightarrow> Pool \<Rightarrow> (EngineError + Response) \<times> Pool" where
  "LeaseCall env l req p =
     (if ls_released l then (Inl ErrLeaseReleased, p) else call_engine env (ls_engine l) req p)"

definition use_engine ::
  "CallEnv \<Rightarrow> Request \<Rightarrow> (EngineError + engine_ref) \<times> Pool \<Rightarrow> ((EngineError + Response) \<times> Pool) option" where
  "use_engine env req res =
     (case res of
        (Inl err, p) \<Rightarrow> Some (Inl err, p)
      | (Inr e, p) \<Rightarrow>
          (case call_engine env e req p of
             (outcome, p) \<Rightarrow> map_option (\<lambda>p'. (outcome, p')) (pool_release e p)))"

definition PoolCall ::
  "string option \<Rightarrow> CallEnv \<Rightarrow> Request \<Rightarrow> Pool \<Rightarrow> ((EngineError + Response) \<times> Pool) option" where
  "PoolCall gaveUp env req p = Option.bind (pool_acquire gaveUp p) (use_engine env req)"

definition TryCall :: "CallEnv \<Rightarrow> Request \<Rightarrow> Pool \<Rightarrow> ((EngineError + Response) \<times> Pool) option" where
  "TryCall env req p = use_engine env req (tryAcquire p)"

end
