(* ===== verification/Engine_Lease_Spec.thy ===== *)
theory Engine_Lease_Spec
  imports Engine_Lease Pool_Spec
begin

text \<open>
  What a user of the pool may rely on. \<open>lender\<close> is the contract: an engine that is lent is missing
  from the idle ones until it is given back, giving back never blocks, and a refusal means
  that none is idle. It is interpreted on the pool, in the states reached without a restart
  under a lease. The calls of the pool are runs of its steps, and leave it as many idle engines.
\<close>

subsection \<open>The contract\<close>

locale lender =
  fixes lend :: "'p \<Rightarrow> ('e \<times> 'p) option" and give_back :: "'e \<Rightarrow> 'p \<Rightarrow> 'p option"
    and idle :: "'p \<Rightarrow> 'e multiset" and ok :: "'p \<Rightarrow> 'e multiset \<Rightarrow> bool"
  assumes lend_Some: "ok p out \<Longrightarrow> lend p = Some (e, p') \<Longrightarrow> idle p = add_mset e (idle p') \<and> ok p' (add_mset e out)"
    and lend_None: "ok p out \<Longrightarrow> lend p = None \<Longrightarrow> idle p = {#}"
    and give_back_Some: "ok p (add_mset e out) \<Longrightarrow>
      \<exists>p'. give_back e p = Some p' \<and> idle p' = add_mset e (idle p) \<and> ok p' out"

text \<open>A sequence of loans and returns: the pool then, and what is still out. \<open>None\<close> means that the
  lender does not answer as the sequence says, or that something is returned that was not lent.\<close>

datatype 'e loan = Lent 'e | Refused | Returned 'e

fun replay ::
  "('p \<Rightarrow> ('e \<times> 'p) option) \<Rightarrow> ('e \<Rightarrow> 'p \<Rightarrow> 'p option) \<Rightarrow> 'e loan list \<Rightarrow> 'p \<times> 'e multiset
     \<Rightarrow> ('p \<times> 'e multiset) option" where
  "replay lend give_back [] s = Some s"
| "replay lend give_back (Lent e # rest) (p, out) =
     (case lend p of
        None \<Rightarrow> None
      | Some (e', p') \<Rightarrow> if e' = e then replay lend give_back rest (p', add_mset e out) else None)"
| "replay lend give_back (Refused # rest) (p, out) =
     (case lend p of None \<Rightarrow> replay lend give_back rest (p, out) | Some _ \<Rightarrow> None)"
| "replay lend give_back (Returned e # rest) (p, out) =
     (if e \<in># out then
        (case give_back e p of None \<Rightarrow> None | Some p' \<Rightarrow> replay lend give_back rest (p', out - {#e#}))
      else None)"

fun outstanding :: "'e loan list \<Rightarrow> 'e \<Rightarrow> int" where
  "outstanding [] e = 0"
| "outstanding (Lent x # rest) e = (if x = e then 1 else 0) + outstanding rest e"
| "outstanding (Refused # rest) e = outstanding rest e"
| "outstanding (Returned x # rest) e = outstanding rest e - (if x = e then 1 else 0)"

context lender
begin

lemma replay_ok:
  assumes "ok p out" and "replay lend give_back ls (p, out) = Some (p', out')"
  shows "ok p' out'" and "idle p + out = idle p' + out'"
    and "int (count out' e) = int (count out e) + outstanding ls e"
proof -
  have "ok p' out' \<and> idle p + out = idle p' + out' \<and> int (count out' e) = int (count out e) + outstanding ls e"
    using assms
  proof (induction ls arbitrary: p out)
    case (Cons l ls)
    show ?case
    proof (cases l)
      case (Lent x)
      with Cons.prems(2) obtain p1 where l: "lend p = Some (x, p1)" "replay lend give_back ls (p1, add_mset x out) = Some (p', out')"
        by (auto split: option.splits if_splits)
      from lend_Some [OF Cons.prems(1) l(1)] Cons.IH [OF _ l(2)] Lent show ?thesis by auto
    next
      case Refused
      with Cons.prems Cons.IH [of p out] show ?thesis by (auto split: option.splits)
    next
      case (Returned x)
      with Cons.prems(2) have x: "x \<in># out" by (auto split: if_splits)
      then obtain rest where rest: "out = add_mset x rest" by (metis multi_member_split)
      from give_back_Some [of p x rest] Cons.prems(1) obtain p1 where
        p1: "give_back x p = Some p1" "idle p1 = add_mset x (idle p)" "ok p1 rest" by (auto simp: rest)
      with Cons.prems(2) Returned have "replay lend give_back ls (p1, rest) = Some (p', out')" by (simp add: rest)
      from Cons.IH [OF p1(3) this] Returned p1(2) show ?thesis by (auto simp: rest)
    qed
  qed simp
  then show "ok p' out'" "idle p + out = idle p' + out'" "int (count out' e) = int (count out e) + outstanding ls e"
    by simp_all
qed

text \<open>Nothing is lent any more once as many are out as there were.\<close>

lemma exhausted:
  assumes "ok p {#}" and "replay lend give_back ls (p, {#}) = Some (p', out')"
    and "\<And>e. int (count (idle p) e) \<le> outstanding ls e"
  shows "lend p' = None"
proof (rule ccontr)
  note R = replay_ok [OF assms(1,2)]
  assume "lend p' \<noteq> None"
  then obtain e p2 where "lend p' = Some (e, p2)" by auto
  with lend_Some [OF R(1)] have "idle p' = add_mset e (idle p2)" by blast
  with R(2) R(3) [of e] assms(3) [of e] show False
    by (auto simp: multiset_eq_iff)
qed

end

subsection \<open>The pool without restarts\<close>

definition lent_out :: "Pool \<Rightarrow> PoolActivity multiset \<Rightarrow> bool" where
  "lent_out p A \<longleftrightarrow> pl_started p \<and> (\<exists>n. reachable_quiet n \<lparr>pw_pool = p, pw_active = A\<rparr>)"

lemma lent_out_step:
  assumes "lent_out p A" and "pool_step \<lparr>pw_pool = p, pw_active = A\<rparr> \<lparr>pw_pool = p', pw_active = A'\<rparr>" and "pl_started p'"
  shows "lent_out p' A'"
proof -
  from assms(1) obtain n where "reachable_quiet n \<lparr>pw_pool = p, pw_active = A\<rparr>" "pl_started p"
    by (auto simp: lent_out_def)
  moreover from this assms(2) have "quiet_step \<lparr>pw_pool = p, pw_active = A\<rparr> \<lparr>pw_pool = p', pw_active = A'\<rparr>"
    by (simp add: quiet_step_def)
  ultimately have "reachable_quiet n \<lparr>pw_pool = p', pw_active = A'\<rparr>"
    unfolding reachable_quiet_def by (blast intro: reach_step)
  with assms(3) show ?thesis by (auto simp: lent_out_def)
qed

lemma idle_engines_set_slot [simp]: "idle_engines (set_slot i st p) = idle_engines p"
  by (cases "pl_idle p") (simp_all add: idle_engines_def set_slot_def)

lemma mark_simps [simp]:
  "idle_engines (markLeased i now p) = idle_engines p" "idle_engines (markExecuting i req now p) = idle_engines p"
  "pl_started (markLeased i now p) = pl_started p" "pl_started (markExecuting i req now p) = pl_started p"
  "engine_id e (markLeased i now p) = engine_id e p" "engine_id e (markExecuting i req now p) = engine_id e p"
  by (simp_all add: markLeased_def markExecuting_def)

lemma lent_out_idle:
  assumes "lent_out p A"
  obtains c es where "pl_idle p = Some c" "pl_chans p c = Some es" "idle_engines p = es"
    "length es + size (in_hand A) = nat (pl_cfgSlots p)" "mset es + in_hand A = mset (pl_engines p)"
proof -
  from assms obtain n where q: "reachable_quiet n \<lparr>pw_pool = p, pw_active = A\<rparr>" and st: "pl_started p"
    by (auto simp: lent_out_def)
  then have ok: "pool_ok \<lparr>pw_pool = p, pw_active = A\<rparr>" using reachable_quiet_ok by (auto simp: quiet_ok_def)
  note E = pool_ok_engines [OF ok] and sum = idle_engines_quiet [OF q]
  from E(1) st obtain c es where c: "pl_idle p = Some c" "pl_chans p c = Some es" by auto
  then have idle: "idle_engines p = es" by (simp add: idle_engines_def)
  with sum st have sum': "mset es + in_hand A = mset (pl_engines p)" by simp
  from arg_cong [OF this, of size] E(4) st have "length es + size (in_hand A) = nat (pl_cfgSlots p)" by simp
  with c idle sum' that show thesis by blast
qed

lemma tryAcquire_lent:
  assumes "lent_out p A"
  shows "case tryAcquire p of
      (Inl err, p') \<Rightarrow> p' = p \<and> err = ErrNoIdleEngine \<and> idle_engines p = []
    | (Inr e, p') \<Rightarrow> idle_engines p = e # idle_engines p' \<and> pl_started p' \<and> lent_out p' (add_mset (Acquired e) A)"
proof -
  from assms have st: "pl_started p" by (simp add: lent_out_def)
  from assms obtain c es where c: "pl_idle p = Some c" "pl_chans p c = Some es" "idle_engines p = es"
    by (rule lent_out_idle)
  have acq: "acquire_chan p = Inr c" using st c(1) by (simp add: acquire_chan_def)
  show ?thesis
  proof (cases es)
    case Nil
    with acq c show ?thesis by (simp add: tryAcquire_def receive_def)
  next
    case (Cons e rest)
    let ?p = "p\<lparr>pl_chans := (pl_chans p)(c \<mapsto> rest)\<rparr>"
    have rec: "receive c p = Some (e, ?p)" using c(2) Cons by (simp add: receive_def)
    have "lent_out p (add_mset (Waiting c) A)"
      by (rule lent_out_step [OF assms _ st]) (use pool_step.acquire [of "\<lparr>pw_pool = p, pw_active = A\<rparr>" c] acq in simp)
    then have "lent_out ?p (add_mset (Acquired e) A)"
      by (rule lent_out_step)
        (use pool_step.received [of "\<lparr>pw_pool = p, pw_active = add_mset (Waiting c) A\<rparr>" c A e ?p] rec st in simp_all)
    with acq rec c Cons st show ?thesis by (simp add: tryAcquire_def idle_engines_def)
  qed
qed

lemma markLeased_lent:
  assumes "lent_out p (add_mset (Acquired e) A)"
  shows "lent_out (markLeased (engine_id e p) now p) (add_mset (Held e) A)"
  by (rule lent_out_step [OF assms])
    (use pool_step.leased [of "\<lparr>pw_pool = p, pw_active = add_mset (Acquired e) A\<rparr>" e A now] assms
      in \<open>simp_all add: lent_out_def\<close>)

lemma call_engine_lent:
  assumes "lent_out p (add_mset a A)" and "a = Acquired e \<or> a = Held e" and "call_engine env e req p = (outcome, p')"
  shows "lent_out p' (add_mset (Held e) A)" and "idle_engines p' = idle_engines p"
proof -
  let ?req = "prepareRequest (ce_draw env) req"
  let ?p = "markExecuting (engine_id e p) ?req (ce_begins env) p"
  have st: "pl_started p" using assms(1) by (simp add: lent_out_def)
  have 1: "lent_out ?p (add_mset (Executing e ?req) A)"
    by (rule lent_out_step [OF assms(1)])
      (use pool_step.call [of "\<lparr>pw_pool = p, pw_active = add_mset a A\<rparr>" a A e ?req "ce_begins env"] assms(2) st
        in simp_all)
  have p': "p' = markLeased (engine_id e ?p) (ce_ends env) ?p" using assms(3) by (simp add: call_engine_def Let_def)
  show "lent_out p' (add_mset (Held e) A)" unfolding p'
    by (rule lent_out_step [OF 1])
      (use pool_step.returned [of "\<lparr>pw_pool = ?p, pw_active = add_mset (Executing e ?req) A\<rparr>" e ?req A "ce_ends env"] st
        in simp_all)
  show "idle_engines p' = idle_engines p" by (simp add: p')
qed

lemma pool_release_lent:
  assumes "lent_out p (add_mset (Held e) A)"
  shows "\<exists>p'. pool_release e p = Some p' \<and> lent_out p' A \<and> idle_engines p' = idle_engines p @ [e]"
proof -
  from assms have st: "pl_started p" by (simp add: lent_out_def)
  from assms obtain c es where c: "pl_idle p = Some c" "pl_chans p c = Some es" "idle_engines p = es"
    and len: "length es + size (in_hand (add_mset (Held e) A)) = nat (pl_cfgSlots p)"
    by (rule lent_out_idle)
  let ?p = "markIdleLocked (engine_id e p) p"
  have rel: "release_locked (engine_id e p) p = (Some c, ?p)" using st c(1) by (simp add: release_locked_def)
  have p: "pl_started ?p" "pl_chans ?p = pl_chans p" "pl_cfgSlots ?p = pl_cfgSlots p" "pl_idle ?p = pl_idle p"
    using st by (simp_all add: markIdleLocked_def set_slot_def)
  have 1: "lent_out ?p (add_mset (Sending c e) A)"
    by (rule lent_out_step [OF assms])
      (use pool_step.release [of "\<lparr>pw_pool = p, pw_active = add_mset (Held e) A\<rparr>" e A c ?p] rel p in simp_all)
  let ?q = "?p\<lparr>pl_chans := (pl_chans ?p)(c \<mapsto> es @ [e])\<rparr>"
  have "int (length es) < pl_cfgSlots p" using len by simp
  then have send: "send c e ?p = Some ?q" using c(2) p by (simp add: send_def)
  have "lent_out ?q A"
    by (rule lent_out_step [OF 1])
      (use pool_step.sent [of "\<lparr>pw_pool = ?p, pw_active = add_mset (Sending c e) A\<rparr>" c e A ?q] send p in simp_all)
  moreover have "idle_engines ?q = es @ [e]" using c(1) p by (simp add: idle_engines_def)
  ultimately show ?thesis using rel send c(3) by (simp add: pool_release_def)
qed

subsection \<open>The pool keeps the contract\<close>

definition pool_lend :: "int \<Rightarrow> Pool \<Rightarrow> (engine_ref \<times> Pool) option" where
  "pool_lend now p =
     (case TryAcquire now p of (Inl err, p') \<Rightarrow> None | (Inr l, p') \<Rightarrow> Some (ls_engine l, p'))"

lemma pool_lend_eq:
  assumes "lent_out p A"
  shows "case pool_lend now p of
      None \<Rightarrow> idle_engines p = []
    | Some (e, p') \<Rightarrow> idle_engines p = e # idle_engines p' \<and> lent_out p' (add_mset (Held e) A)"
proof -
  obtain res p1 where res: "tryAcquire p = (res, p1)" by (cases "tryAcquire p")
  show ?thesis
  proof (cases res)
    case (Inl err)
    with tryAcquire_lent [OF assms] res show ?thesis by (simp add: pool_lend_def TryAcquire_def lease_of_def)
  next
    case (Inr e)
    with tryAcquire_lent [OF assms] res have *: "idle_engines p = e # idle_engines p1" "lent_out p1 (add_mset (Acquired e) A)"
      by simp_all
    with Inr res markLeased_lent [OF *(2), of now] show ?thesis
      by (simp add: pool_lend_def TryAcquire_def lease_of_def)
  qed
qed

interpretation leases: lender "pool_lend now" pool_release "\<lambda>p. mset (idle_engines p)"
  "\<lambda>p out. lent_out p (image_mset Held out + A)" for now A
proof unfold_locales
  fix p out e p'
  assume ok: "lent_out p (image_mset Held out + A)"
  show "mset (idle_engines p) = add_mset e (mset (idle_engines p')) \<and> lent_out p' (image_mset Held (add_mset e out) + A)"
    if "pool_lend now p = Some (e, p')"
    using pool_lend_eq [OF ok, of now] that by simp
  show "mset (idle_engines p) = {#}" if "pool_lend now p = None"
    using pool_lend_eq [OF ok, of now] that by simp
next
  fix p e out
  assume "lent_out p (image_mset Held (add_mset e out) + A)"
  then have "lent_out p (add_mset (Held e) (image_mset Held out + A))" by simp
  from pool_release_lent [OF this] show "\<exists>p'. pool_release e p = Some p'
      \<and> mset (idle_engines p') = add_mset e (mset (idle_engines p)) \<and> lent_out p' (image_mset Held out + A)"
    by auto
qed

subsection \<open>Calls\<close>

lemma lent_out_started:
  assumes "lent_out p A" and "e \<in># mset (idle_engines p) + in_hand A"
  shows "engine_started e p"
proof -
  from assms(1) obtain n where q: "reachable_quiet n \<lparr>pw_pool = p, pw_active = A\<rparr>" "pl_started p"
    by (auto simp: lent_out_def)
  then have ok: "pool_ok \<lparr>pw_pool = p, pw_active = A\<rparr>" using reachable_quiet_ok by (auto simp: quiet_ok_def)
  from lent_out_idle [OF assms(1)] assms(2) have "e \<in> set (pl_engines p)" by (metis set_mset_mset)
  with pool_ok_engines(5) [OF ok] q(2) obtain i where "pl_heap p e = Some \<lparr>eg_id = int i, eg_started = True\<rparr>"
    by auto
  then show ?thesis by (simp add: engine_started_def)
qed

lemma use_engine_lent:
  assumes "lent_out p (add_mset (Acquired e) A)"
  shows "\<exists>p'. use_engine env req (Inr e, p)
      = Some (engine_call True (ce_draw env) (ce_ctx1 env) (ce_exchange env) (ce_ctx2 env) (prepareRequest (ce_draw env) req), p')
    \<and> lent_out p' A \<and> idle_engines p' = idle_engines p @ [e]"
proof -
  obtain outcome p1 where C: "call_engine env e req p = (outcome, p1)" by (cases "call_engine env e req p")
  from call_engine_lent [OF assms _ C] have p1: "lent_out p1 (add_mset (Held e) A)" "idle_engines p1 = idle_engines p" by simp_all
  have "engine_started e p" by (rule lent_out_started [OF assms]) simp
  then have "engine_started e (markExecuting i r now p)" for i r now
    by (simp add: engine_started_def markExecuting_def set_slot_def)
  with C have "outcome = engine_call True (ce_draw env) (ce_ctx1 env) (ce_exchange env) (ce_ctx2 env) (prepareRequest (ce_draw env) req)"
    by (auto simp: call_engine_def Let_def)
  with pool_release_lent [OF p1(1)] p1(2) C show ?thesis by (auto simp: use_engine_def)
qed

text \<open>
  C33. A call through the pool returns, and returns the engine. In every state of a started pool that is
  not restarted under a lease, \<open>TryCall\<close> ends with "no idle engine" and the pool as it was, or with
  what an engine that runs answered to the prepared request, and the engine it took from the head
  of the idle queue is back at its tail, whatever the answer was; the other users of the pool see
  the same number of idle engines as before.
\<close>

theorem TryCall_returns_engine:
  assumes "lent_out p A"
  shows "\<exists>outcome p'. TryCall env req p = Some (outcome, p') \<and> lent_out p' A
    \<and> (if idle_engines p = [] then outcome = Inl ErrNoIdleEngine \<and> p' = p
       else outcome = engine_call True (ce_draw env) (ce_ctx1 env) (ce_exchange env) (ce_ctx2 env)
              (prepareRequest (ce_draw env) req)
         \<and> idle_engines p' = tl (idle_engines p) @ [hd (idle_engines p)])"
proof -
  obtain res p1 where res: "tryAcquire p = (res, p1)" by (cases "tryAcquire p")
  show ?thesis
  proof (cases res)
    case (Inl err)
    with tryAcquire_lent [OF assms] res assms show ?thesis by (simp add: TryCall_def use_engine_def)
  next
    case (Inr e)
    with tryAcquire_lent [OF assms] res have *: "idle_engines p = e # idle_engines p1" "lent_out p1 (add_mset (Acquired e) A)"
      by simp_all
    from use_engine_lent [OF *(2), of env req] *(1) Inr res show ?thesis by (auto simp: TryCall_def)
  qed
qed

lemma ex_started_lent: "lent_out ex_started {#}"
proof -
  have st: "pl_started ex_started" by code_simp
  have "pool_step (fresh_pool 2) \<lparr>pw_pool = ex_started, pw_active = {#}\<rparr>"
    using pool_step.start [of None "\<lambda>_. None" "\<lambda>_. None" "fresh_pool 2" _ ex_started]
    by (simp add: ex_started_def fresh_pool_def prod_eq_iff)
  then have "quiet_step (fresh_pool 2) \<lparr>pw_pool = ex_started, pw_active = {#}\<rparr>"
    by (simp add: quiet_step_def fresh_pool_def)
  then have "reachable_quiet 2 \<lparr>pw_pool = ex_started, pw_active = {#}\<rparr>"
    unfolding reachable_quiet_def by (rule reach_step [OF reach_init])
  with st show ?thesis by (auto simp: lent_out_def)
qed

lemma ex_calling_lent: "lent_out ex_executing {#Executing 0 ex_ping#}"
  using ex_calling_reachable ex_calling_state(1) by (auto simp: lent_out_def ex_calling_def)

theorem TryCall_returns_engine_witness:
  "\<exists>outcome p'. TryCall \<lparr>ce_draw = Some [1], ce_ctx1 = None, ce_exchange = \<lambda>r. Inl ''EOF'', ce_ctx2 = None, ce_begins = 30, ce_ends = 40\<rparr>
      ex_ping ex_executing = Some (outcome, p') \<and> idle_engines p' = [1]"
  using TryCall_returns_engine [OF ex_calling_lent] ex_calling_state(4) by fastforce

text \<open>What a lender keeps from the pool: an engine that is in someone's hands is not idle, and when every
  engine is, the four ways to ask for one find none.\<close>

lemma lent_out_later:
  assumes "lent_out p A" and "quiet_step\<^sup>*\<^sup>* \<lparr>pw_pool = p, pw_active = A\<rparr> \<lparr>pw_pool = q, pw_active = B\<rparr>" and "pl_started q"
  shows "lent_out q B"
proof -
  from assms(1) obtain n where "reachable_quiet n \<lparr>pw_pool = p, pw_active = A\<rparr>" by (auto simp: lent_out_def)
  then have "reachable_from (fresh_pool n) quiet_step \<lparr>pw_pool = p, pw_active = A\<rparr>" by (simp add: reachable_quiet_def)
  with assms(2) have "reachable_from (fresh_pool n) quiet_step \<lparr>pw_pool = q, pw_active = B\<rparr>"
    by (induction rule: rtranclp_induct) (auto intro: reach_step)
  with assms(3) show ?thesis by (auto simp: lent_out_def reachable_quiet_def)
qed

lemma held_not_idle:
  assumes "lent_out q (image_mset Held lost + B)"
  shows "mset (idle_engines q) + lost \<subseteq># mset (pl_engines q)"
    and "int (size lost) = pl_cfgSlots q \<Longrightarrow> idle_engines q = []"
proof -
  have hand: "in_hand (image_mset Held lost + B) = lost + in_hand B"
    by (induction lost) (simp_all add: in_hand_def)
  from assms obtain c es where c: "idle_engines q = es" "length es + size (lost + in_hand B) = nat (pl_cfgSlots q)"
    "mset es + (lost + in_hand B) = mset (pl_engines q)" unfolding hand [symmetric] by (rule lent_out_idle)
  from c(1,3) show "mset (idle_engines q) + lost \<subseteq># mset (pl_engines q)"
    by (metis add.assoc mset_subset_eq_add_left)
  show "idle_engines q = []" if "int (size lost) = pl_cfgSlots q"
  proof -
    from that have "nat (pl_cfgSlots q) = size lost" by linarith
    with c(1,2) show ?thesis by simp
  qed
qed

lemma starved_pool:
  assumes "lent_out q B" and "idle_engines q = []"
  shows "TryAcquire now q = (Inl ErrNoIdleEngine, q)" "TryCall cenv req q = Some (Inl ErrNoIdleEngine, q)"
    "Acquire None now q = None" "Acquire (Some err) now q = Some (Inl (EngineContext err), q)"
    "PoolCall None cenv req q = None"
proof -
  from assms(1) obtain c es where c: "pl_idle q = Some c" "pl_chans q c = Some es" "idle_engines q = es"
    by (rule lent_out_idle)
  have acq: "acquire_chan q = Inr c" "receive c q = None"
    using c assms by (simp_all add: acquire_chan_def receive_def lent_out_def)
  then show "TryAcquire now q = (Inl ErrNoIdleEngine, q)" "TryCall cenv req q = Some (Inl ErrNoIdleEngine, q)"
    "Acquire None now q = None" "Acquire (Some err) now q = Some (Inl (EngineContext err), q)"
    "PoolCall None cenv req q = None"
    by (simp_all add: TryAcquire_def TryCall_def Acquire_def PoolCall_def pool_acquire_def tryAcquire_def
        lease_of_def use_engine_def)
qed

text \<open>A lease is given back once, however often \<open>Release\<close> is called, and refuses calls after it.\<close>

lemma LeaseRelease_once:
  assumes "LeaseRelease l p = Some (l', p')"
  shows "LeaseRelease l' q = Some (l', q)" and "LeaseCall env l' req q = (Inl ErrLeaseReleased, q)"
  using assms by (auto simp: LeaseRelease_def LeaseCall_def split: if_splits)

end
