(* ===== verification/Source_Engines.thy ===== *)
theory Source_Engines
  imports Engine_Lease_Spec Source_Spec
begin

text \<open>
  The source worker on a real pool: its calls of \<open>Acquire\<close>, \<open>TryAcquire\<close> and \<open>Release\<close> as loans of
  the pool's contract, and what a lease it never gives back means for the worker.
\<close>

fun loans_of :: "SourceCall list \<Rightarrow> engine_ref loan list" where
  "loans_of [] = []"
| "loans_of (Acquired (Inr e) # cs) = Lent e # loans_of cs"
| "loans_of (TryAcquired (Inr e) # cs) = Lent e # loans_of cs"
| "loans_of (TryAcquired (Inl err) # cs) = Refused # loans_of cs"
| "loans_of (Released e # cs) = Returned e # loans_of cs"
| "loans_of (c # cs) = loans_of cs"

lemma outstanding_loans: "outstanding (loans_of cs) e = (\<Sum>c\<leftarrow>cs. lease_delta c e)"
  by (induction cs rule: loans_of.induct) simp_all

lemma leases_multiset: "leases al e = int (count (mset (map (isw_lease \<circ> snd) al)) e)"
  by (induction al) auto

text \<open>The pool answered the calls of a run as the run recorded them, starting with nothing lent.\<close>

definition pool_served :: "int \<Rightarrow> Pool \<Rightarrow> SourceWorld \<Rightarrow> Pool \<Rightarrow> engine_ref multiset \<Rightarrow> bool" where
  "pool_served now p W p' out \<longleftrightarrow>
     replay (pool_lend now) pool_release (loans_of (sw_calls W)) (p, {#}) = Some (p', out)"

lemma pool_served_conserves:
  assumes "lent_out p A" and "pool_served now p W p' out"
  shows "lent_out p' (image_mset Held out + A)" "mset (idle_engines p) = mset (idle_engines p') + out"
    "int (count out e) = balance W e"
  using leases.replay_ok [of p "{#}" A now] assms
  by (simp_all add: pool_served_def outstanding_loans balance_def)

text \<open>
  C16. An "already exists" answer costs the pool engines for good. Let the source worker, holding no
  lease, plan a split video whose job Entry already has, on a pool that serves its calls. It
  dispatches nothing and reports success. The engines it leased while planning are missing from the
  pool's idle ones, and so they are in every later state of the running pool in which those
  leases have not been released, which nothing does, since the runner has dropped them: whatever the
  others acquire and give back, none of these engines is idle again. If they are all the engines of
  the pool, every later \<open>TryAcquire\<close> and \<open>TryCall\<close> fails, and every \<open>Acquire\<close> and \<open>Call\<close> blocks until
  its context ends.
\<close>

theorem already_exists_starves:
  assumes "plan_segments env (spt_Segments task) [] [] W = (iw, ts, W1)"
    and "wr_byID (en_workers E) (ws_workerID (sw_state W)) = Some sw"
    and "findJobByIdentity (jobIdentityKey (w_Address sw) (spt_VideoName task)) (en_manager E) = Some job"
    and "j_ID job \<noteq> []"
    and "se_create env (calls_made W1)
      = read_create (over_http (fst (Create (Some (job_request (ws_workerID (sw_state W)) task ts)) ev E)))"
    and "bind_CreateJobRequest (job_request (ws_workerID (sw_state W)) task ts)"
    and "spt_Segments task \<noteq> []" and "distinct (map sf_SegmentIndex (spt_Segments task))"
    and "\<forall>e. balance W e = 0" and "registerAndDispatch env task W = (ok, W')"
    and "lent_out p A" and "pool_served now p W' p' out"
  shows "ok \<and> dispatched W' = dispatched W \<and> out = mset (map (isw_lease \<circ> snd) iw)
    \<and> mset (idle_engines p) = mset (idle_engines p') + out
    \<and> (quiet_step\<^sup>*\<^sup>* \<lparr>pw_pool = p', pw_active = image_mset Held out + A\<rparr>
          \<lparr>pw_pool = q, pw_active = image_mset Held out + B\<rparr> \<and> pl_started q \<longrightarrow>
        mset (idle_engines q) + out \<subseteq># mset (pl_engines q)
        \<and> (int (length iw) = pl_cfgSlots q \<longrightarrow>
            TryAcquire now' q = (Inl ErrNoIdleEngine, q) \<and> TryCall cenv req q = Some (Inl ErrNoIdleEngine, q)
            \<and> Acquire None now' q = None \<and> Acquire (Some err) now' q = Some (Inl (EngineContext err), q)
            \<and> PoolCall None cenv req q = None))"
proof -
  from already_exists_leaks [OF assms(1-8)] assms(9,10) have
    run: "ok" "dispatched W' = dispatched W" "balance W' e = leases iw e" for e by auto
  note P = pool_served_conserves [OF assms(11,12)]
  have out: "out = mset (map (isw_lease \<circ> snd) iw)"
    using P(3) run(3) by (intro multiset_eqI) (simp add: leases_multiset)
  have "mset (idle_engines q) + out \<subseteq># mset (pl_engines q)"
    "int (length iw) = pl_cfgSlots q \<Longrightarrow> idle_engines q = []" "lent_out q (image_mset Held out + B)"
    if "quiet_step\<^sup>*\<^sup>* \<lparr>pw_pool = p', pw_active = image_mset Held out + A\<rparr>
      \<lparr>pw_pool = q, pw_active = image_mset Held out + B\<rparr>" "pl_started q"
    using held_not_idle [OF lent_out_later [OF P(1) that]] lent_out_later [OF P(1) that] by (simp_all add: out)
  with run(1,2) out P(2) starved_pool show ?thesis by meson
qed

text \<open>A pool of two idle engines, which are both leased for the two segments of a video Entry knows.\<close>

definition ex_dup_plan :: "CreateJobTaskRequest list" where
  "ex_dup_plan = [\<lparr>cjt_SegmentIndex = 0, cjt_Mode = TaskProcessingModeInternal\<rparr>,
                  \<lparr>cjt_SegmentIndex = 1, cjt_Mode = TaskProcessingModeInternal\<rparr>]"

definition ex_dup_create :: "Entry \<Rightarrow> CreateJobResponse reply \<times> Entry" where
  "ex_dup_create E = Create (Some (job_request ''a'' ex_split ex_dup_plan)) (ex_env (\<lambda>n. Some [of_nat n])) E"

definition ex_pool_env :: "Entry \<Rightarrow> SourceEnv" where
  "ex_pool_env E =
     (ex_source_env E)\<lparr>se_tryAcquire := (\<lambda>n. Inr n), se_create := (\<lambda>n. read_create (over_http (fst (ex_dup_create E))))\<rparr>"

lemma ex_pool_plan:
  "\<exists>iw W1. plan_segments (ex_pool_env E) (spt_Segments ex_split) [] [] ex_source = (iw, ex_dup_plan, W1)
     \<and> length iw = 2"
  by (simp add: ex_split_def ex_pool_env_def ex_source_env_def ex_source_def ex_dup_plan_def ex_segment_def did_def Let_def)

theorem already_exists_starves_witness:
  "\<exists>W' p' out. registerAndDispatch (ex_pool_env (snd (ex_create ex_entry))) ex_split ex_source = (True, W')
     \<and> pool_served 30 ex_started W' p' out \<and> Acquire None 40 p' = None
     \<and> TryCall \<lparr>ce_draw = None, ce_ctx1 = None, ce_exchange = \<lambda>r. Inl ''EOF'', ce_ctx2 = None, ce_begins = 40, ce_ends = 50\<rparr>
         ex_ping p' = Some (Inl ErrNoIdleEngine, p')"
proof -
  let ?E = "snd (ex_create ex_entry)"
  obtain iw W1 where P: "plan_segments (ex_pool_env ?E) (spt_Segments ex_split) [] [] ex_source = (iw, ex_dup_plan, W1)"
    and iw: "length iw = 2"
    using ex_pool_plan by blast
  have "(case wr_byID (en_workers ?E) ''a'' of None \<Rightarrow> False | Some sw \<Rightarrow> w_Address sw = ''a:1'')"
    by code_simp
  then obtain sw where sw: "wr_byID (en_workers ?E) ''a'' = Some sw" "w_Address sw = ''a:1''"
    by (auto split: option.splits)
  have "(case findJobByIdentity (jobIdentityKey ''a:1'' ''v'') (en_manager ?E) of None \<Rightarrow> False | Some j \<Rightarrow> j_ID j \<noteq> [])"
    by code_simp
  then obtain j where j: "findJobByIdentity (jobIdentityKey ''a:1'' ''v'') (en_manager ?E) = Some j" "j_ID j \<noteq> []"
    by (auto split: option.splits)
  have bind: "bind_CreateJobRequest (job_request ''a'' ex_split ex_dup_plan)"
    by (simp add: bind_CreateJobRequest_def job_request_def ex_split_def in64_def)
  obtain ok W' where R: "registerAndDispatch (ex_pool_env ?E) ex_split ex_source = (ok, W')" by (metis prod.exhaust)
  have "(case replay (pool_lend 30) pool_release
      (loans_of (sw_calls (snd (registerAndDispatch (ex_pool_env ?E) ex_split ex_source)))) (ex_started, {#}) of
      None \<Rightarrow> False | Some (p', out) \<Rightarrow> pl_cfgSlots p' = 2 \<and> pl_started p')"
    by code_simp
  with R obtain p' out where S: "pool_served 30 ex_started W' p' out" and p': "int (length iw) = pl_cfgSlots p'" "pl_started p'"
    using iw by (auto simp: pool_served_def split: option.splits)
  have cr: "se_create (ex_pool_env ?E) n = read_create (over_http (fst (Create (Some (job_request ''a'' ex_split ex_dup_plan))
      (ex_env (\<lambda>n. Some [of_nat n])) ?E)))" for n
    by (simp add: ex_pool_env_def ex_dup_create_def)
  from already_exists_starves [OF P, where E = ?E and sw = sw and job = j and ok = ok and W' = W'
      and p = ex_started and A = "{#}" and now = 30 and p' = p' and out = out and now' = 40 and err = "''gone''" and q = p' and B = "{#}"
      and ev = "ex_env (\<lambda>n. Some [of_nat n])" and req = ex_ping
      and cenv = "\<lparr>ce_draw = None, ce_ctx1 = None, ce_exchange = \<lambda>r. Inl ''EOF'', ce_ctx2 = None, ce_begins = 40, ce_ends = 50\<rparr>"]
    sw j bind R S ex_started_lent cr p'
  show ?thesis by (auto simp: ex_source_simps)
qed

end
