(* ===== verification/Entry_Server.thy ===== *)
theory Entry_Server
  imports Registry_Reserve
begin

text \<open>
  \<open>entry-server/internal/server/server.go\<close>: the server around the registry, with its two tickers.
  Time is explicit: \<open>sv_now\<close> is the clock, \<open>sv_lastTick\<close> when the expiry checker last ran (or
  was started). A ticker fires no later than its interval after the last time; the registry is
  otherwise changed by requests, at the time the clock shows.
\<close>

subsection \<open>The server\<close>

record HeartbeatConfig =
  hc_Timeout :: int
  hc_CheckInterval :: int

record Server =
  sr_workerRegistry :: WorkerRegistry
  sr_heartbeatConfig :: HeartbeatConfig
  sr_splitPolicy :: SplitPolicy

definition NewServer :: "WorkerRegistry \<Rightarrow> HeartbeatConfig \<Rightarrow> SplitPolicy \<Rightarrow> Server" where
  "NewServer registry heartbeatConfig splitPolicy =
     \<lparr>sr_workerRegistry = registry, sr_heartbeatConfig = heartbeatConfig, sr_splitPolicy = splitPolicy\<rparr>"

text \<open>Whether the two goroutines are started.\<close>

definition startWorkerExpiryChecker :: "HeartbeatConfig \<Rightarrow> bool" where
  "startWorkerExpiryChecker c \<longleftrightarrow> \<not> (hc_Timeout c \<le> 0 \<or> hc_CheckInterval c \<le> 0)"

definition startBackpressureRefresher :: "HeartbeatConfig \<Rightarrow> bool" where
  "startBackpressureRefresher c \<longleftrightarrow> \<not> hc_CheckInterval c \<le> 0"

text \<open>\<open>Run\<close>, up to listening: the refresher runs once at once.\<close>

definition RunServer :: "string list \<Rightarrow> Server \<Rightarrow> Server" where
  "RunServer ord s =
     (if startBackpressureRefresher (sr_heartbeatConfig s)
      then s\<lparr>sr_workerRegistry := snd (RefreshBackpressureStatus ord (sr_workerRegistry s))\<rparr> else s)"

subsection \<open>The server in time\<close>

record ServerWorld =
  sv_registry :: WorkerRegistry
  sv_now :: int
  sv_lastTick :: int

definition start_world :: "int \<Rightarrow> string list \<Rightarrow> Server \<Rightarrow> ServerWorld" where
  "start_world now ord s =
     \<lparr>sv_registry = sr_workerRegistry (RunServer ord s), sv_now = now, sv_lastTick = now\<rparr>"

text \<open>The calls that schedule work: reservations, releases and the free disk a worker observed.\<close>

inductive schedule_step :: "WorkerRegistry \<Rightarrow> WorkerRegistry \<Rightarrow> bool" where
  pick_many: "schedule_step r (snd (PickWorkersForReservation t c ords clock r))"
| reserve: "schedule_step r (snd (ReserveWorkerSlots k t c now r))"
| reserve_least: "schedule_step r (snd (ReserveLeastBusyWorker t fb ord now r))"
| pick_disk: "schedule_step r (snd (PickWorkerForDiskReservation t d ord now r))"
| release_many: "schedule_step r (ReleaseReservations ks now r)"
| release_one: "schedule_step r (ReleaseReservation k d now r)"
| observe_disk: "in64 d \<Longrightarrow> schedule_step r (UpdateWorkerObservedDiskFree k d now r)"

inductive server_step :: "HeartbeatConfig \<Rightarrow> ServerWorld \<Rightarrow> ServerWorld \<Rightarrow> bool" for c where
  registers:
    "bind_RegisterWorkerRequest req \<Longrightarrow> RegisterWorker req (sv_now W) ds (sv_registry W) = Some (res, r')
     \<Longrightarrow> server_step c W (W\<lparr>sv_registry := r'\<rparr>)"
| beats:
    "bind_HeartbeatWorkerRequest hreq
     \<Longrightarrow> server_step c W (W\<lparr>sv_registry := snd (HeartbeatWorker hreq (sv_now W) (sv_registry W))\<rparr>)"
| schedules: "schedule_step (sv_registry W) r' \<Longrightarrow> server_step c W (W\<lparr>sv_registry := r'\<rparr>)"
| checks:
    "startWorkerExpiryChecker c \<Longrightarrow> enumerates (wr_byID (sv_registry W)) ord
     \<Longrightarrow> server_step c W
           (W\<lparr>sv_registry := snd (MarkExpiredWorkers (hc_Timeout c) ord (sv_now W) (sv_registry W)),
             sv_lastTick := sv_now W\<rparr>)"
| refreshes:
    "startBackpressureRefresher c
     \<Longrightarrow> server_step c W (W\<lparr>sv_registry := snd (RefreshBackpressureStatus ord (sv_registry W))\<rparr>)"
| waits:
    "sv_now W \<le> t \<Longrightarrow> t < 2 ^ 63
     \<Longrightarrow> (startWorkerExpiryChecker c \<longrightarrow> t \<le> sv_lastTick W + hc_CheckInterval c)
     \<Longrightarrow> server_step c W (W\<lparr>sv_now := t\<rparr>)"

subsection \<open>What scheduling leaves alone\<close>

text \<open>A worker is as alive as before: the same workers are known, online and heard from as before.\<close>

definition as_alive :: "WorkerRegistry \<Rightarrow> WorkerRegistry \<Rightarrow> bool" where
  "as_alive r r' \<longleftrightarrow> (\<forall>k. map_option (\<lambda>w. (w_Online w, w_LastHeartbeatAt w)) (wr_byID r' k)
     = map_option (\<lambda>w. (w_Online w, w_LastHeartbeatAt w)) (wr_byID r k))"

lemma as_alive_refl [simp]: "as_alive r r"
  by (simp add: as_alive_def)

lemma as_alive_trans: "as_alive r r' \<Longrightarrow> as_alive r' r'' \<Longrightarrow> as_alive r r''"
  by (simp add: as_alive_def)

lemma as_alive_set:
  "wr_byID r k = Some w \<Longrightarrow> w_Online w' = w_Online w \<Longrightarrow> w_LastHeartbeatAt w' = w_LastHeartbeatAt w
   \<Longrightarrow> as_alive r (set_worker r k w')"
  by (simp add: as_alive_def)

lemma as_alive_with:
  "(\<And>w. w_Online (f w) = w_Online w \<and> w_LastHeartbeatAt (f w) = w_LastHeartbeatAt w) \<Longrightarrow> as_alive r (with_worker k f r)"
  by (simp add: with_worker_def as_alive_set split: option.split)

lemma as_alive_rollback: "as_alive r (rollback_selected ks r)"
proof (induction ks arbitrary: r)
  case (Cons k ks)
  have "as_alive r (with_worker k unreserve_slot r)" by (rule as_alive_with) (simp add: unreserve_slot_def)
  with Cons show ?case by (auto intro: as_alive_trans)
qed simp

lemma as_alive_pick_workers:
  assumes "wf_registry r"
  shows "as_alive r (snd (pick_workers_loop t n ord clock selected r))"
  using assms
proof (induction n arbitrary: r selected)
  case (Suc n)
  show ?case
  proof (cases "fold (pick_free_step t) (List.map_filter (wr_byID r) (ord n)) None")
    case None
    then show ?thesis by (simp add: as_alive_rollback Let_def)
  next
    case (Some best)
    then have b: "wr_byID r (w_ID best) = Some best"
      using map_filter_worker [OF Suc.prems] by (auto simp: fold_pick_free dest!: free.scan_Some(2))
    have "as_alive r (set_worker r (w_ID best) (reserve_slots 1 (clock n) best))"
      by (rule as_alive_set [OF b]) (simp_all add: reserve_slots_def)
    moreover have "wf_registry (set_worker r (w_ID best) (reserve_slots 1 (clock n) best))"
      by (rule wf_reserve_slots_of [OF Suc.prems b])
    ultimately show ?thesis using Suc.IH Some by (auto intro: as_alive_trans)
  qed
qed simp

lemma as_alive_ReserveWorkerSlots: "as_alive r (snd (ReserveWorkerSlots k t c now r))"
  by (cases "wr_byID r k") (simp_all add: ReserveWorkerSlots_def Let_def as_alive_set reserve_slots_def)

lemma as_alive_ReserveLeastBusyWorker:
  "wf_registry r \<Longrightarrow> as_alive r (snd (ReserveLeastBusyWorker t fb ord now r))"
  by (cases "select_least_busy t fb ord r")
    (simp_all add: ReserveLeastBusyWorker_def Let_def as_alive_set [OF select_least_busy_mem(1)] reserve_slots_def)

lemma as_alive_PickWorkerForDiskReservation:
  "wf_registry r \<Longrightarrow> as_alive r (snd (PickWorkerForDiskReservation t d ord now r))"
  by (cases "fold (pick_disk_step t d) (List.map_filter (wr_byID r) ord) None")
    (simp_all add: PickWorkerForDiskReservation_def Let_def as_alive_set [OF pick_disk_mem(1)] reserve_disk_def)

lemma as_alive_ReleaseReservations: "as_alive r (ReleaseReservations ks now r)"
proof (induction ks now r rule: ReleaseReservations.induct)
  case (2 k ks now r)
  have "as_alive r (with_worker k (release_worker now) r)"
    by (rule as_alive_with) (simp add: release_worker_def Let_def)
  with 2 show ?case by (auto intro: as_alive_trans)
qed simp

lemma as_alive_ReleaseReservation: "as_alive r (ReleaseReservation k d now r)"
  unfolding ReleaseReservation_def
  by (rule as_alive_with) (simp add: release_worker_def release_disk_def Let_def)

lemma as_alive_UpdateWorkerObservedDiskFree: "as_alive r (UpdateWorkerObservedDiskFree k d now r)"
  unfolding UpdateWorkerObservedDiskFree_def by (rule as_alive_with) simp

lemma as_alive_RefreshBackpressureStatus: "as_alive r (snd (RefreshBackpressureStatus ord r))"
  by (simp add: RefreshBackpressureStatus_def Let_def as_alive_def split: prod.splits)

inductive_cases schedule_stepE: "schedule_step r r'"

lemma schedule_step_as_alive: "schedule_step r r' \<Longrightarrow> wf_registry r \<Longrightarrow> as_alive r r'"
  by (erule schedule_stepE)
    (simp_all add: as_alive_ReserveWorkerSlots as_alive_ReserveLeastBusyWorker as_alive_ReleaseReservations
      as_alive_PickWorkerForDiskReservation as_alive_ReleaseReservation as_alive_pick_workers
      as_alive_UpdateWorkerObservedDiskFree PickWorkersForReservation_def)

lemma schedule_step_wf: "schedule_step r r' \<Longrightarrow> wf_registry r \<Longrightarrow> wf_registry r'"
  by (erule schedule_stepE) (auto intro: wf_registry_ops)

subsection \<open>The two bounds on a worker's silence\<close>

text \<open>A worker that is marked online was heard from recently when the checker last looked; one that
  is not was silent for longer than the timeout by then.\<close>

definition heard :: "HeartbeatConfig \<Rightarrow> int \<Rightarrow> int \<Rightarrow> bool \<Rightarrow> int \<Rightarrow> bool" where
  "heard c now tick online beat \<longleftrightarrow> 0 \<le> beat \<and> beat \<le> now
     \<and> (if startWorkerExpiryChecker c
        then if online then tick - beat \<le> hc_Timeout c else hc_Timeout c < tick - beat
        else online)"

definition all_heard :: "HeartbeatConfig \<Rightarrow> int \<Rightarrow> int \<Rightarrow> WorkerRegistry \<Rightarrow> bool" where
  "all_heard c now tick r \<longleftrightarrow>
     (\<forall>k w. wr_byID r k = Some w \<longrightarrow> heard c now tick (w_Online w) (w_LastHeartbeatAt w))"

definition on_time :: "HeartbeatConfig \<Rightarrow> ServerWorld \<Rightarrow> bool" where
  "on_time c W \<longleftrightarrow> wf_registry (sv_registry W) \<and> 0 \<le> sv_lastTick W \<and> sv_lastTick W \<le> sv_now W \<and> sv_now W < 2 ^ 63
     \<and> (startWorkerExpiryChecker c \<longrightarrow> sv_now W \<le> sv_lastTick W + hc_CheckInterval c)
     \<and> all_heard c (sv_now W) (sv_lastTick W) (sv_registry W)"

lemma all_heard_as_alive: "as_alive r r' \<Longrightarrow> all_heard c now tick r \<Longrightarrow> all_heard c now tick r'"
proof (unfold all_heard_def, intro allI impI)
  fix k w'
  assume alive: "as_alive r r'" and heard: "\<forall>k w. wr_byID r k = Some w \<longrightarrow> heard c now tick (w_Online w) (w_LastHeartbeatAt w)"
    and w': "wr_byID r' k = Some w'"
  from alive have "map_option (\<lambda>w. (w_Online w, w_LastHeartbeatAt w)) (wr_byID r' k)
      = map_option (\<lambda>w. (w_Online w, w_LastHeartbeatAt w)) (wr_byID r k)"
    unfolding as_alive_def by (rule spec)
  with w' obtain w where "wr_byID r k = Some w" and same: "w_Online w = w_Online w'" "w_LastHeartbeatAt w = w_LastHeartbeatAt w'"
    by (cases "wr_byID r k") auto
  with heard have "heard c now tick (w_Online w) (w_LastHeartbeatAt w)" by blast
  with same show "heard c now tick (w_Online w') (w_LastHeartbeatAt w')" by simp
qed

lemma all_heard_set:
  "all_heard c now tick r \<Longrightarrow> heard c now tick (w_Online w) (w_LastHeartbeatAt w)
     \<Longrightarrow> all_heard c now tick (set_worker r k w)"
  by (simp add: all_heard_def)

lemma heard_now: "0 \<le> tick \<Longrightarrow> tick \<le> now \<Longrightarrow> heard c now tick True now"
  by (auto simp: heard_def startWorkerExpiryChecker_def)

lemma all_heard_later: "all_heard c now tick r \<Longrightarrow> now \<le> now' \<Longrightarrow> all_heard c now' tick r"
  by (fastforce simp: all_heard_def heard_def)

lemma all_heard_HeartbeatWorker:
  assumes "all_heard c now tick r" and "0 \<le> tick" and "tick \<le> now"
  shows "all_heard c now tick (snd (HeartbeatWorker req now r))"
proof (cases "validateHeartbeatWorkerRequest req = None \<and> wr_byID r (hwr_WorkerID req) \<noteq> None")
  case False
  with assms show ?thesis by (auto simp: HeartbeatWorker_def split: option.split)
next
  case True
  then obtain w where "wr_byID r (hwr_WorkerID req) = Some w" by auto
  with True show ?thesis
    by (simp add: HeartbeatWorker_def all_heard_set [OF assms(1)] heard_now [OF assms(2,3)])
qed

lemma all_heard_RegisterWorker:
  assumes "all_heard c now tick r" and "0 \<le> tick" and "tick \<le> now"
    and "RegisterWorker req now ds r = Some (res, r')"
  shows "all_heard c now tick r'"
proof (cases "validateRegisterWorkerRequest req")
  case (Some e)
  with assms show ?thesis by (simp add: RegisterWorker_def)
next
  case valid: None
  show ?thesis
  proof (cases "wr_idByAddr r (rwr_Address req)")
    case (Some k)
    show ?thesis
    proof (cases "wr_byID r k")
      case None
      with assms valid Some show ?thesis by (simp add: RegisterWorker_def)
    next
      case w: (Some w)
      from assms(4) valid Some w obtain w' where "r' = set_worker r k w'"
        and "w_Online w'" and "w_LastHeartbeatAt w' = now"
        by (auto simp: RegisterWorker_def Let_def)
      with heard_now [OF assms(2,3), of c] show ?thesis by (simp add: all_heard_set [OF assms(1)])
    qed
  next
    case None
    from assms(4) valid None obtain v where v: "nextWorkerIDLocked r ds = Some v"
      by (cases "nextWorkerIDLocked r ds") (simp_all add: RegisterWorker_def)
    show ?thesis
    proof (cases v)
      case (Inl e)
      with assms valid None v show ?thesis by (simp add: RegisterWorker_def)
    next
      case (Inr k)
      with assms(4) valid None v obtain w where "wr_byID r' = (wr_byID r)(k \<mapsto> w)"
        and "w_Online w" and "w_LastHeartbeatAt w = now"
        by (auto simp: RegisterWorker_def Let_def)
      with heard_now [OF assms(2,3), of c] assms(1) show ?thesis by (simp add: all_heard_def)
    qed
  qed
qed

lemma time_sub_between: "0 \<le> a \<Longrightarrow> a \<le> b \<Longrightarrow> b < 2 ^ 63 \<Longrightarrow> time_sub b a = b - a"
  by (simp add: time_sub_def)

lemma all_heard_MarkExpiredWorkers:
  assumes "all_heard c now tick r" and "tick \<le> now" and "now < 2 ^ 63"
    and "startWorkerExpiryChecker c" and "enumerates (wr_byID r) ord"
  shows "all_heard c now now (snd (MarkExpiredWorkers (hc_Timeout c) ord now r))"
proof (unfold all_heard_def, intro allI impI)
  fix k w'
  assume w': "wr_byID (snd (MarkExpiredWorkers (hc_Timeout c) ord now r)) k = Some w'"
  have "wr_byID (snd (MarkExpiredWorkers (hc_Timeout c) ord now r)) k
      = map_option (expire_worker now (hc_Timeout c)) (wr_byID r k)"
    using assms(5) by (auto simp: MarkExpiredWorkers_def mark_expired_loop_byID enumerates_def domIff)
  with w' obtain w where w: "wr_byID r k = Some w" and e: "w' = expire_worker now (hc_Timeout c) w"
    by (cases "wr_byID r k") auto
  from assms(1) w have h: "heard c now tick (w_Online w) (w_LastHeartbeatAt w)" by (simp add: all_heard_def)
  then have "time_sub now (w_LastHeartbeatAt w) = now - w_LastHeartbeatAt w"
    using assms(3) by (intro time_sub_between) (simp_all add: heard_def)
  with h e assms(2,4) show "heard c now now (w_Online w') (w_LastHeartbeatAt w')"
    by (auto simp: heard_def expire_worker_def worker_expired_def split: if_splits)
qed

inductive_cases server_stepE: "server_step c W W'"

lemma server_step_on_time:
  assumes "on_time c W" and "server_step c W W'"
  shows "on_time c W'"
proof -
  from assms(1) have inv: "wf_registry (sv_registry W)" "0 \<le> sv_lastTick W" "sv_lastTick W \<le> sv_now W"
      "sv_now W < 2 ^ 63" "startWorkerExpiryChecker c \<Longrightarrow> sv_now W \<le> sv_lastTick W + hc_CheckInterval c"
      "all_heard c (sv_now W) (sv_lastTick W) (sv_registry W)"
    by (auto simp: on_time_def)
  from assms(2) show ?thesis
  proof (rule server_stepE)
    fix req ds res r'
    assume "W' = W\<lparr>sv_registry := r'\<rparr>" and "bind_RegisterWorkerRequest req"
      and "RegisterWorker req (sv_now W) ds (sv_registry W) = Some (res, r')"
    with inv wf_RegisterWorker all_heard_RegisterWorker show ?thesis by (simp add: on_time_def)
  next
    fix hreq
    assume "W' = W\<lparr>sv_registry := snd (HeartbeatWorker hreq (sv_now W) (sv_registry W))\<rparr>"
      and "bind_HeartbeatWorkerRequest hreq"
    with inv wf_HeartbeatWorker all_heard_HeartbeatWorker show ?thesis by (simp add: on_time_def)
  next
    fix r'
    assume "W' = W\<lparr>sv_registry := r'\<rparr>" and "schedule_step (sv_registry W) r'"
    with inv schedule_step_wf all_heard_as_alive [OF schedule_step_as_alive] show ?thesis by (simp add: on_time_def)
  next
    fix ord
    assume "W' = W\<lparr>sv_registry := snd (MarkExpiredWorkers (hc_Timeout c) ord (sv_now W) (sv_registry W)),
        sv_lastTick := sv_now W\<rparr>" and "startWorkerExpiryChecker c" and "enumerates (wr_byID (sv_registry W)) ord"
    with inv all_heard_MarkExpiredWorkers show ?thesis
      by (simp add: on_time_def wf_MarkExpiredWorkers startWorkerExpiryChecker_def)
  next
    fix ord
    assume "W' = W\<lparr>sv_registry := snd (RefreshBackpressureStatus ord (sv_registry W))\<rparr>"
    with inv all_heard_as_alive [OF as_alive_RefreshBackpressureStatus] show ?thesis
      by (simp add: on_time_def wf_RefreshBackpressureStatus)
  next
    fix t
    assume "W' = W\<lparr>sv_now := t\<rparr>" and "sv_now W \<le> t" and "t < 9223372036854775808"
      and "startWorkerExpiryChecker c \<longrightarrow> t \<le> sv_lastTick W + hc_CheckInterval c"
    with inv all_heard_later show ?thesis by (simp add: on_time_def)
  qed
qed

lemma all_heard_nobody: "all_heard c now tick NewWorkerRegistry"
  by (simp add: all_heard_def NewWorkerRegistry_def)

lemma start_on_time:
  assumes "0 \<le> t0" and "t0 < 2 ^ 63"
  shows "on_time c (start_world t0 ord (NewServer NewWorkerRegistry c p))"
  using assms all_heard_nobody all_heard_as_alive [OF as_alive_RefreshBackpressureStatus all_heard_nobody]
    wf_NewWorkerRegistry
  by (auto simp: on_time_def start_world_def RunServer_def NewServer_def startWorkerExpiryChecker_def
      intro: wf_RefreshBackpressureStatus)

text \<open>A clock that starts within Go's range of times since the epoch.\<close>

definition clock_start :: "int \<Rightarrow> int" where
  "clock_start t = max 0 (min (2 ^ 63 - 1) t)"

lemma clock_start_id: "0 \<le> t \<Longrightarrow> t < 2 ^ 63 \<Longrightarrow> clock_start t = t"
  by (simp add: clock_start_def)

interpretation server: transition_system "start_world (clock_start t0) ord (NewServer NewWorkerRegistry c p)"
  "server_step c" "on_time c" for t0 ord c p
  by unfold_locales (auto intro: start_on_time server_step_on_time simp: clock_start_def)

text \<open>
  C37. The registry's picture of which workers are alive is never far from the truth. Whatever requests
  and ticks come in whatever order, a worker that is marked online was heard from at most
  \<open>Timeout + CheckInterval\<close> ago, and one that is marked offline has been silent for longer than
  \<open>Timeout\<close>; when the configuration switches the checker off, no worker is ever marked offline.
\<close>

theorem silence_is_noticed:
  assumes "0 \<le> t0" and "t0 < 2 ^ 63"
    and "reachable_from (start_world t0 ord (NewServer NewWorkerRegistry c p)) (server_step c) W"
    and "GetWorker k (sv_registry W) = Some w"
  shows "if startWorkerExpiryChecker c
    then (if w_Online w then sv_now W - w_LastHeartbeatAt w \<le> hc_Timeout c + hc_CheckInterval c
          else hc_Timeout c < sv_now W - w_LastHeartbeatAt w)
    else w_Online w"
proof -
  from server.reachable_inv [of t0 ord c p W] assms(3) have W: "on_time c W"
    by (simp add: clock_start_id [OF assms(1,2)])
  with assms(4) have "heard c (sv_now W) (sv_lastTick W) (w_Online w) (w_LastHeartbeatAt w)"
    by (simp add: on_time_def all_heard_def GetWorker_def)
  with W show ?thesis by (auto simp: heard_def on_time_def)
qed

theorem silence_is_noticed_witness:
  "\<exists>W w. reachable_from (start_world 1 [] (NewServer NewWorkerRegistry \<lparr>hc_Timeout = 5, hc_CheckInterval = 10\<rparr> zero_SplitPolicy))
      (server_step \<lparr>hc_Timeout = 5, hc_CheckInterval = 10\<rparr>) W
     \<and> GetWorker ''wrk_07'' (sv_registry W) = Some w \<and> \<not> w_Online w \<and> 5 < sv_now W - w_LastHeartbeatAt w"
proof -
  define c where "c = \<lparr>hc_Timeout = 5, hc_CheckInterval = 10\<rparr>"
  let ?W0 = "start_world 1 [] (NewServer NewWorkerRegistry c zero_SplitPolicy)"
  have on: "startWorkerExpiryChecker c" by (simp add: startWorkerExpiryChecker_def c_def)
  have b: "bind_RegisterWorkerRequest ex_register"
    by (simp add: bind_RegisterWorkerRequest_def ex_register_def in64_def)
  have id: "EncodeToString [7] = ''07''" by code_simp
  have "wr_byID (sv_registry ?W0) = Map.empty \<and> wr_idByAddr (sv_registry ?W0) = Map.empty"
    by (simp add: start_world_def RunServer_def NewServer_def RefreshBackpressureStatus_def
        NewWorkerRegistry_def Let_def split: prod.split)
  then obtain x r1 w1 where R: "RegisterWorker ex_register 1 [Some [7]] (sv_registry ?W0) = Some (x, r1)"
    and w1: "wr_byID r1 = [''wrk_07'' \<mapsto> w1]" "w_Online w1" "w_LastHeartbeatAt w1 = 1"
    using ex_register_valid by (simp add: RegisterWorker_def Let_def id)
  define W1 where "W1 = ?W0\<lparr>sv_registry := r1\<rparr>"
  define W2 where "W2 = W1\<lparr>sv_now := 11\<rparr>"
  define W3 where "W3 = W2\<lparr>sv_registry := snd (MarkExpiredWorkers (hc_Timeout c) [''wrk_07''] (sv_now W2) (sv_registry W2)),
    sv_lastTick := sv_now W2\<rparr>"
  have "reachable_from ?W0 (server_step c) ?W0" by (rule reachable_from.intros)
  moreover have "server_step c ?W0 W1"
    unfolding W1_def by (rule server_step.registers [OF b]) (use R in \<open>simp add: start_world_def\<close>)
  moreover have "server_step c W1 W2"
    unfolding W2_def by (rule server_step.waits) (simp_all add: W1_def start_world_def c_def)
  moreover have "server_step c W2 W3"
    unfolding W3_def
    by (rule server_step.checks [OF on]) (simp add: W2_def W1_def w1 enumerates_def)
  ultimately have reach: "reachable_from ?W0 (server_step c) W3" by (metis reachable_from.intros(2))
  have byID: "wr_byID (sv_registry W3) ''wrk_07'' = Some (expire_worker 11 5 w1)"
    by (simp add: W3_def W2_def W1_def MarkExpiredWorkers_def mark_expired_loop_byID w1 c_def expire_worker_def)
  then have w: "GetWorker ''wrk_07'' (sv_registry W3) = Some (expire_worker 11 5 w1)"
    by (simp add: GetWorker_def)
  have off: "\<not> w_Online (expire_worker 11 5 w1)"
    by (simp add: expire_worker_def worker_expired_def w1 time_sub_def)
  from silence_is_noticed [OF _ _ reach w] on off
  have "hc_Timeout c < sv_now W3 - w_LastHeartbeatAt (expire_worker 11 5 w1)" by simp
  then have "5 < sv_now W3 - w_LastHeartbeatAt (expire_worker 11 5 w1)" by (simp add: c_def)
  with reach w off show ?thesis unfolding c_def by blast
qed

end
