(* ===== verification/Entry_Main.thy ===== *)
theory Entry_Main
  imports Entry_Server Env_Config_Spec Go_Path
begin

text \<open>
  \<open>entry-server/cmd/server/main.go\<close> with \<open>internal/logger\<close> and the request logger of
  \<open>internal/server/middleware.go\<close>: what the environment makes of a starting Entry. The files, the
  creation of directories and the opening of the log file are parameters; a log line is its level.
  Settings are taken as ASCII where \<open>strings.ToLower\<close> reads them.
\<close>

subsection \<open>The logger\<close>

datatype LogWriter = Stdout | Discard | LogFile string | StdoutAndFile string

datatype LogLevel = LevelDebug | LevelInfo | LevelWarn | LevelError

record LoggerConfig =
  lc_Level :: string
  lc_Output :: string
  lc_File :: string

record Logger =
  lg_writer :: LogWriter
  lg_Level :: LogLevel

definition lower_char :: "char \<Rightarrow> char" where
  "lower_char c = (if CHR ''A'' \<le> c \<and> c \<le> CHR ''Z'' then char_of (of_char c + 32 :: nat) else c)"

definition ToLower :: "string \<Rightarrow> string" where
  "ToLower = map lower_char"

definition parseLevel :: "string \<Rightarrow> LogLevel" where
  "parseLevel level =
     (let l = ToLower level
      in if l = ''debug'' then LevelDebug
         else if l = ''warn'' \<or> l = ''warning'' then LevelWarn
         else if l = ''error'' then LevelError
         else LevelInfo)"

text \<open>What creating a directory and opening a file for appending answer: an error or none.\<close>

record LogFiles =
  lf_MkdirAll :: "string \<Rightarrow> string option"
  lf_OpenFile :: "string \<Rightarrow> string option"

definition openLogFile :: "LogFiles \<Rightarrow> string \<Rightarrow> string + string" where
  "openLogFile fs path =
     (case lf_MkdirAll fs (Dir path) of
        Some err \<Rightarrow> Inl err
      | None \<Rightarrow> (case lf_OpenFile fs path of Some err \<Rightarrow> Inl err | None \<Rightarrow> Inr path))"

text \<open>The writer, and the file that the close function closes.\<close>

definition writerFromConfig :: "LogFiles \<Rightarrow> LoggerConfig \<Rightarrow> string + LogWriter \<times> string option" where
  "writerFromConfig fs config =
     (let output = ToLower (lc_Output config)
      in if output = ''stdout'' \<or> output = [] then Inr (Stdout, None)
         else if output = ''discard'' then Inr (Discard, None)
         else if output = ''file'' then
           (case openLogFile fs (lc_File config) of
              Inl err \<Rightarrow> Inl err | Inr file \<Rightarrow> Inr (LogFile file, Some file))
         else if output = ''both'' then
           (case openLogFile fs (lc_File config) of
              Inl err \<Rightarrow> Inl err | Inr file \<Rightarrow> Inr (StdoutAndFile file, Some file))
         else Inr (Stdout, None))"

definition NewLogger :: "LogFiles \<Rightarrow> LoggerConfig \<Rightarrow> string + Logger \<times> string option" where
  "NewLogger fs config =
     (case writerFromConfig fs config of
        Inl err \<Rightarrow> Inl err
      | Inr (writer, closes) \<Rightarrow> Inr (\<lparr>lg_writer = writer, lg_Level = parseLevel (lc_Level config)\<rparr>, closes))"

definition envOrDefault :: "environ \<Rightarrow> string \<Rightarrow> string \<Rightarrow> string" where
  "envOrDefault env key fallback = (let value = Getenv env key in if value = [] then fallback else value)"

definition NewLoggerFromEnv :: "LogFiles \<Rightarrow> environ \<Rightarrow> string + Logger \<times> string option" where
  "NewLoggerFromEnv fs env =
     NewLogger fs
       \<lparr>lc_Level = envOrDefault env ''LOG_LEVEL'' ''info'',
        lc_Output = envOrDefault env ''LOG_OUTPUT'' ''stdout'',
        lc_File = envOrDefault env ''LOG_FILE'' ''logs/entry-server.log''\<rparr>"

subsection \<open>The request logger\<close>

definition request_level :: "int \<Rightarrow> LogLevel" where
  "request_level status =
     (if 500 \<le> status then LevelError else if 400 \<le> status then LevelWarn else LevelInfo)"

fun level_number :: "LogLevel \<Rightarrow> int" where
  "level_number LevelDebug = - 4"
| "level_number LevelInfo = 0"
| "level_number LevelWarn = 4"
| "level_number LevelError = 8"

lemma level_number_inj [simp]: "level_number a = level_number b \<longleftrightarrow> a = b"
  by (cases a; cases b) simp_all

instantiation LogLevel :: linorder
begin

definition less_eq_LogLevel :: "LogLevel \<Rightarrow> LogLevel \<Rightarrow> bool" where
  "less_eq_LogLevel a b \<longleftrightarrow> level_number a \<le> level_number b"

definition less_LogLevel :: "LogLevel \<Rightarrow> LogLevel \<Rightarrow> bool" where
  "less_LogLevel a b \<longleftrightarrow> level_number a < level_number b"

instance
  by standard (auto simp: less_eq_LogLevel_def less_LogLevel_def)

end

text \<open>Whether a line of a level is written: the handler's threshold is the configured level.\<close>

definition log_enabled :: "Logger \<Rightarrow> LogLevel \<Rightarrow> bool" where
  "log_enabled l level \<longleftrightarrow> lg_Level l \<le> level"

lemma level_top: "level \<le> LevelError"
  by (cases level) (simp_all add: less_eq_LogLevel_def)

lemma failed_requests_logged: "500 \<le> status \<Longrightarrow> log_enabled l (request_level status)"
  by (simp add: log_enabled_def request_level_def level_top)

lemma log_file_opened:
  "NewLogger fs config = Inr (l, Some file) \<Longrightarrow>
     file = lc_File config \<and> lf_OpenFile fs file = None \<and> lg_writer l \<in> {LogFile file, StdoutAndFile file}"
  by (auto simp: NewLogger_def writerFromConfig_def openLogFile_def Let_def split: option.splits sum.splits if_splits)

lemma log_closes_what_it_opens:
  "NewLogger fs config = Inr (l, closes) \<Longrightarrow>
     closes = (case lg_writer l of LogFile file \<Rightarrow> Some file | StdoutAndFile file \<Rightarrow> Some file | _ \<Rightarrow> None)"
  by (auto simp: NewLogger_def writerFromConfig_def Let_def split: option.splits sum.splits if_splits)

subsection \<open>Main\<close>

datatype EntryMainError = EntryEnvFailed EnvError | EntryLoggerFailed string

text \<open>\<open>main\<close> up to listening: the address, the logger and the server that then runs.\<close>

definition entry_main ::
  "(string \<Rightarrow> EnvFile) \<Rightarrow> LogFiles \<Rightarrow> string list \<Rightarrow> environ \<Rightarrow> EntryMainError + string \<times> Logger \<times> Server" where
  "entry_main files fs ord env =
     (case LoadWithOverride files ''ENTRY_ENV_FILE'' [''.env'', ''entry-server/.env''] env of
        (Some err, env) \<Rightarrow> Inl (EntryEnvFailed err)
      | (None, env) \<Rightarrow>
          (case NewLoggerFromEnv fs env of
             Inl err \<Rightarrow> Inl (EntryLoggerFailed err)
           | Inr (l, closes) \<Rightarrow>
               let c = EntryFromEnv env;
                   server = NewServer NewWorkerRegistry
                     \<lparr>hc_Timeout = ec_Timeout c, hc_CheckInterval = ec_CheckInterval c\<rparr>
                     \<lparr>sp_TargetSegmentSizeBytes = ec_TargetSegmentSizeBytes c,
                      sp_TargetSegmentDurationMS = ec_TargetSegmentDurationMS c,
                      sp_MaxSegments = ec_MaxSegments c\<rparr>
               in Inr (ec_addr c, l, RunServer ord server)))"

text \<open>The seconds an environment sets and that still fit a duration.\<close>

definition small_seconds :: "environ \<Rightarrow> string \<Rightarrow> bool" where
  "small_seconds env key \<longleftrightarrow> (\<forall>n. Atoi (Getenv env key) = Some n \<longrightarrow> n * Second < 2 ^ 63)"

lemma durationSecondsFromEnv_positive:
  assumes "small_seconds env key" and "0 < fallback"
  shows "0 < durationSecondsFromEnv env key fallback"
proof (cases "Atoi (Getenv env key)")
  case None
  with assms show ?thesis by (simp add: durationSecondsFromEnv_def)
next
  case (Some n)
  with assms(1) have "n * Second < 2 ^ 63" by (simp add: small_seconds_def)
  then have "0 < n \<Longrightarrow> mul64 n Second = n * Second"
    by (simp add: mul64_def wrap64_id in64_def)
  with Some assms(2) show ?thesis by (auto simp: durationSecondsFromEnv_def)
qed

text \<open>Entry comes up with both tickers unless the seconds set for them overflow a duration.\<close>

lemma entry_main_tickers:
  assumes "entry_main files fs ord env = Inr (addr, l, s)"
    and "LoadWithOverride files ''ENTRY_ENV_FILE'' [''.env'', ''entry-server/.env''] env = (None, env')"
    and "small_seconds env' ''WORKER_HEARTBEAT_TIMEOUT_SECONDS''"
    and "small_seconds env' ''WORKER_HEARTBEAT_CHECK_INTERVAL_SECONDS''"
  shows "startWorkerExpiryChecker (sr_heartbeatConfig s) \<and> startBackpressureRefresher (sr_heartbeatConfig s)"
proof -
  have s: "hc_Timeout (sr_heartbeatConfig s) = ec_Timeout (EntryFromEnv env')"
    "hc_CheckInterval (sr_heartbeatConfig s) = ec_CheckInterval (EntryFromEnv env')"
    using assms(1,2) by (auto simp: entry_main_def Let_def RunServer_def NewServer_def split: sum.splits if_splits)
  have "0 < ec_Timeout (EntryFromEnv env')" "0 < ec_CheckInterval (EntryFromEnv env')"
    using durationSecondsFromEnv_positive [OF assms(3)] durationSecondsFromEnv_positive [OF assms(4)]
    by (simp_all add: EntryFromEnv_def)
  with s show ?thesis by (simp add: startWorkerExpiryChecker_def startBackpressureRefresher_def)
qed

end
