(* ===== verification/Worker_Lifecycle.thy ===== *)
theory Worker_Lifecycle
  imports Worker_Agent_Spec Worker_Handlers_Spec Engine_Lease Source_Runner
begin

text \<open>
  The rest of \<open>Agent.Run\<close> (\<open>internal/agent/agent.go\<close>): after the registration it starts the heartbeat
  loop (\<open>internal/heartbeat\<close>), the task monitor (\<open>internal/taskmonitor\<close>) and a goroutine that probes
  the worker's own health and then starts the scanner and the processor of the source worker, and
  listens until the listener fails. All of them, and the engine processes, are given the context that a
  signal cancels. A step is one round of a loop, one use of the pool, of the worker's state or of
  Entry, the signal, or the end of listening with the deferred stop of the pool; the order of the steps
  within a round of the processor (\<open>processOne\<close> of \<open>Source_Runner\<close>) is left open.
\<close>

subsection \<open>The context and the engine processes\<close>

text \<open>The two contexts of the worker: \<open>context.Background()\<close>, which never ends, and the one
  \<open>signal.NotifyContext\<close> gives to \<open>Run\<close>.\<close>

datatype Ctx = Background | Interruptible

definition ctx_done :: "bool \<Rightarrow> Ctx \<Rightarrow> bool" where
  "ctx_done interrupted c \<longleftrightarrow> c = Interruptible \<and> interrupted"

text \<open>\<open>os/exec\<close>: a command is bound to a context or not, and its process is killed when the context it
  is bound to ends.\<close>

record Cmd =
  cmd_Path :: string
  cmd_Env :: "string list"
  cmd_ctx :: "Ctx option"

definition exec_Command :: "string \<Rightarrow> Cmd" where
  "exec_Command path = \<lparr>cmd_Path = path, cmd_Env = [], cmd_ctx = None\<rparr>"

definition exec_CommandContext :: "Ctx \<Rightarrow> string \<Rightarrow> Cmd" where
  "exec_CommandContext ctx path = \<lparr>cmd_Path = path, cmd_Env = [], cmd_ctx = Some ctx\<rparr>"

definition process_killed :: "bool \<Rightarrow> Cmd \<Rightarrow> bool" where
  "process_killed interrupted cmd = (case cmd_ctx cmd of None \<Rightarrow> False | Some c \<Rightarrow> ctx_done interrupted c)"

text \<open>The command of an engine; \<open>cmd_Env\<close> is what is appended to the worker's own environment.\<close>

definition defaultCommandFactory :: "Ctx \<Rightarrow> Config \<Rightarrow> int \<Rightarrow> Cmd" where
  "defaultCommandFactory ctx cfg i =
     (let cmd = exec_CommandContext ctx (cf_EngineBinaryPath cfg)
      in cmd\<lparr>cmd_Env := [''FRAMEFLEET_CANNY_LOW_THRESHOLD='' @ Itoa (cf_CannyLowThreshold cfg),
                        ''FRAMEFLEET_CANNY_HIGH_THRESHOLD='' @ Itoa (cf_CannyHighThreshold cfg)]\<rparr>)"

subsection \<open>The loops of a worker\<close>

definition NewLoop_interval :: "int \<Rightarrow> int" where
  "NewLoop_interval interval = (if interval \<le> 0 then 10 * Second else interval)"

text \<open>The answer to a probe: a status code, or none when the exchange failed.\<close>

definition probe_passed :: "int option \<Rightarrow> bool" where
  "probe_passed reply = (case reply of None \<Rightarrow> False | Some code \<Rightarrow> 200 \<le> code \<and> code < 300)"

text \<open>\<open>li_entry\<close> is Entry as the loops of this worker have left it.\<close>

record 'e Life =
  li_agent :: Agent
  li_runner :: Runner
  li_entry :: 'e
  li_interrupted :: bool
  li_heartbeat :: bool
  li_monitor :: bool
  li_probing :: bool
  li_source :: bool
  li_scanner :: bool
  li_processor :: bool
  li_returned :: "string option"

definition life_start :: "Agent \<Rightarrow> 'e \<Rightarrow> 'e Life" where
  "life_start a E =
     \<lparr>li_agent = a, li_runner = NewRunner, li_entry = E, li_interrupted = False, li_heartbeat = True,
      li_monitor = True, li_probing = True, li_source = False, li_scanner = False, li_processor = False,
      li_returned = None\<rparr>"

text \<open>A request of Entry under \<open>Run\<close>'s context; when it is cancelled nothing is sent.\<close>

definition under_ctx :: "'e Life \<Rightarrow> ('q \<Rightarrow> 'e \<Rightarrow> 'a HttpResult \<times> 'e) \<Rightarrow> 'q \<Rightarrow> 'e \<Rightarrow> 'a HttpResult \<times> 'e" where
  "under_ctx L post req E =
     (if ctx_done (li_interrupted L) Interruptible then (HttpErr ''context canceled'', E) else post req E)"

definition life_beat ::
  "(HeartbeatWorkerRequest \<Rightarrow> 'e \<Rightarrow> HeartbeatWorkerResponse HttpResult \<times> 'e) \<Rightarrow> (int \<times> int) option
     \<Rightarrow> string list \<Rightarrow> 'e Life \<Rightarrow> 'e Life" where
  "life_beat post usage ord L =
     (case heartbeat_send (under_ctx L post) usage ord (ag_state (li_agent L), li_entry L) of
        (s, E) \<Rightarrow> L\<lparr>li_agent := (li_agent L)\<lparr>ag_state := s\<rparr>, li_entry := E\<rparr>)"

text \<open>\<open>Runner.Start\<close>: without an input directory there is no source worker.\<close>

definition start_source :: "'e Life \<Rightarrow> 'e Life" where
  "start_source L =
     (let on = cf_InputDir (ag_cfg (li_agent L)) \<noteq> []
      in L\<lparr>li_probing := False, li_source := True, li_scanner := on, li_processor := on\<rparr>)"

text \<open>A call of Entry by the processor (the job, the reports of its own segments) and what it makes of
  Entry.\<close>

definition source_tells :: "(SourceCall \<Rightarrow> 'e \<Rightarrow> unit HttpResult \<times> 'e) \<Rightarrow> SourceCall \<Rightarrow> 'e Life \<Rightarrow> 'e Life" where
  "source_tells tell c L = L\<lparr>li_entry := snd (under_ctx L tell c (li_entry L))\<rparr>"

inductive runner_use :: "Runner \<Rightarrow> Runner \<Rightarrow> bool" where
  pops: "runner_use r (snd (popPendingSplit ord r))"
| requeues: "runner_use r (requeuePendingSplit task r)"
| finishes: "runner_use r (markDone path r)"
| shows_phase: "runner_use r (setActive videoName path phase i has r)"
| clears: "runner_use r (clearActive r)"

text \<open>A call on a lease: the pipes of an engine that was killed carry nothing any more.\<close>

definition life_call ::
  "string \<Rightarrow> CallEnv \<Rightarrow> Lease \<Rightarrow> Request \<Rightarrow> 'e Life \<Rightarrow> (EngineError + Response) \<times> Pool" where
  "life_call broken env l req L =
     (let p = ag_enginePool (li_agent L);
          cmd = defaultCommandFactory Interruptible (ag_cfg (li_agent L)) (engine_id (ls_engine l) p);
          exchange = (if process_killed (li_interrupted L) cmd then (\<lambda>req. Inl broken) else ce_exchange env)
      in LeaseCall (env\<lparr>ce_exchange := exchange\<rparr>) l req p)"

text \<open>What the handlers and the source worker do with the pool.\<close>

inductive pool_use :: "'e Life \<Rightarrow> Pool \<Rightarrow> bool" where
  acquires: "Acquire gaveUp now (ag_enginePool (li_agent L)) = Some (res, p) \<Longrightarrow> pool_use L p"
| tries: "TryAcquire now (ag_enginePool (li_agent L)) = (res, p) \<Longrightarrow> pool_use L p"
| calls: "life_call broken env l req L = (res, p) \<Longrightarrow> pool_use L p"
| releases: "LeaseRelease l (ag_enginePool (li_agent L)) = Some (l', p) \<Longrightarrow> pool_use L p"

definition life_return :: "(engine_ref \<Rightarrow> string option) \<Rightarrow> string \<Rightarrow> 'e Life \<Rightarrow> 'e Life" where
  "life_return stop err L =
     L\<lparr>li_agent := (li_agent L)\<lparr>ag_enginePool := snd (PoolStop None stop (ag_enginePool (li_agent L)))\<rparr>,
       li_returned := Some err\<rparr>"

text \<open>\<open>listen\<close> is the error \<open>router.Run\<close> comes back with, none when the listener never fails.\<close>

inductive life_step ::
  "(HeartbeatWorkerRequest \<Rightarrow> 'e \<Rightarrow> HeartbeatWorkerResponse HttpResult \<times> 'e)
     \<Rightarrow> (SourceCall \<Rightarrow> 'e \<Rightarrow> unit HttpResult \<times> 'e) \<Rightarrow> string option \<Rightarrow> (engine_ref \<Rightarrow> string option)
     \<Rightarrow> 'e Life \<Rightarrow> 'e Life \<Rightarrow> bool" for post tell listen stop where
  signal: "li_returned L = None \<Longrightarrow> life_step post tell listen stop L (L\<lparr>li_interrupted := True\<rparr>)"
| beat: "li_returned L = None \<Longrightarrow> li_heartbeat L \<Longrightarrow> life_step post tell listen stop L (life_beat post usage ord L)"
| heartbeat_ends:
    "li_returned L = None \<Longrightarrow> li_interrupted L \<Longrightarrow> life_step post tell listen stop L (L\<lparr>li_heartbeat := False\<rparr>)"
| monitor_ends:
    "li_returned L = None \<Longrightarrow> li_interrupted L \<Longrightarrow> life_step post tell listen stop L (L\<lparr>li_monitor := False\<rparr>)"
| probe:
    "li_returned L = None \<Longrightarrow> li_probing L \<Longrightarrow> \<not> li_interrupted L \<Longrightarrow> probe_passed reply
     \<Longrightarrow> life_step post tell listen stop L (start_source L)"
| probe_ends:
    "li_returned L = None \<Longrightarrow> li_probing L \<Longrightarrow> li_interrupted L
     \<Longrightarrow> life_step post tell listen stop L (L\<lparr>li_probing := False\<rparr>)"
| scans:
    "li_returned L = None \<Longrightarrow> li_scanner L
     \<Longrightarrow> life_step post tell listen stop L
           (L\<lparr>li_runner := scan (cf_InputDir (ag_cfg (li_agent L))) entries (li_runner L)\<rparr>)"
| scanner_ends:
    "li_returned L = None \<Longrightarrow> li_interrupted L \<Longrightarrow> life_step post tell listen stop L (L\<lparr>li_scanner := False\<rparr>)"
| processes:
    "li_returned L = None \<Longrightarrow> li_processor L \<Longrightarrow> runner_use (li_runner L) r
     \<Longrightarrow> life_step post tell listen stop L (L\<lparr>li_runner := r\<rparr>)"
| processor_tells:
    "li_returned L = None \<Longrightarrow> li_processor L \<Longrightarrow> life_step post tell listen stop L (source_tells tell c L)"
| processor_ends:
    "li_returned L = None \<Longrightarrow> li_interrupted L \<Longrightarrow> life_step post tell listen stop L (L\<lparr>li_processor := False\<rparr>)"
| uses_pool:
    "li_returned L = None \<Longrightarrow> pool_use L p
     \<Longrightarrow> life_step post tell listen stop L (L\<lparr>li_agent := (li_agent L)\<lparr>ag_enginePool := p\<rparr>\<rparr>)"
| starts_task:
    "li_returned L = None \<Longrightarrow> life_step post tell listen stop L
       (L\<lparr>li_agent := (li_agent L)\<lparr>ag_state := StartTask k t (ag_state (li_agent L))\<rparr>\<rparr>)"
| finishes_task:
    "li_returned L = None \<Longrightarrow> life_step post tell listen stop L
       (L\<lparr>li_agent := (li_agent L)\<lparr>ag_state := FinishTask k (ag_state (li_agent L))\<rparr>\<rparr>)"
| stops_listening:
    "li_returned L = None \<Longrightarrow> listen = Some err \<Longrightarrow> life_step post tell listen stop L (life_return stop err L)"

inductive_cases life_stepE: "life_step post tell listen stop L L'"

subsection \<open>The pool stays started\<close>

named_theorems pool_started

lemma pl_started_marks [pool_started]:
  "pl_started (markLeased i now p) = pl_started p" "pl_started (markExecuting i req now p) = pl_started p"
  "pl_started (markIdleLocked i p) = pl_started p"
  by (simp_all add: markLeased_def markExecuting_def markIdleLocked_def Let_def)

lemma pl_started_receive [pool_started]: "receive c p = Some (e, p') \<Longrightarrow> pl_started p' = pl_started p"
  by (auto simp: receive_def split: option.splits list.splits)

lemma pl_started_send [pool_started]: "send c e p = Some p' \<Longrightarrow> pl_started p' = pl_started p"
  by (auto simp: send_def Let_def split: option.splits if_splits)

lemma pl_started_release [pool_started]: "pool_release e p = Some p' \<Longrightarrow> pl_started p' = pl_started p"
  by (auto simp: pool_release_def release_locked_def pl_started_marks dest!: pl_started_send
      split: option.splits if_splits prod.splits)

lemma pl_started_acquire [pool_started]: "pool_acquire gaveUp p = Some (res, p') \<Longrightarrow> pl_started p' = pl_started p"
  by (auto simp: pool_acquire_def dest: pl_started_receive split: option.splits sum.splits)

lemma pl_started_tryAcquire [pool_started]: "tryAcquire p = (res, p') \<Longrightarrow> pl_started p' = pl_started p"
  by (auto simp: tryAcquire_def dest: pl_started_receive split: option.splits sum.splits)

lemma pl_started_lease [pool_started]: "lease_of now (res, p) = (l, p') \<Longrightarrow> pl_started p' = pl_started p"
  by (auto simp: lease_of_def pl_started_marks split: sum.splits)

lemma pl_started_call [pool_started]: "call_engine env e req p = (res, p') \<Longrightarrow> pl_started p' = pl_started p"
  by (auto simp: call_engine_def Let_def pl_started_marks)

lemma pool_use_started: "pool_use L p \<Longrightarrow> pl_started p = pl_started (ag_enginePool (li_agent L))"
proof (induction rule: pool_use.induct)
  case (acquires gaveUp now L res p)
  then show ?case by (auto simp: Acquire_def dest: pl_started_acquire pl_started_lease)
next
  case (tries now L res p)
  then show ?case
    by (cases "tryAcquire (ag_enginePool (li_agent L))") (auto simp: TryAcquire_def dest: pl_started_tryAcquire pl_started_lease)
next
  case (calls broken env l req L res p)
  then show ?case by (auto simp: life_call_def LeaseCall_def Let_def dest: pl_started_call split: if_splits)
next
  case (releases l L l' p)
  then show ?case by (auto simp: LeaseRelease_def dest: pl_started_release split: if_splits)
qed

subsection \<open>The invariant of a life\<close>

text \<open>While the worker listens its pool is started; when it has stopped listening the pool is stopped,
  and this happens only when the listener fails. The source worker has been started exactly when the
  probe has succeeded, and it runs only then.\<close>

definition life_ok :: "string option \<Rightarrow> 'e Life \<Rightarrow> bool" where
  "life_ok listen L \<longleftrightarrow> (pl_started (ag_enginePool (li_agent L)) \<longleftrightarrow> li_returned L = None)
     \<and> li_returned L \<in> {None, listen} \<and> (li_source L \<longrightarrow> \<not> li_probing L)
     \<and> (li_scanner L \<or> li_processor L \<longrightarrow> li_source L)
     \<and> (\<not> li_interrupted L \<longrightarrow> li_heartbeat L \<and> li_monitor L \<and> (li_probing L \<longleftrightarrow> \<not> li_source L))"

lemma life_beat_same:
  "ag_enginePool (li_agent (life_beat post usage ord L)) = ag_enginePool (li_agent L)"
  "li_returned (life_beat post usage ord L) = li_returned L" "li_source (life_beat post usage ord L) = li_source L"
  "li_probing (life_beat post usage ord L) = li_probing L" "li_monitor (life_beat post usage ord L) = li_monitor L"
  "li_heartbeat (life_beat post usage ord L) = li_heartbeat L"
  "li_interrupted (life_beat post usage ord L) = li_interrupted L"
  "li_scanner (life_beat post usage ord L) = li_scanner L" "li_processor (life_beat post usage ord L) = li_processor L"
  by (simp_all add: life_beat_def split: prod.split)

lemma PoolStop_not_started: "\<not> pl_started (snd (PoolStop None stop p))"
  by (simp add: PoolStop_def split: prod.split)

lemma life_step_ok: "life_ok listen L \<Longrightarrow> life_step post tell listen stop L L' \<Longrightarrow> life_ok listen L'"
  by (erule life_stepE)
    (auto simp: life_ok_def life_beat_same life_return_def PoolStop_not_started start_source_def source_tells_def Let_def
      dest: pool_use_started)

lemma boot_pool_started:
  assumes "agent_boot ctxErr spawn stop0 reg usage (a0, E0) = (None, a, E)"
  shows "pl_started (ag_enginePool a)"
proof -
  obtain err p where P: "PoolStart ctxErr spawn stop0 (ag_enginePool a0) = (err, p)" by (metis prod.exhaust)
  with assms have "err = None" "ag_enginePool a = p"
    by (auto simp: agent_boot_def Let_def split: option.splits prod.splits)
  moreover have "pl_started p" if "err = None"
    using P that by (auto simp: PoolStart_def dest: start_loop_length split: if_splits option.splits)
  ultimately show ?thesis by simp
qed

lemma life_start_ok: "pl_started (ag_enginePool a) \<Longrightarrow> life_ok listen (life_start a E)"
  by (simp add: life_ok_def life_start_def)

text \<open>A started agent, as the starting point: the pool of an agent that was not started is.\<close>

definition booted :: "Agent \<Rightarrow> Agent" where
  "booted a = a\<lparr>ag_enginePool := (ag_enginePool a)\<lparr>pl_started := True\<rparr>\<rparr>"

lemma booted_id: "pl_started (ag_enginePool a) \<Longrightarrow> booted a = a"
  by (simp add: booted_def)

interpretation life: transition_system "life_start (booted a) E" "life_step post tell listen stop" "life_ok listen"
  for a E post tell listen stop
  by unfold_locales (auto intro: life_start_ok life_step_ok simp: booted_def)

text \<open>After the signal nothing reaches Entry from the loops any more.\<close>

lemma life_beat_cut: "li_interrupted L \<Longrightarrow> li_entry (life_beat post usage ord L) = li_entry L"
  by (auto simp: life_beat_def heartbeat_send_def read_heartbeat_def postJSON_def Let_def under_ctx_def ctx_done_def)

lemma life_step_cut:
  "life_step post tell listen stop L L' \<Longrightarrow> li_interrupted L \<Longrightarrow> li_entry L' = li_entry L \<and> li_interrupted L'"
  by (erule life_stepE)
    (simp_all add: life_beat_cut life_beat_same life_return_def source_tells_def under_ctx_def ctx_done_def)

lemma life_path_cut:
  assumes "(life_step post tell listen stop)\<^sup>*\<^sup>* L L'" and "li_interrupted L"
  shows "li_entry L' = li_entry L \<and> li_interrupted L'"
  using assms
proof (induction rule: rtranclp_induct)
  case (step M N)
  with life_step_cut [OF step.hyps(2)] show ?case by simp
qed simp

lemma ea_fail_Failed: "snd (ea_fail (entry_api apost ev) k req F) = snd (Failed k (Some req) (ev 0) F)"
  by (simp add: entry_api_def split: prod.split)

text \<open>The engines are bound to the context: with it they are killed, and an exchange fails.\<close>

lemma dead_engine_call:
  assumes "li_interrupted L"
  shows "\<exists>e. fst (life_call broken env l req L) = Inl e"
proof -
  have "process_killed True (defaultCommandFactory Interruptible cfg i)" for cfg i
    by (simp add: process_killed_def defaultCommandFactory_def exec_CommandContext_def ctx_done_def Let_def)
  with assms show ?thesis
    by (simp add: life_call_def LeaseCall_def call_engine_def engine_call_def Let_def split: option.split)
qed

text \<open>
  C26. A signal does not stop a worker, it breaks it. In every state its life can reach after the signal
  and before its listener fails, its pool is started, and in all that follow its loops (heartbeats,
  scanner, processor) tell Entry nothing. Only a failure of the listener ends the life: as
  long as there is none the worker goes on listening with a started pool, for ever. What it still serves
  can only fail: the engines are bound to the context that the signal cancelled, so every call on
  any lease returns an error, and the report of an upload it accepts fails the task and its whole job.
\<close>

theorem signal_breaks_worker:
  assumes "agent_boot ctxErr spawn stop0 reg usage (a0, E0) = (None, a, E)"
    and "reachable_from (life_start a E) (life_step post tell listen stop) L"
    and "li_interrupted L" and "li_returned L = None"
    and "segmentTaskAndJobLocked k w (en_manager F) = Inr (task, job)"
    and "t_Status task = TaskStatusAssigned \<or> t_Status task = TaskStatusRunning"
    and "k \<noteq> []" and "w \<noteq> []"
  shows "pl_started (ag_enginePool (li_agent L))
    \<and> (\<forall>L'. (life_step post tell listen stop)\<^sup>*\<^sup>* L L' \<longrightarrow> li_entry L' = li_entry L
         \<and> (listen = None \<longrightarrow> li_returned L' = None \<and> pl_started (ag_enginePool (li_agent L'))))
    \<and> (\<exists>e. fst (life_call broken env l req L) = Inl e)
    \<and> failed_by k (snd (fst (processUploadedSegment (entry_api apost ev) text (Inr (ls_engine l))
        (\<lambda>req. fst (life_call broken env l req L)) k w inputPath artifactPath
        (ag_state (li_agent L), F))))"
proof -
  let ?s = "ag_state (li_agent L)"
  from life.reachable_inv [of a E post tell listen stop L] assms(2) booted_id [OF boot_pool_started [OF assms(1)]]
  have ok: "life_ok listen L" by simp
  with assms(4) have "pl_started (ag_enginePool (li_agent L))" by (simp add: life_ok_def)
  moreover have "\<forall>L'. (life_step post tell listen stop)\<^sup>*\<^sup>* L L' \<longrightarrow> li_entry L' = li_entry L
      \<and> (listen = None \<longrightarrow> li_returned L' = None \<and> pl_started (ag_enginePool (li_agent L')))"
  proof (intro allI impI)
    fix L' assume path: "(life_step post tell listen stop)\<^sup>*\<^sup>* L L'"
    from life.path_inv [OF path ok] have "life_ok listen L'" .
    with life_path_cut [OF path assms(3)] show "li_entry L' = li_entry L
      \<and> (listen = None \<longrightarrow> li_returned L' = None \<and> pl_started (ag_enginePool (li_agent L')))"
      by (auto simp: life_ok_def)
  qed
  moreover note dead_engine_call [OF assms(3), of broken env l req]
  moreover have "failed_by k (snd (fst (processUploadedSegment (entry_api apost ev) text (Inr (ls_engine l))
      (\<lambda>req. fst (life_call broken env l req L)) k w inputPath artifactPath (?s, F))))"
  proof -
    let ?outcome = "fst (life_call broken env l (process_request inputPath (Base inputPath) artifactPath) L)"
    obtain e where e: "?outcome = Inl e" using dead_engine_call [OF assms(3)] by blast
    then obtain freq where r: "segment_report text w (Inr (ls_engine l)) ?outcome = Inl freq"
      and freq: "tfr_WorkerID freq = w" "bind_TaskFailedRequest freq"
      using assms(8) by (simp add: segment_report_def bind_TaskFailedRequest_def)
    have "failed_by k (snd (Failed k (Some freq) (ev 0) F))"
      using Failed_inflight [of k freq F task job "ev 0"] assms(5,6) freq by auto
    with r show ?thesis
      by (simp add: processUploadedSegment_report [OF assms(7,8)] Let_def ea_fail_Failed)
  qed
  ultimately show ?thesis by (intro conjI)
qed

definition ex_call_env :: CallEnv where
  "ex_call_env = \<lparr>ce_draw = None, ce_ctx1 = None, ce_exchange = (\<lambda>req. Inr (Inr ex_answer)), ce_ctx2 = None,
     ce_begins = 1, ce_ends = 2\<rparr>"

theorem signal_breaks_worker_witness:
  "\<exists>a a' r' L. ex_agent = Inr a \<and> ex_boot a = (None, a', r')
     \<and> reachable_from (life_start a' r') (life_step (entry_heartbeat 9) (\<lambda>c r. (HttpErr ''down'', r)) None (\<lambda>e. None)) L
     \<and> li_interrupted L \<and> li_returned L = None \<and> pl_started (ag_enginePool (li_agent L))
     \<and> failed_by ''task_03'' (snd (fst (processUploadedSegment ex_api (\<lambda>e. ''error'') (Inr 0)
          (\<lambda>req. fst (life_call ''broken pipe'' ex_call_env \<lparr>ls_engine = 0, ls_released = False\<rparr> req L))
          ''task_03'' ''wrk_01'' ''in'' ''out'' (ag_state (li_agent L), ex_upload_entry))))"
proof -
  have "(case ex_agent of Inl e \<Rightarrow> False | Inr a \<Rightarrow> (case ex_boot a of (err, a', r') \<Rightarrow> err = None))"
    by code_simp
  then obtain a a' r' where A: "ex_agent = Inr a" "ex_boot a = (None, a', r')"
    by (auto split: sum.splits prod.splits)
  define L where "L = (life_start a' r')\<lparr>li_interrupted := True\<rparr>"
  have L: "li_interrupted L" "li_returned L = None" by (simp_all add: L_def life_start_def)
  let ?step = "life_step (entry_heartbeat 9) (\<lambda>c r. (HttpErr ''down'', r)) None (\<lambda>e. None)"
  have "?step (life_start a' r') L"
    unfolding L_def by (rule life_step.signal) (simp add: life_start_def)
  then have R: "reachable_from (life_start a' r') ?step L"
    by (rule reach_step [OF reach_init])
  have st: "t_Status run_task = TaskStatusAssigned \<or> t_Status run_task = TaskStatusRunning"
    by (simp add: ex_upload_simps(4))
  have ne: "''task_03'' \<noteq> []" "''wrk_01'' \<noteq> []" by simp_all
  note T = signal_breaks_worker [OF A(2) [unfolded ex_boot_def] R L ex_upload_simps(3) st ne,
      where env = ex_call_env and broken = "''broken pipe''" and l = "\<lparr>ls_engine = 0, ls_released = False\<rparr>"]
  have "failed_by ''task_03'' (snd (fst (processUploadedSegment ex_api (\<lambda>e. ''error'') (Inr 0)
      (\<lambda>req. fst (life_call ''broken pipe'' ex_call_env \<lparr>ls_engine = 0, ls_released = False\<rparr> req L))
      ''task_03'' ''wrk_01'' ''in'' ''out'' (ag_state (li_agent L), ex_upload_entry))))"
    using conjunct2 [OF conjunct2 [OF conjunct2 [OF T]]] unfolding Lease.simps .
  with A R L conjunct1 [OF T] show ?thesis by blast
qed

text \<open>
  The deferred stop is set up only after the registration: when Entry refuses it, \<open>Run\<close> returns with
  the engines running.
\<close>

lemma refused_registration_keeps_engines:
  assumes "agent_boot ctxErr spawn stop reg usage (a0, E0) = (Some (AgentRegister err), a, E)"
  shows "pl_started (ag_enginePool a)"
proof -
  obtain perr p where P: "PoolStart ctxErr spawn stop (ag_enginePool a0) = (perr, p)" by (metis prod.exhaust)
  with assms have "perr = None" "ag_enginePool a = p"
    by (auto simp: agent_boot_def Let_def split: option.splits prod.splits)
  with P show ?thesis by (auto simp: PoolStart_def dest: start_loop_length split: if_splits option.splits)
qed

end
