(* ===== verification/Simulated_Worker.thy ===== *)
theory Simulated_Worker
  imports Worker_Agent_Spec
begin

text \<open>
  \<open>worker-node/cmd/test-worker/main.go\<close>, the simulated worker: it registers with the values of its
  flags and then sends idle heartbeats for ever. The calls to Entry are parameters; a run of the loop
  is given by the times of its rounds. Its replies are read by a \<open>postJSON\<close> of its own.
\<close>

subsection \<open>The program\<close>

record SimFlags =
  sf_host :: string
  sf_port :: int
  sf_slots :: int
  sf_diskTotal :: int
  sf_diskFree :: int

definition default_flags :: SimFlags where
  "default_flags =
     \<lparr>sf_host = ''127.0.0.1'', sf_port = 9001, sf_slots = 4, sf_diskTotal = 1000000000, sf_diskFree = 800000000\<rparr>"

text \<open>\<open>fmt.Sprintf("%s:%d", host, port)\<close>: unlike \<open>net.JoinHostPort\<close> it brackets no host.\<close>

definition sim_address :: "SimFlags \<Rightarrow> string" where
  "sim_address f = sf_host f @ CHR '':'' # Itoa (sf_port f)"

definition sim_register_request :: "SimFlags \<Rightarrow> RegisterWorkerRequest" where
  "sim_register_request f =
     \<lparr>rwr_Address = sim_address f, rwr_TotalSlots = sf_slots f,
      rwr_SupportedTasks = [TaskTypeProcessSegment, TaskTypeAssembleGIF],
      rwr_DiskTotalBytes = sf_diskTotal f, rwr_DiskFreeBytes = sf_diskFree f\<rparr>"

definition sim_heartbeat_request :: "SimFlags \<Rightarrow> string \<Rightarrow> HeartbeatWorkerRequest" where
  "sim_heartbeat_request f workerID =
     \<lparr>hwr_WorkerID = workerID, hwr_TotalSlots = sf_slots f, hwr_RunningProcessSegment = 0,
      hwr_RunningAssembleGIF = 0, hwr_RunningTasks = [],
      hwr_DiskTotalBytes = sf_diskTotal f, hwr_DiskFreeBytes = sf_diskFree f,
      hwr_Metrics =
        [(TaskTypeProcessSegment, \<lparr>trm_CompletedCount = 0, trm_TotalDurationMS = 0\<rparr>),
         (TaskTypeAssembleGIF, \<lparr>trm_CompletedCount = 0, trm_TotalDurationMS = 0\<rparr>)]\<rparr>"

definition sim_postJSON :: "'a HttpResult \<Rightarrow> string + 'a" where
  "sim_postJSON reply =
     (case reply of
        HttpErr err \<Rightarrow> Inl err
      | HttpResp code body \<Rightarrow>
          (case body of
             Inl err \<Rightarrow> Inl err
           | Inr resp \<Rightarrow>
               if code < 200 \<or> 300 \<le> code then Inl (''http status '' @ Itoa code) else Inr resp))"

definition registerWorker :: "RegisterWorkerResponse HttpResult \<Rightarrow> string + string" where
  "registerWorker reply =
     (case sim_postJSON reply of
        Inl err \<Rightarrow> Inl err
      | Inr resp \<Rightarrow>
          if rwp_Status resp \<noteq> RegisterWorkerStatusSuccess \<and> rwp_Status resp \<noteq> RegisterWorkerStatusExists
          then Inl (''unexpected register status: '' @ register_status_name (rwp_Status resp))
          else if rwp_WorkerID resp = [] then Inl ''register response missing worker_id''
          else Inr (rwp_WorkerID resp))"

definition heartbeatWorker :: "HeartbeatWorkerResponse HttpResult \<Rightarrow> string option" where
  "heartbeatWorker reply =
     (case sim_postJSON reply of
        Inl err \<Rightarrow> Some err
      | Inr resp \<Rightarrow>
          if hwp_Status resp \<noteq> HeartbeatWorkerStatusSuccess
          then Some (''unexpected heartbeat status: '' @ heartbeat_status_name (hwp_Status resp))
          else None)"

text \<open>The rounds of the endless loop at the given times: what each heartbeat returned, and Entry.\<close>

fun sim_rounds ::
  "(int \<Rightarrow> HeartbeatWorkerRequest \<Rightarrow> 'e \<Rightarrow> HeartbeatWorkerResponse HttpResult \<times> 'e) \<Rightarrow> SimFlags \<Rightarrow> string
     \<Rightarrow> int list \<Rightarrow> 'e \<Rightarrow> string option list \<times> 'e" where
  "sim_rounds post f workerID [] E = ([], E)"
| "sim_rounds post f workerID (t # ts) E =
     (case post t (sim_heartbeat_request f workerID) E of
        (reply, E) \<Rightarrow>
          (case sim_rounds post f workerID ts E of (res, E) \<Rightarrow> (heartbeatWorker reply # res, E)))"

definition sim_main ::
  "(RegisterWorkerRequest \<Rightarrow> 'e \<Rightarrow> RegisterWorkerResponse HttpResult \<times> 'e)
     \<Rightarrow> (int \<Rightarrow> HeartbeatWorkerRequest \<Rightarrow> 'e \<Rightarrow> HeartbeatWorkerResponse HttpResult \<times> 'e) \<Rightarrow> SimFlags
     \<Rightarrow> int list \<Rightarrow> 'e \<Rightarrow> (string + string option list) \<times> 'e" where
  "sim_main register post f ts E =
     (case register (sim_register_request f) E of
        (reply, E) \<Rightarrow>
          (case registerWorker reply of
             Inl err \<Rightarrow> (Inl err, E)
           | Inr workerID \<Rightarrow>
               (case sim_rounds post f workerID ts E of (res, E) \<Rightarrow> (Inr res, E))))"

subsection \<open>Against Entry\<close>

definition usable_flags :: "SimFlags \<Rightarrow> bool" where
  "usable_flags f \<longleftrightarrow>
     CHR '':'' \<notin> set (sf_host f) \<and> CHR ''['' \<notin> set (sf_host f) \<and> CHR '']'' \<notin> set (sf_host f)
     \<and> 0 \<le> sf_port f \<and> 1 \<le> sf_slots f \<and> 0 < sf_diskTotal f \<and> 0 < sf_diskFree f
     \<and> in64 (sf_slots f) \<and> in64 (sf_diskTotal f) \<and> in64 (sf_diskFree f)"

lemma sim_address_splits: "usable_flags f \<Longrightarrow> SplitHostPort (sim_address f) = Some (sf_host f, Itoa (sf_port f))"
proof -
  assume f: "usable_flags f"
  then have "list_all is_digit (Itoa (sf_port f))" by (simp add: usable_flags_def Itoa_def nat_digits_digits)
  then have "SplitHostPort (JoinHostPort (sf_host f) (Itoa (sf_port f))) = Some (sf_host f, Itoa (sf_port f))"
    using f digit_chars_safe by (intro SplitHostPort_JoinHostPort) (auto simp: usable_flags_def)
  with f show ?thesis by (simp add: sim_address_def JoinHostPort_def usable_flags_def)
qed

lemma sim_requests_valid:
  assumes "usable_flags f"
  shows "bind_RegisterWorkerRequest (sim_register_request f)"
    "validateRegisterWorkerRequest (sim_register_request f) = None"
    "k \<noteq> [] \<Longrightarrow> bind_HeartbeatWorkerRequest (sim_heartbeat_request f k)"
    "validateHeartbeatWorkerRequest (sim_heartbeat_request f k) = None"
  using assms sim_address_splits [OF assms]
  by (auto simp: bind_RegisterWorkerRequest_def sim_register_request_def validateRegisterWorkerRequest_def
      bind_HeartbeatWorkerRequest_def sim_heartbeat_request_def validateHeartbeatWorkerRequest_def usable_flags_def
      sim_address_def)

lemma sim_rounds_accepted:
  assumes "usable_flags f" and "k \<noteq> []"
  shows "wr_byID r k \<noteq> None \<Longrightarrow> fst (sim_rounds entry_heartbeat f k ts r) = replicate (length ts) None"
proof (induction ts arbitrary: r)
  case (Cons t ts)
  then obtain w where "wr_byID r k = Some w" by auto
  with sim_requests_valid(3,4) [OF assms(1)] assms(2) obtain resp r' where
    H: "entry_heartbeat t (sim_heartbeat_request f k) r = (HttpResp StatusOK (Inr resp), r')"
    and resp: "hwp_Status resp = HeartbeatWorkerStatusSuccess" and r': "wr_byID r' k \<noteq> None"
    by (auto simp: entry_heartbeat_def Heartbeat_def ShouldBindJSON_def HeartbeatWorker_def over_http_def
        sim_heartbeat_request_def)
  have "heartbeatWorker (HttpResp StatusOK (Inr resp)) = None"
    by (simp add: heartbeatWorker_def sim_postJSON_def resp)
  with H Cons.IH [OF r'] show ?case by (auto split: prod.splits)
qed simp

text \<open>
  With usable flags the simulated worker joins any Entry that finds it an identifier, and all its
  heartbeats are accepted.
\<close>

lemma simulated_worker_accepted:
  assumes "usable_flags f" and "wf_registry r"
    and "RegisterWorker (sim_register_request f) now draws r = Some (Inr (w, existed), r')" and "w_ID w \<noteq> []"
  shows "fst (sim_main (entry_register policy now draws) entry_heartbeat f ts r)
    = Inr (replicate (length ts) None)"
proof -
  from assms(3) sim_requests_valid(1) [OF assms(1)] obtain resp where
    R: "entry_register policy now draws (sim_register_request f) r = (HttpResp StatusOK (Inr resp), r')"
    and resp: "rwp_WorkerID resp = w_ID w" "rwp_Status resp \<in> {RegisterWorkerStatusSuccess, RegisterWorkerStatusExists}"
    by (auto simp: entry_register_def Register_def ShouldBindJSON_def over_http_def)
  have "registerWorker (HttpResp StatusOK (Inr resp)) = Inr (w_ID w)"
    using resp assms(4) by (auto simp: registerWorker_def sim_postJSON_def)
  moreover have "wr_byID r' (w_ID w) \<noteq> None" using RegisterWorker_stored(2) [OF assms(2,3)] by simp
  then have "fst (sim_rounds entry_heartbeat f (w_ID w) ts r') = replicate (length ts) None"
    by (rule sim_rounds_accepted [OF assms(1,4)])
  ultimately show ?thesis using R
    by (cases "sim_rounds entry_heartbeat f (w_ID w) ts r'") (simp add: sim_main_def)
qed

text \<open>A host with colons, as every IPv6 address is, makes an address that Entry refuses.\<close>

lemma simulated_ipv6_refused:
  assumes "CHR '':'' \<in> set (sf_host f)" and "hd (sf_host f) \<noteq> CHR ''[''" and "0 \<le> sf_port f"
  shows "validateRegisterWorkerRequest (sim_register_request f) = Some ErrInvalidWorkerAddress"
proof -
  have "list_all is_digit (Itoa (sf_port f))" using assms(3) by (simp add: Itoa_def nat_digits_digits)
  then have "CHR '':'' \<notin> set (Itoa (sf_port f))" using digit_chars_safe by auto
  note i = last_index_byte_append [OF this, of "sf_host f"]
  have "hd (sf_host f @ CHR '':'' # Itoa (sf_port f)) \<noteq> CHR ''[''"
    using assms(1,2) by (cases "sf_host f") auto
  with i assms(1) have "SplitHostPort (sim_address f) = None"
    by (simp add: SplitHostPort_def sim_address_def)
  then show ?thesis by (simp add: validateRegisterWorkerRequest_def sim_register_request_def)
qed

lemma default_flags_usable: "usable_flags default_flags"
  by (simp add: usable_flags_def default_flags_def in64_def)

end
