(* ===== verification/Spec2Isabelle.thy ===== *)
theory Spec2Isabelle
  imports Job_Race Registry_Reserve Entry_Handlers_Spec Pool_Spec Source_Spec Source_Videos
    Worker_Handlers_Spec Worker_Agent_Spec Peer_Download
    Result_Delivery Source_Engines Entry_Main Worker_Lifecycle Simulated_Worker
begin

text \<open>
  FrameFleet turns videos into GIFs on a fleet of machines. One Entry server
  (\<open>src/entry-server\<close>) keeps the workers and the jobs; every worker node
  (\<open>src/worker-node/go\<close>) runs a pool of engine processes, finds videos in its input directory,
  has them split, asks Entry for a job, uploads the segments to the workers Entry assigned, and
  serves the segments, artifacts and assemblies others send it. The messages are those of
  \<open>src/pkg/protocol\<close>. This library models both programs and the way they interact.

  Parts and theories.
  \<^item> \<open>Prelude\<close>: rule collections, sums over finite maps, and the interfaces every component
    shares: \<open>scan_best\<close> and \<open>scan_total\<close> (a loop over a Go map that keeps the best element)
    and \<open>transition_system\<close> (reachability and the invariant rule).
  \<^item> \<open>Go_Std\<close>, \<open>Go_Path\<close>: 64-bit integers with wrap-around, hex, \<open>Atoi\<close>, host and port,
    \<open>path/filepath\<close>.
  \<^item> \<open>Protocol\<close>, \<open>Entry_Model\<close>: the messages with their binding tags
    (\<open>pkg/protocol\<close>) and Entry's data (\<open>entry-server/internal/model\<close>).
  \<^item> \<open>Worker_Registry\<close> (\<open>service/worker_registry.go\<close>), with \<open>Registry_Selection\<close>,
    \<open>Registry_Invariant\<close>, \<open>Registry_Spec\<close>, \<open>Registry_Reserve\<close>: registration, heartbeat,
    expiry, backpressure, and the pickers that reserve slots and disk. The three indexes agree, the
    free slots of an online worker are exact (an expired one may show 0), every picker returns what its ordering names for every map order, a
    reservation is all or nothing.
  \<^item> \<open>Job_Manager\<close>, \<open>Job_Assembly\<close>, \<open>Job_Create\<close> (\<open>service/job_manager.go\<close>), with
    \<open>Job_Invariant\<close>, \<open>Job_Create_Spec\<close>: job creation with its plan, the segment reports, the
    start and the reports of the assembly. Each operation is its lock regions, composed as
    the code composes them.
  \<^item> \<open>Entry_Steps\<close>, \<open>Entry_Ledger\<close>, \<open>Entry_Safety\<close>, \<open>Entry_Properties\<close>,
    \<open>Entry_Identity\<close>, \<open>Entry_Refinement\<close>, \<open>Job_Race\<close>: Entry under concurrency. \<open>entry_step\<close> has one rule per lock
    region; its reachable states balance the ledger of slots and disk, keep jobs in their
    pipeline, end a task once, and have one job per source address and video name. The operations of \<open>Job_Manager\<close> are runs of it.
  \<^item> \<open>Entry_Progress\<close>, \<open>Entry_Stuck\<close>, \<open>Entry_Completion\<close>: what keeps a job moving. In every reachable
    state a job that has not ended waits for the report of a worker or is in the hands of a request,
    with one exception: a job with a failed segment that was set running again, which stays as it
    is for ever. When all its segments are reported, in any order, its assembly starts and the
    assembly's report completes it.
  \<^item> \<open>Entry_Server\<close> (\<open>server/server.go\<close>): the registry in time, with the ticker that expires
    workers: how long a silent worker stays online. \<open>Entry_Main\<close> (\<open>cmd/server/main.go\<close>,
    \<open>internal/logger\<close>): what the environment makes of a starting Entry.
  \<^item> \<open>Entry_Handlers\<close>, \<open>Entry_Handlers_Spec\<close> (\<open>entry-server/internal/handlers\<close>): the HTTP
    interface, its status codes, and that a refused report changes nothing.
  \<^item> \<open>Engine_Pool\<close>, \<open>Pool_Steps\<close>, \<open>Pool_Safety\<close>, \<open>Pool_Spec\<close>
    (\<open>worker-node/go/internal/enginepool\<close>, \<open>engineprotocol\<close>): the pool under concurrency.
    An engine is in one place, none is lost, a waiter is served, unless the pool is restarted
    under a lease. \<open>Engine_Lease\<close>, \<open>Engine_Lease_Spec\<close> (\<open>lease.go\<close>, \<open>engine.go\<close>): leases and
    calls, each composed of the pool's operations, under the contract \<open>lender\<close>: what is lent and
    what is idle add up.
  \<^item> \<open>Worker_State\<close>, \<open>Worker_State_Spec\<close> (\<open>workerstate\<close>, \<open>entryclient\<close>, \<open>heartbeat\<close>): what
    a worker knows of itself and tells Entry, composed with Entry's handler.
  \<^item> \<open>Source_Runner\<close>, \<open>Source_Leases\<close>, \<open>Source_Spec\<close>, \<open>Source_Videos\<close>
    (\<open>sourceworker\<close>): splitting, job creation and dispatch with every call it makes; the balance of
    engine leases; dispatch composed with Entry's \<open>Create\<close>; the life of a video under the
    interleaving of scanner and processor. \<open>Source_Engines\<close> replays a dispatch's leases on the
    pool: what an "already exists" answer costs it, then and in all later states.
  \<^item> \<open>Worker_Handlers\<close>, \<open>Worker_Handlers_Spec\<close> (\<open>worker-node/go/internal/handlers\<close>): uploads,
    segment processing, assembly, artifacts and results, composed with Entry's reporting
    handlers through \<open>entry_api\<close>.
  \<^item> \<open>Worker_Files\<close> (\<open>spool\<close>, \<open>diskusage\<close>), \<open>Peer_Download\<close> (\<open>peerclient\<close>),
    \<open>Env_Config\<close>, \<open>Env_Config_Spec\<close> (\<open>pkg/envfile\<close>, \<open>config\<close>, the settings of
    \<open>entry-server/cmd/server\<close>), \<open>Worker_Agent\<close>, \<open>Worker_Agent_Spec\<close> (\<open>agent\<close>): files and paths,
    a download that is whole or absent, the environment files, and a worker that comes up
    against Entry.
  \<^item> \<open>Worker_Lifecycle\<close> (the rest of \<open>agent\<close>, with \<open>heartbeat\<close>, \<open>taskmonitor\<close> and the loops of
    \<open>sourceworker\<close>, and \<open>defaultCommandFactory\<close> of \<open>enginepool\<close>): the loops of a running worker, the
    context they and the engine processes are bound to, the signal that ends it, and what a worker
    does after it.
    \<open>Simulated_Worker\<close> (\<open>worker-node/cmd/test-worker\<close>): the program that plays a worker.
  \<^item> \<open>Http_Routes\<close> (\<open>server/routes.go\<close>, \<open>handlers.go\<close>, the clients' addresses): every call reaches
    the handler it is meant for. \<open>Result_Delivery\<close> composes it with both programs: a completed
    job's stored address serves the file the assembly wrote.

  How state corresponds. A Go struct is a record whose fields carry its initials as a prefix; a
  Go map is a finite map; a \<open>*T\<close> that the code shares is an address (engines and channels of the
  pool) and otherwise the record it points to; an error is the left side of a sum, or \<open>None\<close> of
  an option. \<open>int\<close> and \<open>int64\<close> are \<open>int\<close> with \<open>wrap64\<close> written at every operation that
  may leave the range. What Go leaves open is an argument: the order of a map iteration, the clock,
  random bytes, the answers of peers, engines and the file system.

  Bounds. The counters of the registry do not wrap below \<open>slot_limit\<close> reservations, more than
  memory holds; theorems that need it say so. The loops are structural recursions on the list
  they walk, except \<open>nextWorkerIDLocked\<close>, which draws from a list of draws (it fails
  when the list ends, and returns when the list holds an unused identifier), and
  \<open>existingPath\<close>, which ends because a parent path is shorter. The loops that never end
  (tickers, the simulated worker) are step relations or are run for a given list of rounds. A
  ticker fires at the latest one interval after it last did. No definition uses fuel.

  Locales. \<open>scan_best\<close>, \<open>scan_total\<close> (registry), \<open>slot_ledger\<close> (what job creation needs of
  the registry), \<open>report_endpoint\<close> (the four reporting handlers), \<open>lender\<close> (what the users of
  engines need of the pool), \<open>transition_system\<close> (registry, server, Entry, its progress, pool,
  worker state, videos, a worker's life); each is interpreted on the model.

  Not modelled: the matching of routes in the web framework (a parameter, with what it documents
  as \<open>routes_by_patterns\<close>), the encoding of JSON, the text of log lines and the worker's copy of
  Entry's logger, the task monitor, which only logs, the framing of lines on an engine's pipes,
  and the media engine itself, which is not Go. They are arguments of the definitions that
  depend on them or leave the state modelled here as it is.
\<close>

end
